(* ===== verification/Logger_Prelude.thy ===== *)
theory Logger_Prelude
  imports Main "HOL-Library.Word" "HOL-Library.Monad_Syntax"
begin

text \<open>
  Shared vocabulary of the development: the C integer types, the \<^verbatim>\<open>errno\<close> values,
  character arrays with their terminating NUL, \<^verbatim>\<open>memcpy\<close> into an array, bit counting,
  saturating counters, and the generic lemmas the components use.

  A C array of characters is a list of the array's length. A borrowed C string
  (\<^verbatim>\<open>const char *\<close>) is an option over the characters before its NUL, with
  \<^const>\<open>None\<close> for the null pointer. Functions of the code that report failure return
  the same integers: 0, \<open>-errno\<close>, or \<open>-1\<close> with the \<^verbatim>\<open>errno\<close> value beside it.
\<close>

unbundle bit_operations_syntax

section \<open>Collections of facts\<close>

named_theorems arr_simps \<open>length and content of arrays after a copy\<close>
named_theorems branch_defs \<open>definitions unfolded to see the branches of an operation\<close>

section \<open>C types\<close>

type_synonym size_t = "64 word"
type_synonym u64 = "64 word"
type_synonym u32 = "32 word"
type_synonym u16 = "16 word"
type_synonym u8 = "8 word"
type_synonym errno = int
type_synonym cptr = "string option"

abbreviation SIZE_MAX :: size_t where "SIZE_MAX \<equiv> - 1"
abbreviation UINT64_MAX :: u64 where "UINT64_MAX \<equiv> - 1"

text \<open>\<^verbatim>\<open>(unsigned int)x\<close> of a C enumeration or \<^verbatim>\<open>int\<close>.\<close>

definition as_unsigned :: "int \<Rightarrow> int" where
  "as_unsigned x = x mod 2 ^ 32"

lemma as_unsigned_le_iff:
  assumes "0 \<le> b" "b < 2 ^ 31" "- (2 ^ 31) \<le> x" "x < 2 ^ 31"
  shows "as_unsigned x \<le> b \<longleftrightarrow> 0 \<le> x \<and> x \<le> b"
proof (cases "0 \<le> x")
  case True
  then show ?thesis using assms by (simp add: as_unsigned_def)
next
  case False
  then have "x mod 2 ^ 32 = x + 2 ^ 32"
    using assms mod_pos_pos_trivial [of "x + 2 ^ 32" "2 ^ 32"] by simp
  then show ?thesis using False assms by (simp add: as_unsigned_def)
qed

section \<open>Error numbers (Linux values)\<close>

abbreviation ENOENT :: errno where "ENOENT \<equiv> 2"
abbreviation EINTR :: errno where "EINTR \<equiv> 4"
abbreviation EIO :: errno where "EIO \<equiv> 5"
abbreviation E2BIG :: errno where "E2BIG \<equiv> 7"
abbreviation EBADF :: errno where "EBADF \<equiv> 9"
abbreviation ECHILD :: errno where "ECHILD \<equiv> 10"
abbreviation EAGAIN :: errno where "EAGAIN \<equiv> 11"
abbreviation EWOULDBLOCK :: errno where "EWOULDBLOCK \<equiv> 11"
abbreviation ENOMEM :: errno where "ENOMEM \<equiv> 12"
abbreviation EBUSY :: errno where "EBUSY \<equiv> 16"
abbreviation EEXIST :: errno where "EEXIST \<equiv> 17"
abbreviation ENODEV :: errno where "ENODEV \<equiv> 19"
abbreviation EINVAL :: errno where "EINVAL \<equiv> 22"
abbreviation ENOTTY :: errno where "ENOTTY \<equiv> 25"
abbreviation ENOSPC :: errno where "ENOSPC \<equiv> 28"
abbreviation EMLINK :: errno where "EMLINK \<equiv> 31"
abbreviation EPIPE :: errno where "EPIPE \<equiv> 32"
abbreviation ERANGE :: errno where "ERANGE \<equiv> 34"
abbreviation EDEADLK :: errno where "EDEADLK \<equiv> 35"
abbreviation ENAMETOOLONG :: errno where "ENAMETOOLONG \<equiv> 36"
abbreviation ENOSYS :: errno where "ENOSYS \<equiv> 38"
abbreviation ELOOP :: errno where "ELOOP \<equiv> 40"
abbreviation EOVERFLOW :: errno where "EOVERFLOW \<equiv> 75"
abbreviation EILSEQ :: errno where "EILSEQ \<equiv> 84"
abbreviation EDESTADDRREQ :: errno where "EDESTADDRREQ \<equiv> 89"
abbreviation EMSGSIZE :: errno where "EMSGSIZE \<equiv> 90"
abbreviation EPROTONOSUPPORT :: errno where "EPROTONOSUPPORT \<equiv> 93"
abbreviation ENOTSUP :: errno where "ENOTSUP \<equiv> 95"
abbreviation ECONNRESET :: errno where "ECONNRESET \<equiv> 104"
abbreviation ENOBUFS :: errno where "ENOBUFS \<equiv> 105"
abbreviation ENOTCONN :: errno where "ENOTCONN \<equiv> 107"
abbreviation ESHUTDOWN :: errno where "ESHUTDOWN \<equiv> 108"
abbreviation ECONNREFUSED :: errno where "ECONNREFUSED \<equiv> 111"
abbreviation EALREADY :: errno where "EALREADY \<equiv> 114"
abbreviation ESTALE :: errno where "ESTALE \<equiv> 116"
abbreviation EUCLEAN :: errno where "EUCLEAN \<equiv> 117"
abbreviation ECANCELED :: errno where "ECANCELED \<equiv> 125"

text \<open>\<^verbatim>\<open>errno ? errno : fallback\<close>.\<close>

definition errno_or :: "errno \<Rightarrow> errno \<Rightarrow> errno" where
  "errno_or e fallback = (if e \<noteq> 0 then e else fallback)"

lemma errno_or_nonzero [simp]: "b \<noteq> 0 \<Longrightarrow> errno_or e b \<noteq> 0"
  by (simp add: errno_or_def)

lemma errno_or_pos: "0 \<le> e \<Longrightarrow> 0 < b \<Longrightarrow> 0 < errno_or e b"
  by (simp add: errno_or_def)

text \<open>The first error wins: \<^verbatim>\<open>rc ? rc : next\<close>.\<close>

definition first_rc :: "int \<Rightarrow> int \<Rightarrow> int" where
  "first_rc rc nxt = (if rc \<noteq> 0 then rc else nxt)"

lemma first_rc_zero [simp]: "first_rc rc nxt = 0 \<longleftrightarrow> rc = 0 \<and> nxt = 0"
  by (simp add: first_rc_def)

text \<open>A compare-and-exchange from 0: the first nonzero value stays.\<close>

definition sticky :: "int \<Rightarrow> int \<Rightarrow> int" where
  "sticky old new = (if old = 0 then new else old)"

lemma sticky_keeps [simp]: "old \<noteq> 0 \<Longrightarrow> sticky old new = old"
  by (simp add: sticky_def)

lemma sticky_idem [simp]: "sticky (sticky a b) c = sticky a (sticky b c)"
  by (simp add: sticky_def)

section \<open>Characters, strings and arrays\<close>

abbreviation NUL :: char where "NUL \<equiv> CHR 0x00"

text \<open>The C string stored in an array: the bytes before the first NUL.\<close>

definition cstr :: "char list \<Rightarrow> string" where
  "cstr xs = takeWhile (\<lambda>c. c \<noteq> NUL) xs"

text \<open>\<^verbatim>\<open>src[n]\<close> of a NUL-terminated string whose characters before the NUL are \<open>s\<close>.\<close>

definition char_at :: "string \<Rightarrow> nat \<Rightarrow> char" where
  "char_at s n = (if n < length s then s ! n else NUL)"

definition nul_free :: "string \<Rightarrow> bool" where
  "nul_free s \<longleftrightarrow> NUL \<notin> set s"

text \<open>\<^verbatim>\<open>memcpy(dst + off, src, n)\<close> into an array, and one assigned element.\<close>

definition memcpy_at :: "'a list \<Rightarrow> nat \<Rightarrow> 'a list \<Rightarrow> nat \<Rightarrow> 'a list" where
  "memcpy_at dst off src n = take off dst @ take n src @ drop (off + n) dst"

lemma length_memcpy_at [arr_simps, simp]:
  "off + n \<le> length dst \<Longrightarrow> n \<le> length src \<Longrightarrow> length (memcpy_at dst off src n) = length dst"
  by (simp add: memcpy_at_def)

lemma take_memcpy_at [arr_simps]:
  "off + n \<le> length dst \<Longrightarrow> n \<le> length src \<Longrightarrow>
   take (off + n) (memcpy_at dst off src n) = take off dst @ take n src"
  by (simp add: memcpy_at_def min_def)

lemma memcpy_at_0_full [arr_simps, simp]:
  "length src = n \<Longrightarrow> length dst = n \<Longrightarrow> memcpy_at dst 0 src n = src"
  by (simp add: memcpy_at_def)

lemma nth_memcpy_at:
  assumes "off + n \<le> length dst" "n \<le> length src" "i < length dst"
  shows "memcpy_at dst off src n ! i =
    (if off \<le> i \<and> i < off + n then src ! (i - off) else dst ! i)"
  using assms by (auto simp: memcpy_at_def nth_append min_def not_less)

lemma cstr_append_NUL [arr_simps, simp]: "nul_free s \<Longrightarrow> cstr (s @ NUL # xs) = s"
proof (induction s)
  case Nil
  then show ?case by (simp add: cstr_def)
next
  case (Cons a s)
  then show ?case by (auto simp: cstr_def nul_free_def)
qed

lemma cstr_NUL_Cons [simp]: "cstr (NUL # xs) = []"
  by (simp add: cstr_def)

lemma cstr_nul_free [simp]: "nul_free (cstr xs)"
  by (auto simp: cstr_def nul_free_def dest: set_takeWhileD)

lemma nul_free_cstr_id [simp]: "nul_free s \<Longrightarrow> cstr s = s"
  by (auto simp: cstr_def nul_free_def takeWhile_eq_all_conv)

lemma nul_free_take [simp]: "nul_free s \<Longrightarrow> nul_free (take n s)"
  by (auto simp: nul_free_def dest: in_set_takeD)

lemma nul_free_append [simp]: "nul_free (a @ b) \<longleftrightarrow> nul_free a \<and> nul_free b"
  by (auto simp: nul_free_def)

lemma cstr_prefix_determines:
  assumes "take (Suc n) xs = s @ [NUL]" and "nul_free s"
  shows "cstr xs = s"
proof -
  have "xs = (s @ [NUL]) @ drop (Suc n) xs"
    using assms(1) append_take_drop_id [of "Suc n" xs] by simp
  then show ?thesis using assms(2) cstr_append_NUL by (metis append.assoc append_Cons append_Nil)
qed

text \<open>\<^verbatim>\<open>strnlen\<close>: scan at most \<open>n\<close> elements for a NUL.\<close>

fun c_strnlen :: "nat \<Rightarrow> char list \<Rightarrow> nat" where
  "c_strnlen 0 cs = 0"
| "c_strnlen (Suc n) [] = 0"
| "c_strnlen (Suc n) (c # cs) = (if c = NUL then 0 else Suc (c_strnlen n cs))"

lemma c_strnlen_cstr: "c_strnlen n cs = min n (length (cstr cs))"
  by (induction n cs rule: c_strnlen.induct) (auto simp: cstr_def)

lemma c_strnlen_nul_free [simp]: "nul_free s \<Longrightarrow> c_strnlen n s = min n (length s)"
  by (simp add: c_strnlen_cstr)

text \<open>\<^verbatim>\<open>strrchr(s, c)\<close> as the part after the last occurrence, if there is one.\<close>

fun after_last :: "char \<Rightarrow> string \<Rightarrow> string option" where
  "after_last c [] = None"
| "after_last c (x # xs) =
     (case after_last c xs of Some r \<Rightarrow> Some r | None \<Rightarrow> (if x = c then Some xs else None))"

lemma after_last_None: "after_last c s = None \<longleftrightarrow> c \<notin> set s"
  by (induction s) (auto split: option.splits)

lemma after_last_Some:
  "after_last c s = Some r \<Longrightarrow> \<exists>p. s = p @ c # r \<and> c \<notin> set r"
proof (induction s arbitrary: r)
  case Nil
  then show ?case by simp
next
  case (Cons a s)
  show ?case
  proof (cases "after_last c s")
    case None
    then have "a = c" "r = s" using Cons.prems by (auto split: if_splits)
    moreover have "c \<notin> set s" using None by (simp add: after_last_None)
    ultimately show ?thesis by (auto intro: exI [of _ "[]"])
  next
    case (Some r')
    then obtain p where "s = p @ c # r'" "c \<notin> set r'" using Cons.IH by blast
    then show ?thesis using Cons.prems Some by (auto intro: exI [of _ "a # p"])
  qed
qed

section \<open>Bits and counters\<close>

text \<open>\<^verbatim>\<open>__builtin_ctz\<close> and \<^verbatim>\<open>__builtin_popcount\<close> on a word.\<close>

definition ctz :: "'a::len word \<Rightarrow> nat" where
  "ctz w = length (takeWhile (\<lambda>i. \<not> bit w i) [0..<LENGTH('a)])"

definition popcount :: "'a::len word \<Rightarrow> nat" where
  "popcount w = length (filter (bit w) [0..<LENGTH('a)])"

lemma ctz_le: "ctz (w :: 'a::len word) \<le> LENGTH('a)"
  using length_takeWhile_le [of "\<lambda>i. \<not> bit w i" "[0..<LENGTH('a)]"] by (simp add: ctz_def)

lemma bit_ctz:
  fixes w :: "'a::len word"
  assumes "w \<noteq> 0"
  shows "ctz w < LENGTH('a)" and "bit w (ctz w)"
proof -
  let ?P = "\<lambda>i. \<not> bit w i"
  obtain i where i: "bit w i" using assms by (auto simp: bit_eq_iff)
  then have "i < LENGTH('a)" by (rule bit_imp_le_length)
  then have ex: "\<not> list_all ?P [0..<LENGTH('a)]" using i by (auto simp: list_all_iff)
  then have lt: "length (takeWhile ?P [0..<LENGTH('a)]) < length [0..<LENGTH('a)]"
    by (metis length_takeWhile_le le_neq_implies_less list_all_iff takeWhile_eq_all_conv
        takeWhile_eq_take take_all_iff order_refl)
  then show "ctz w < LENGTH('a)" by (simp add: ctz_def)
  from nth_length_takeWhile [OF lt] lt show "bit w (ctz w)" by (simp add: ctz_def)
qed

lemma popcount_card: "popcount (w :: 'a::len word) = card {i. i < LENGTH('a) \<and> bit w i}"
proof -
  have "popcount w = card (set (filter (bit w) [0..<LENGTH('a)]))"
    unfolding popcount_def by (rule distinct_card [symmetric]) simp
  also have "set (filter (bit w) [0..<LENGTH('a)]) = {i. i < LENGTH('a) \<and> bit w i}" by auto
  finally show ?thesis .
qed

lemma popcount_le: "popcount (w :: 'a::len word) \<le> LENGTH('a)"
  unfolding popcount_def using length_filter_le [of "bit w" "[0..<LENGTH('a)]"] by simp

text \<open>Setting and clearing one bit of a bitmap word.\<close>

lemma bit_set_bit:
  "bit (w OR push_bit b 1) k \<longleftrightarrow> bit w k \<or> k = b \<and> b < LENGTH('a)" for w :: "'a::len word"
  by (auto simp: bit_or_iff bit_exp_iff)

lemma bit_clear_bit:
  "bit (w AND NOT (push_bit b 1)) k \<longleftrightarrow> bit w k \<and> k \<noteq> b" for w :: "'a::len word"
  by (auto simp: bit_and_iff bit_not_iff bit_exp_iff dest: bit_imp_le_length)

text \<open>A saturating addition, as the file backend's byte counters use.\<close>

definition sat_add :: "'a::len word \<Rightarrow> 'a word \<Rightarrow> 'a word" where
  "sat_add a b = (if - 1 - a < b then - 1 else a + b)"

lemma unat_minus_one_word: "unat (- 1 :: 'a::len word) = 2 ^ LENGTH('a) - 1"
  by (simp add: unsigned_minus_1_eq_mask mask_eq_exp_minus_1)

lemma unat_sat_add:
  fixes a b :: "'a::len word"
  shows "unat (sat_add a b) = min (unat a + unat b) (2 ^ LENGTH('a) - 1)"
proof -
  have m: "unat (- 1 - a) = 2 ^ LENGTH('a) - 1 - unat a"
    by (metis unat_minus_one_word unat_sub word_order.extremum)
  have a: "unat a < 2 ^ LENGTH('a)" by (rule unsigned_less)
  show ?thesis
  proof (cases "- 1 - a < b")
    case True
    then have "2 ^ LENGTH('a) - 1 - unat a < unat b" using m by (simp add: word_less_nat_alt)
    then show ?thesis using True a by (simp add: sat_add_def unat_minus_one_word min_def)
  next
    case False
    then have le: "unat a + unat b \<le> 2 ^ LENGTH('a) - 1"
      using m a unfolding word_less_nat_alt not_less by linarith
    with a have "unat a + unat b < 2 ^ LENGTH('a)" by linarith
    then have "unat (a + b) = unat a + unat b" by (simp add: unat_add_lem)
    then show ?thesis using False le by (simp add: sat_add_def min_def)
  qed
qed

end
