(* ===== verification/Logger_Record.thy ===== *)
theory Logger_Record
  imports Logger_Prelude
begin

text \<open>
  The log record of \<^verbatim>\<open>src/logger_record.h\<close> and the public enumerations of
  \<^verbatim>\<open>include/logger.h\<close>: levels, details and output bits (as integers, because the code
  range-checks values that a caller may have cast), the message structure with its
  fixed arrays, and the bounded copies of source labels. A pointer of the message that
  \<^verbatim>\<open>logger_record_rebase\<close> directs into the message's own storage is the C string found
  there.
\<close>

section \<open>Levels, details, outputs\<close>

type_synonym logger_level_t = int
type_synonym logger_detail_t = int

abbreviation LOGGER_TRACE :: logger_level_t where "LOGGER_TRACE \<equiv> 0"
abbreviation LOGGER_DEBUG :: logger_level_t where "LOGGER_DEBUG \<equiv> 1"
abbreviation LOGGER_INFO :: logger_level_t where "LOGGER_INFO \<equiv> 2"
abbreviation LOGGER_WARN :: logger_level_t where "LOGGER_WARN \<equiv> 3"
abbreviation LOGGER_ERROR :: logger_level_t where "LOGGER_ERROR \<equiv> 4"
abbreviation LOGGER_FATAL :: logger_level_t where "LOGGER_FATAL \<equiv> 5"
abbreviation LOGGER_OFF :: logger_level_t where "LOGGER_OFF \<equiv> 6"

abbreviation LOGGER_DETAIL_MINIMAL :: logger_detail_t where "LOGGER_DETAIL_MINIMAL \<equiv> 0"
abbreviation LOGGER_DETAIL_NORMAL :: logger_detail_t where "LOGGER_DETAIL_NORMAL \<equiv> 1"
abbreviation LOGGER_DETAIL_VERBOSE :: logger_detail_t where "LOGGER_DETAIL_VERBOSE \<equiv> 2"
abbreviation LOGGER_DETAIL_DEBUG :: logger_detail_t where "LOGGER_DETAIL_DEBUG \<equiv> 3"

abbreviation LOGGER_OUT_STDERR :: u32 where "LOGGER_OUT_STDERR \<equiv> 1"
abbreviation LOGGER_OUT_FILE :: u32 where "LOGGER_OUT_FILE \<equiv> 2"
abbreviation LOGGER_OUT_SYSLOG :: u32 where "LOGGER_OUT_SYSLOG \<equiv> 4"

abbreviation LOGGER_MESSAGE_MAX :: nat where "LOGGER_MESSAGE_MAX \<equiv> 4096"
abbreviation LOGGER_LINE_MAX :: nat where "LOGGER_LINE_MAX \<equiv> 5120"

abbreviation LOGGER_RECORD_META_MODULE :: u8 where "LOGGER_RECORD_META_MODULE \<equiv> 1"
abbreviation LOGGER_RECORD_META_CONTEXT :: u8 where "LOGGER_RECORD_META_CONTEXT \<equiv> 2"
abbreviation LOGGER_RECORD_META_SOURCE :: u8 where "LOGGER_RECORD_META_SOURCE \<equiv> 4"

record timespec =
  tv_sec :: int
  tv_nsec :: int

section \<open>The message\<close>

record logger_message =
  m_level :: logger_level_t
  m_ts :: timespec
  m_pid :: int
  m_tid :: int
  m_file :: cptr
  m_func :: cptr
  m_module :: cptr
  m_line :: int
  m_metadata_mask :: u8
  m_request_id :: "char list"
  m_session_id :: "char list"
  m_trace_id :: "char list"
  m_text_len :: u16
  m_text :: "char list"
  m_module_storage :: "char list"
  m_file_storage :: "char list"
  m_function_storage :: "char list"

text \<open>The lengths of the arrays in \<^verbatim>\<open>struct logger_message\<close>.\<close>

definition message_wf :: "logger_message \<Rightarrow> bool" where
  "message_wf m \<longleftrightarrow>
     length (m_request_id m) = 64 \<and> length (m_session_id m) = 64 \<and> length (m_trace_id m) = 64 \<and>
     length (m_text m) = LOGGER_MESSAGE_MAX \<and>
     length (m_module_storage m) = 128 \<and> length (m_file_storage m) = 256 \<and>
     length (m_function_storage m) = 128"

text \<open>\<^verbatim>\<open>logger_text_mark_truncated\<close>: the visible marker at the end of a full buffer.\<close>

definition truncation_marker :: "char list" where
  "truncation_marker = '' [truncated]'' @ [NUL]"

definition logger_text_mark_truncated :: "char list \<Rightarrow> nat \<Rightarrow> char list" where
  "logger_text_mark_truncated text capacity =
     (if length truncation_marker \<le> capacity
      then memcpy_at text (capacity - length truncation_marker) truncation_marker
             (length truncation_marker)
      else if 2 \<le> capacity
      then (text[capacity - 2 := CHR ''~''])[capacity - 1 := NUL]
      else text)"

lemma length_truncation_marker [simp]: "length truncation_marker = 13"
  by (simp add: truncation_marker_def)

lemma length_mark_truncated [simp, arr_simps]:
  "capacity \<le> length text \<Longrightarrow> length (logger_text_mark_truncated text capacity) = length text"
  by (simp add: logger_text_mark_truncated_def)

text \<open>
  \<^verbatim>\<open>logger_source_copy\<close>: the loop scans at most \<open>cap - 1\<close> bytes, copies them, terminates the
  copy, and overwrites the last copied byte with a tilde when the source continues.
\<close>

fun source_scan :: "nat \<Rightarrow> nat \<Rightarrow> string \<Rightarrow> nat" where
  "source_scan n cap [] = n"
| "source_scan n cap (c # cs) = (if n + 1 < cap then source_scan (Suc n) cap cs else n)"

lemma source_scan_min: "n + 1 \<le> cap \<Longrightarrow> source_scan n cap s = min (n + length s) (cap - 1)"
  by (induction n cap s rule: source_scan.induct) auto

definition logger_source_copy :: "char list \<Rightarrow> nat \<Rightarrow> string \<Rightarrow> char list" where
  "logger_source_copy dst cap src =
     (let n = source_scan 0 cap src;
          dst1 = memcpy_at dst 0 src n;
          dst2 = dst1[n := NUL]
      in if char_at src n \<noteq> NUL \<and> n \<noteq> 0 then dst2[n - 1 := CHR ''~''] else dst2)"

text \<open>What the stored label reads as: the source, or its visibly shortened prefix.\<close>

definition short_label :: "nat \<Rightarrow> string \<Rightarrow> string" where
  "short_label cap s = (if length s < cap then s else take (cap - 2) s @ ''~'')"

lemma short_label_bound: "2 \<le> cap \<Longrightarrow> length (short_label cap s) < cap"
  by (auto simp: short_label_def)

lemma nul_free_short_label [simp]: "nul_free s \<Longrightarrow> nul_free (short_label cap s)"
  by (simp add: short_label_def) (simp add: nul_free_def)

lemma take_label_bytes:
  assumes len: "length dst = cap" and cap: "2 \<le> cap" and s: "nul_free src"
  shows "take (Suc (min (length src) (cap - 1))) (logger_source_copy dst cap src)
       = short_label cap src @ [NUL]"
proof -
  let ?n = "min (length src) (cap - 1)"
  have n: "source_scan 0 cap src = ?n" using cap by (simp add: source_scan_min)
  let ?d = "(memcpy_at dst 0 src ?n)[?n := NUL]"
  have d: "?d = take ?n src @ NUL # drop (Suc ?n) dst"
  proof -
    have "?n < length dst" using len cap by simp
    then have "drop ?n dst = dst ! ?n # drop (Suc ?n) dst" by (rule Cons_nth_drop_Suc [symmetric])
    then show ?thesis by (simp add: memcpy_at_def list_update_append)
  qed
  show ?thesis
  proof (cases "length src < cap")
    case True
    then have "char_at src ?n = NUL" by (simp add: char_at_def)
    then have "logger_source_copy dst cap src = ?d" by (simp add: logger_source_copy_def n Let_def)
    then show ?thesis using True d by (simp add: short_label_def)
  next
    case False
    then have m: "?n = cap - 1" by simp
    have lt: "cap - 1 < length src" using False cap by simp
    then have "src ! (cap - 1) \<noteq> NUL" using s nth_mem unfolding nul_free_def by metis
    then have "char_at src (cap - 1) \<noteq> NUL" using lt unfolding char_at_def by simp
    then have "logger_source_copy dst cap src = ?d[cap - 2 := CHR ''~'']"
      using cap unfolding logger_source_copy_def n m Let_def by (simp add: numeral_2_eq_2)
    moreover have "take ?n src = take (cap - 2) src @ [src ! (cap - 2)]"
      using False cap m take_Suc_conv_app_nth [of "cap - 2" src]
      by (simp add: Suc_diff_Suc numeral_2_eq_2)
    moreover have "length (take (cap - 2) src) = cap - 2" using False cap by simp
    ultimately show ?thesis using False cap d m
      by (simp add: short_label_def list_update_append del: length_take)
  qed
qed

lemma length_source_copy [simp, arr_simps]:
  "length dst = cap \<Longrightarrow> 1 \<le> cap \<Longrightarrow> length (logger_source_copy dst cap src) = cap"
  by (simp add: logger_source_copy_def Let_def source_scan_min)

lemma cstr_source_copy:
  assumes "length dst = cap" "2 \<le> cap" "nul_free src"
  shows "cstr (logger_source_copy dst cap src) = short_label cap src"
  using cstr_prefix_determines [OF take_label_bytes [OF assms]] assms(3) by simp

text \<open>\<^verbatim>\<open>logger_record_text_length\<close>: trust \<^verbatim>\<open>text_len\<close> when it points at a NUL, else scan.\<close>

definition logger_record_text_length :: "logger_message \<Rightarrow> nat" where
  "logger_record_text_length m =
     (let n = unat (m_text_len m) in
      if (n \<noteq> 0 \<or> m_text m ! 0 = NUL) \<and> n < LOGGER_MESSAGE_MAX \<and> m_text m ! n = NUL
      then n else c_strnlen LOGGER_MESSAGE_MAX (m_text m))"

lemma record_text_length_le: "logger_record_text_length m \<le> LOGGER_MESSAGE_MAX"
  by (simp add: logger_record_text_length_def Let_def c_strnlen_cstr)

lemma record_text_length_NUL:
  assumes "length (m_text m) = LOGGER_MESSAGE_MAX"
    and "logger_record_text_length m \<noteq> LOGGER_MESSAGE_MAX"
  shows "logger_record_text_length m < LOGGER_MESSAGE_MAX \<and>
         m_text m ! logger_record_text_length m = NUL"
proof (cases "(unat (m_text_len m) \<noteq> 0 \<or> m_text m ! 0 = NUL) \<and>
    unat (m_text_len m) < LOGGER_MESSAGE_MAX \<and> m_text m ! unat (m_text_len m) = NUL")
  case True
  then show ?thesis by (simp add: logger_record_text_length_def)
next
  case False
  then have e: "logger_record_text_length m = min LOGGER_MESSAGE_MAX (length (cstr (m_text m)))"
    by (simp only: logger_record_text_length_def Let_def c_strnlen_cstr if_False)
  then have lt: "length (cstr (m_text m)) < length (m_text m)" using assms by simp
  then have "m_text m ! length (cstr (m_text m)) = NUL"
    using nth_length_takeWhile [of "\<lambda>c. c \<noteq> NUL" "m_text m"] by (simp add: cstr_def)
  then show ?thesis using e lt assms(1) by simp
qed

text \<open>\<^verbatim>\<open>logger_basename\<close> and the same computation inlined elsewhere: \<^verbatim>\<open>NULL\<close> reads as a question mark.\<close>

definition logger_basename :: "cptr \<Rightarrow> string" where
  "logger_basename path =
     (case path of None \<Rightarrow> ''?''
      | Some p \<Rightarrow> (case after_last (CHR ''/'') p of Some r \<Rightarrow> r | None \<Rightarrow> p))"

definition str_or :: "cptr \<Rightarrow> string \<Rightarrow> string" where
  "str_or p d = (case p of Some s \<Rightarrow> s | None \<Rightarrow> d)"

definition logger_record_rebase :: "logger_message \<Rightarrow> logger_message" where
  "logger_record_rebase m =
     m\<lparr>m_module := Some (cstr (m_module_storage m)), m_file := Some (cstr (m_file_storage m)),
       m_func := Some (cstr (m_function_storage m))\<rparr>"

definition logger_record_own_source :: "logger_message \<Rightarrow> logger_message" where
  "logger_record_own_source m =
     logger_record_rebase
       (m\<lparr>m_module_storage := logger_source_copy (m_module_storage m) 128 (str_or (m_module m) ''app''),
          m_file_storage := logger_source_copy (m_file_storage m) 256 (logger_basename (m_file m)),
          m_function_storage := logger_source_copy (m_function_storage m) 128 (str_or (m_func m) ''?'')\<rparr>)"

lemma basename_no_slash: "CHR ''/'' \<notin> set (logger_basename p)"
  using after_last_Some [of "CHR ''/''"]
  by (auto simp: logger_basename_def after_last_None split: option.splits)

lemma nul_free_basename:
  "(\<forall>s. p = Some s \<longrightarrow> nul_free s) \<Longrightarrow> nul_free (logger_basename p)"
  by (auto simp: logger_basename_def nul_free_def split: option.splits dest!: after_last_Some)

lemma nul_free_str_or:
  "(\<forall>s. p = Some s \<longrightarrow> nul_free s) \<Longrightarrow> nul_free d \<Longrightarrow> nul_free (str_or p d)"
  by (auto simp: str_or_def split: option.splits)

end
