(* ===== verification/Logger_Queue.thy ===== *)
theory Logger_Queue
  imports Logger_Record
begin

text \<open>
  The bounded record queue of \<^verbatim>\<open>src/logger_queue.c\<close> and \<^verbatim>\<open>src/logger_queue.h\<close>, one
  definition per function, executed by one thread at a time. Atomic loads, stores and
  read-modify-writes are reads and updates of the queue record; a compare-and-exchange
  succeeds, as it does with no other thread in between (the interleavings are the subject
  of the theories \<open>Logger_Mpsc\<close> and \<open>Logger_Wakeup\<close>). Return codes of the pthread calls and
  what other threads do while a lock is awaited are the arguments of type \<open>queue_env\<close>.
  Sizes are LP64: a slot occupies 1272 bytes, a spill block 4096.
\<close>

section \<open>Layout\<close>

abbreviation LOGGER_QUEUE_INLINE_TEXT :: nat where "LOGGER_QUEUE_INLINE_TEXT \<equiv> 512"
abbreviation LOGGER_QUEUE_SPILL_LIMIT :: nat where "LOGGER_QUEUE_SPILL_LIMIT \<equiv> 1024"
abbreviation LOGGER_QUEUE_SPILL_WORD_BITS :: nat where "LOGGER_QUEUE_SPILL_WORD_BITS \<equiv> 32"
abbreviation LOGGER_QUEUE_SPILL_WORDS :: nat where "LOGGER_QUEUE_SPILL_WORDS \<equiv> 32"
abbreviation LOGGER_QUEUE_SPILL_NONE :: u32 where "LOGGER_QUEUE_SPILL_NONE \<equiv> - 1"
abbreviation SIZEOF_SLOT :: size_t where "SIZEOF_SLOT \<equiv> 1272"
abbreviation SIZEOF_SPILL :: size_t where "SIZEOF_SPILL \<equiv> 4096"

record logger_queue_record =
  r_level :: logger_level_t
  r_ts :: timespec
  r_pid :: int
  r_tid :: int
  r_line :: int
  r_request_id :: "char list"
  r_session_id :: "char list"
  r_trace_id :: "char list"
  r_module_storage :: "char list"
  r_file_storage :: "char list"
  r_function_storage :: "char list"
  r_spill_index :: u32
  r_text_len :: u16
  r_module_len :: u8
  r_file_len :: u8
  r_function_len :: u8
  r_inline_text :: "char list"

record logger_queue_slot =
  s_seq :: size_t
  s_record :: logger_queue_record

record logger_queue =
  q_slots :: "logger_queue_slot list"
  q_cap :: size_t
  q_mask :: size_t
  q_spills :: "char list list"
  q_spill_cap :: size_t
  q_spill_used :: "u32 list"
  q_spill_exhaustions :: u64
  q_storage_bytes :: size_t
  q_enqueue_pos :: size_t
  q_dequeue_pos :: size_t
  q_consumer_waiting :: u32
  q_wait_count :: u64
  q_producer_wake_signals :: u64
  q_force_wake_signals :: u64
  q_wait_mu_error :: errno

section \<open>Construction: capacities and sizes\<close>

text \<open>
  The doubling loop. It starts at 2, so the zero test of the recursion, which makes the
  definition total, never decides anything.
\<close>

function queue_capacity_loop :: "size_t \<Rightarrow> size_t \<Rightarrow> size_t option" where
  "queue_capacity_loop n requested =
     (if n < requested \<and> n \<noteq> 0
      then (if SIZE_MAX div 2 < n then None else queue_capacity_loop (n * 2) requested)
      else Some n)"
  by pat_completeness auto
termination
proof (relation "measure (\<lambda>(n, r). 2 ^ 64 - unat n)")
  fix n r :: size_t
  assume a: "n < r \<and> n \<noteq> 0" and b: "\<not> SIZE_MAX div 2 < n"
  have "unat n \<le> 2 ^ 63 - 1" using b by (simp add: word_less_nat_alt not_less unat_div)
  then have "unat (n * 2) = unat n * 2" using unat_mult_lem [of n 2] by simp
  moreover have "0 < unat n" using a by (simp add: unat_gt_0)
  ultimately show "((n * 2, r), n, r) \<in> measure (\<lambda>(n, r). 2 ^ 64 - unat n)"
    using \<open>unat n \<le> 2 ^ 63 - 1\<close> by simp
qed simp

declare queue_capacity_loop.simps [simp del]

definition queue_capacity :: "size_t \<Rightarrow> errno + size_t" where
  "queue_capacity requested =
     (let req = (if requested < 2 then 2 else requested) in
      case queue_capacity_loop 2 req of
        None \<Rightarrow> Inl EOVERFLOW
      | Some n \<Rightarrow> (if SIZE_MAX div 2 < n \<or> SIZE_MAX div SIZEOF_SLOT < n then Inl EOVERFLOW else Inr n))"

definition queue_spill_capacity :: "size_t \<Rightarrow> size_t" where
  "queue_spill_capacity queue_cap = (if queue_cap < 1024 then queue_cap else 1024)"

definition queue_storage_size :: "size_t \<Rightarrow> size_t \<Rightarrow> errno + size_t" where
  "queue_storage_size queue_cap spill_cap =
     (if SIZE_MAX div SIZEOF_SPILL < spill_cap then Inl (- EOVERFLOW)
      else let spill_bytes = spill_cap * SIZEOF_SPILL in
      if (SIZE_MAX - spill_bytes) div SIZEOF_SLOT < queue_cap then Inl (- EOVERFLOW)
      else Inr (queue_cap * SIZEOF_SLOT + spill_bytes))"

section \<open>Packing a message into a slot\<close>

text \<open>\<^verbatim>\<open>queue_source_copy\<close> is the bounded label copy that also returns the stored length.\<close>

definition queue_source_copy :: "char list \<Rightarrow> nat \<Rightarrow> string \<Rightarrow> char list \<times> u8" where
  "queue_source_copy dst cap src =
     (let n = source_scan 0 cap src;
          dst2 = (memcpy_at dst 0 src n)[n := NUL]
      in (if char_at src n \<noteq> NUL \<and> n \<noteq> 0 then dst2[n - 1 := CHR ''~''] else dst2, of_nat n))"

definition queue_copy_source :: "logger_queue_record \<Rightarrow> logger_message \<Rightarrow> logger_queue_record" where
  "queue_copy_source dst src =
     (let d1 = (if m_metadata_mask src AND LOGGER_RECORD_META_MODULE \<noteq> 0
                then let (st, n) = queue_source_copy (r_module_storage dst) 128 (str_or (m_module src) ''app'')
                     in dst\<lparr>r_module_storage := st, r_module_len := n\<rparr>
                else dst\<lparr>r_module_len := 0, r_module_storage := (r_module_storage dst)[0 := NUL]\<rparr>)
      in if m_metadata_mask src AND LOGGER_RECORD_META_SOURCE \<noteq> 0
         then let (fs, fn) = queue_source_copy (r_file_storage d1) 256 (logger_basename (m_file src));
                  (gs, gn) = queue_source_copy (r_function_storage d1) 128 (str_or (m_func src) ''?'')
              in d1\<lparr>r_file_storage := fs, r_file_len := fn, r_function_storage := gs, r_function_len := gn\<rparr>
         else d1\<lparr>r_file_len := 0, r_function_len := 0,
                 r_file_storage := (r_file_storage d1)[0 := NUL],
                 r_function_storage := (r_function_storage d1)[0 := NUL]\<rparr>)"

definition queue_record_pack ::
  "logger_queue_record \<Rightarrow> logger_message \<Rightarrow> nat \<Rightarrow> u32 \<Rightarrow> logger_queue_record" where
  "queue_record_pack dst src text_len spill_index =
     (let d0 = dst\<lparr>r_level := m_level src, r_ts := m_ts src, r_pid := m_pid src, r_tid := m_tid src,
                   r_line := m_line src\<rparr>;
          d1 = (if m_metadata_mask src AND LOGGER_RECORD_META_CONTEXT \<noteq> 0
                then d0\<lparr>r_request_id := memcpy_at (r_request_id d0) 0 (m_request_id src) 64,
                        r_session_id := memcpy_at (r_session_id d0) 0 (m_session_id src) 64,
                        r_trace_id := memcpy_at (r_trace_id d0) 0 (m_trace_id src) 64\<rparr>
                else d0\<lparr>r_request_id := (r_request_id d0)[0 := NUL],
                        r_session_id := (r_session_id d0)[0 := NUL],
                        r_trace_id := (r_trace_id d0)[0 := NUL]\<rparr>);
          d2 = (queue_copy_source d1 src)\<lparr>r_text_len := of_nat text_len, r_spill_index := spill_index\<rparr>
      in if spill_index = LOGGER_QUEUE_SPILL_NONE
         then d2\<lparr>r_inline_text := memcpy_at (r_inline_text d2) 0 (m_text src) (text_len + 1)\<rparr>
         else d2)"

definition copy_if_set :: "char list \<Rightarrow> char list \<Rightarrow> char list" where
  "copy_if_set dst src = (if src ! 0 \<noteq> NUL then memcpy_at dst 0 src 64 else dst[0 := NUL])"

definition queue_record_unpack ::
  "logger_queue \<Rightarrow> logger_queue_record \<Rightarrow> logger_message \<Rightarrow> logger_message" where
  "queue_record_unpack q src dst =
     (let d1 = dst\<lparr>m_level := r_level src, m_ts := r_ts src, m_pid := r_pid src, m_tid := r_tid src,
                   m_line := r_line src,
                   m_request_id := copy_if_set (m_request_id dst) (r_request_id src),
                   m_session_id := copy_if_set (m_session_id dst) (r_session_id src),
                   m_trace_id := copy_if_set (m_trace_id dst) (r_trace_id src),
                   m_module_storage := memcpy_at (m_module_storage dst) 0 (r_module_storage src)
                                         (unat (r_module_len src) + 1),
                   m_file_storage := memcpy_at (m_file_storage dst) 0 (r_file_storage src)
                                       (unat (r_file_len src) + 1),
                   m_function_storage := memcpy_at (m_function_storage dst) 0 (r_function_storage src)
                                           (unat (r_function_len src) + 1)\<rparr>;
          d2 = logger_record_rebase d1;
          text = (if r_spill_index src = LOGGER_QUEUE_SPILL_NONE then r_inline_text src
                  else q_spills q ! unat (r_spill_index src))
      in d2\<lparr>m_text := memcpy_at (m_text d2) 0 text (unat (r_text_len src) + 1),
            m_text_len := r_text_len src\<rparr>)"

section \<open>The spill pool\<close>

definition spill_valid_mask :: "size_t \<Rightarrow> nat \<Rightarrow> u32" where
  "spill_valid_mask spill_cap word =
     (let first = of_nat word * 32 :: size_t;
          remaining = spill_cap - first
      in if 32 \<le> remaining then - 1 else push_bit (unat remaining) 1 - 1)"

definition spill_words :: "logger_queue \<Rightarrow> nat" where
  "spill_words q = unat ((q_spill_cap q + 31) div 32)"

text \<open>
  The thread-local probe cursor and the address it lives at; \<^verbatim>\<open>start\<close> is where the scan of
  the bitmap begins.
\<close>

record spill_tls =
  tls_address :: size_t
  spill_probe_cursor :: u32

definition spill_start :: "logger_queue \<Rightarrow> spill_tls \<Rightarrow> nat" where
  "spill_start q tls =
     (let seed0 = tls_address tls;
          seed1 = seed0 XOR drop_bit 17 seed0;
          seed2 = seed1 XOR drop_bit 9 seed1
      in unat ((seed2 + ucast (spill_probe_cursor tls)) mod of_nat (spill_words q)))"

text \<open>One word of the bitmap: the lowest free valid bit, or nothing.\<close>

definition spill_pick :: "u32 \<Rightarrow> u32 \<Rightarrow> nat option" where
  "spill_pick used valid =
     (let available = NOT used AND valid in if available = 0 then None else Some (ctz available))"

fun spill_probe :: "logger_queue \<Rightarrow> nat \<Rightarrow> nat list \<Rightarrow> (nat \<times> nat) option" where
  "spill_probe q start [] = None"
| "spill_probe q start (n # ns) =
     (let word = (start + n) mod spill_words q in
      case spill_pick (q_spill_used q ! word) (spill_valid_mask (q_spill_cap q) word) of
        None \<Rightarrow> spill_probe q start ns
      | Some b \<Rightarrow> Some (word, b))"

definition queue_spill_try_take ::
  "logger_queue \<Rightarrow> spill_tls \<Rightarrow> char list \<Rightarrow> nat \<Rightarrow> u32 option \<times> logger_queue \<times> spill_tls" where
  "queue_spill_try_take q tls text text_len =
     (let start = spill_start q tls;
          tls' = tls\<lparr>spill_probe_cursor := spill_probe_cursor tls + 1\<rparr>
      in case spill_probe q start [0..<spill_words q] of
           None \<Rightarrow> (None, q\<lparr>q_spill_exhaustions := q_spill_exhaustions q + 1\<rparr>, tls')
         | Some (word, b) \<Rightarrow>
             let found = word * 32 + b;
                 q1 = q\<lparr>q_spill_used := (q_spill_used q)[word := q_spill_used q ! word OR push_bit b 1]\<rparr>;
                 q2 = q1\<lparr>q_spills := (q_spills q1)[found :=
                            memcpy_at (q_spills q1 ! found) 0 text (text_len + 1)]\<rparr>
             in (Some (of_nat found), q2, tls'))"

definition queue_spill_put :: "logger_queue \<Rightarrow> u32 \<Rightarrow> logger_queue" where
  "queue_spill_put q index =
     (if index = LOGGER_QUEUE_SPILL_NONE then q
      else let word = unat (index div 32); b = unat (index mod 32)
           in q\<lparr>q_spill_used := (q_spill_used q)[word := q_spill_used q ! word AND NOT (push_bit b 1)]\<rparr>)"

definition logger_queue_spill_in_use :: "logger_queue option \<Rightarrow> nat" where
  "logger_queue_spill_in_use qp =
     (case qp of None \<Rightarrow> 0
      | Some q \<Rightarrow>
        let used = sum_list (map (\<lambda>w. popcount (q_spill_used q ! w AND spill_valid_mask (q_spill_cap q) w))
                                 [0..<spill_words q])
        in if used \<le> unat (q_spill_cap q) then used else unat (q_spill_cap q))"

section \<open>Initialisation and destruction\<close>

text \<open>Outcomes of the allocator and of the pthread constructors and destructors.\<close>

record queue_init_env =
  ie_slots :: "errno option"
  ie_spills :: "errno option"
  ie_mutex_init :: errno
  ie_cond_init :: errno
  ie_mutex_destroy :: errno

definition zero_record :: logger_queue_record where
  "zero_record = \<lparr>r_level = 0, r_ts = \<lparr>tv_sec = 0, tv_nsec = 0\<rparr>, r_pid = 0, r_tid = 0, r_line = 0,
     r_request_id = replicate 64 NUL, r_session_id = replicate 64 NUL, r_trace_id = replicate 64 NUL,
     r_module_storage = replicate 128 NUL, r_file_storage = replicate 256 NUL,
     r_function_storage = replicate 128 NUL, r_spill_index = 0, r_text_len = 0, r_module_len = 0,
     r_file_len = 0, r_function_len = 0, r_inline_text = replicate (LOGGER_QUEUE_INLINE_TEXT + 1) NUL\<rparr>"

definition zero_queue :: logger_queue where
  "zero_queue = \<lparr>q_slots = [], q_cap = 0, q_mask = 0, q_spills = [], q_spill_cap = 0,
     q_spill_used = replicate LOGGER_QUEUE_SPILL_WORDS 0, q_spill_exhaustions = 0, q_storage_bytes = 0,
     q_enqueue_pos = 0, q_dequeue_pos = 0, q_consumer_waiting = 0, q_wait_count = 0,
     q_producer_wake_signals = 0, q_force_wake_signals = 0, q_wait_mu_error = 0\<rparr>"

text \<open>Result: 0, or \<open>-1\<close> with the \<^verbatim>\<open>errno\<close> it sets, and the queue object as it is left.\<close>

definition logger_queue_init ::
  "queue_init_env \<Rightarrow> size_t \<Rightarrow> int \<times> errno \<times> logger_queue" where
  "logger_queue_init env requested =
     (case queue_capacity requested of
        Inl e \<Rightarrow> (- 1, e, zero_queue)
      | Inr capacity \<Rightarrow>
        let q1 = zero_queue\<lparr>q_cap := capacity, q_mask := capacity - 1,
                            q_spill_cap := queue_spill_capacity capacity\<rparr>
        in case queue_storage_size capacity (queue_spill_capacity capacity) of
             Inl _ \<Rightarrow> (- 1, EOVERFLOW, q1)
           | Inr storage_bytes \<Rightarrow>
             let q2 = q1\<lparr>q_storage_bytes := storage_bytes\<rparr> in
             case ie_slots env of Some e \<Rightarrow> (- 1, e, q2)
             | None \<Rightarrow> (case ie_spills env of Some e \<Rightarrow> (- 1, e, q2)
               | None \<Rightarrow>
                 if ie_mutex_init env \<noteq> 0 then (- 1, ie_mutex_init env, q2)
                 else if ie_cond_init env \<noteq> 0
                 then (- 1, ie_cond_init env,
                       if ie_mutex_destroy env \<noteq> 0 then q2\<lparr>q_wait_mu_error := ie_mutex_destroy env\<rparr> else q2)
                 else (0, 0, q2\<lparr>q_slots := map (\<lambda>i. \<lparr>s_seq = of_nat i, s_record = zero_record\<rparr>)
                                            [0..<unat capacity],
                                q_spills := replicate (unat (queue_spill_capacity capacity))
                                              (replicate LOGGER_MESSAGE_MAX NUL)\<rparr>)))"

record queue_destroy_env =
  de_cond_destroy :: errno
  de_mutex_destroy :: errno
  de_free_spills :: int
  de_free_slots :: int

definition logger_queue_destroy ::
  "queue_destroy_env \<Rightarrow> logger_queue option \<Rightarrow> int \<times> logger_queue option" where
  "logger_queue_destroy env qp =
     (case qp of None \<Rightarrow> (- EINVAL, None)
      | Some q \<Rightarrow>
        if q_wait_mu_error q \<noteq> 0 then (- q_wait_mu_error q, Some q)
        else if de_cond_destroy env \<noteq> 0 then (- de_cond_destroy env, Some q)
        else if de_mutex_destroy env \<noteq> 0 then (- de_mutex_destroy env, Some q)
        else if de_free_spills env \<noteq> 0 then (de_free_spills env, Some q)
        else if de_free_slots env \<noteq> 0 then (de_free_slots env, Some (q\<lparr>q_spills := []\<rparr>))
        else (0, Some (q\<lparr>q_spills := [], q_slots := []\<rparr>)))"

section \<open>Notification\<close>

text \<open>
  Return codes of the calls on \<^verbatim>\<open>wait_mu\<close> and \<^verbatim>\<open>wait_cv\<close>, and what the other threads did to
  the queue between the probe and the moment the lock was granted.
\<close>

record queue_env =
  qe_lock :: errno
  qe_meanwhile :: "logger_queue \<Rightarrow> logger_queue"
  qe_signal :: errno
  qe_unlock :: errno

definition logger_queue_wait_arm_recheck :: "logger_queue \<Rightarrow> logger_queue" where
  "logger_queue_wait_arm_recheck q = q\<lparr>q_consumer_waiting := 1\<rparr>"

definition logger_queue_wait_probe_after_publish :: "logger_queue \<Rightarrow> bool" where
  "logger_queue_wait_probe_after_publish q = (q_consumer_waiting q OR 0 \<noteq> 0)"

definition logger_queue_wait_claim_signal :: "logger_queue \<Rightarrow> bool \<times> logger_queue" where
  "logger_queue_wait_claim_signal q = (q_consumer_waiting q \<noteq> 0, q\<lparr>q_consumer_waiting := 0\<rparr>)"

definition logger_queue_wait_disarm :: "logger_queue \<Rightarrow> logger_queue" where
  "logger_queue_wait_disarm q = q\<lparr>q_consumer_waiting := 0\<rparr>"

definition note_unlock :: "logger_queue \<Rightarrow> errno \<Rightarrow> logger_queue" where
  "note_unlock q rc = (if rc \<noteq> 0 then q\<lparr>q_wait_mu_error := rc\<rparr> else q)"

definition logger_queue_notify_if_waiting :: "queue_env \<Rightarrow> logger_queue \<Rightarrow> int \<times> logger_queue" where
  "logger_queue_notify_if_waiting env q =
     (if \<not> logger_queue_wait_probe_after_publish q then (0, q)
      else if qe_lock env \<noteq> 0 then (- qe_lock env, qe_meanwhile env q)
      else case logger_queue_wait_claim_signal (qe_meanwhile env q) of (claimed, q1) \<Rightarrow>
        if \<not> claimed then (- qe_unlock env, note_unlock q1 (qe_unlock env))
        else let rc = - qe_signal env;
                 q2 = (if qe_signal env = 0
                       then q1\<lparr>q_producer_wake_signals := q_producer_wake_signals q1 + 1\<rparr> else q1)
             in (first_rc rc (- qe_unlock env), note_unlock q2 (qe_unlock env)))"

definition logger_queue_wake_force :: "queue_env \<Rightarrow> logger_queue \<Rightarrow> int \<times> logger_queue" where
  "logger_queue_wake_force env q =
     (if qe_lock env \<noteq> 0 then (- qe_lock env, qe_meanwhile env q)
      else let q1 = logger_queue_wait_disarm (qe_meanwhile env q);
               rc = - qe_signal env;
               q2 = (if qe_signal env = 0
                     then q1\<lparr>q_force_wake_signals := q_force_wake_signals q1 + 1\<rparr> else q1)
           in (first_rc rc (- qe_unlock env), note_unlock q2 (qe_unlock env)))"

definition logger_queue_wait_error :: "logger_queue \<Rightarrow> errno" where
  "logger_queue_wait_error q = q_wait_mu_error q"

section \<open>Push, pop, drain and the observers\<close>

definition slot_index :: "logger_queue \<Rightarrow> size_t \<Rightarrow> nat" where
  "slot_index q pos = unat (pos AND q_mask q)"

definition slot_seq :: "logger_queue \<Rightarrow> size_t \<Rightarrow> size_t" where
  "slot_seq q pos = s_seq (q_slots q ! slot_index q pos)"

definition upd_slot :: "logger_queue \<Rightarrow> size_t \<Rightarrow> (logger_queue_slot \<Rightarrow> logger_queue_slot) \<Rightarrow> logger_queue" where
  "upd_slot q pos f = q\<lparr>q_slots := (q_slots q)[slot_index q pos := f (q_slots q ! slot_index q pos)]\<rparr>"

text \<open>
  The body of the reservation loop once the position is free: advance the counter, write
  the record, publish it through the slot's sequence number.
\<close>

definition push_publish :: "logger_queue \<Rightarrow> size_t \<Rightarrow> logger_message \<Rightarrow> nat \<Rightarrow> u32 \<Rightarrow> logger_queue" where
  "push_publish q pos m text_len spill_index =
     (let q1 = q\<lparr>q_enqueue_pos := pos + 1\<rparr>;
          q2 = upd_slot q1 pos (\<lambda>s. s\<lparr>s_record := queue_record_pack (s_record s) m text_len spill_index\<rparr>)
      in upd_slot q2 pos (\<lambda>s. s\<lparr>s_seq := pos + 1\<rparr>))"

text \<open>
  The reservation loop of \<^verbatim>\<open>logger_queue_push\<close> with no other thread in between. The result is
  \<^const>\<open>None\<close> when the loop would re-read the position for ever: the slot of the current
  position is neither free nor full.
\<close>

definition queue_reserve ::
  "queue_env \<Rightarrow> spill_tls \<Rightarrow> logger_queue \<Rightarrow> logger_message \<Rightarrow> nat \<Rightarrow> u32 \<Rightarrow> (int \<times> logger_queue \<times> spill_tls) option" where
  "queue_reserve env tls q m text_len spill_index =
     (let pos = q_enqueue_pos q; diff = slot_seq q pos - pos in
      if diff = 0
      then case logger_queue_notify_if_waiting env (push_publish q pos m text_len spill_index) of
             (notify_rc, q2) \<Rightarrow> Some (if notify_rc \<noteq> 0 then notify_rc else 1, q2, tls)
      else if SIZE_MAX div 2 < diff then Some (0, queue_spill_put q spill_index, tls)
      else None)"

definition logger_queue_push ::
  "queue_env \<Rightarrow> spill_tls \<Rightarrow> logger_queue \<Rightarrow> logger_message \<Rightarrow> (int \<times> logger_queue \<times> spill_tls) option" where
  "logger_queue_push env tls q m =
     (let text_len = logger_record_text_length m in
      if text_len = LOGGER_MESSAGE_MAX then Some (0, q, tls)
      else case (if LOGGER_QUEUE_INLINE_TEXT < text_len
                 then queue_spill_try_take q tls (m_text m) text_len
                 else (Some LOGGER_QUEUE_SPILL_NONE, q, tls)) of
        (None, q1, tls1) \<Rightarrow> Some (0, q1, tls1)
      | (Some spill_index, q1, tls1) \<Rightarrow> queue_reserve env tls1 q1 m text_len spill_index)"

definition logger_queue_try_pop ::
  "logger_queue \<Rightarrow> logger_message \<Rightarrow> int \<times> logger_queue \<times> logger_message" where
  "logger_queue_try_pop q m =
     (let pos = q_dequeue_pos q in
      if slot_seq q pos \<noteq> pos + 1 then (0, q, m)
      else let r = s_record (q_slots q ! slot_index q pos);
               m' = queue_record_unpack q r m;
               q1 = queue_spill_put q (r_spill_index r);
               q2 = upd_slot q1 pos (\<lambda>s. s\<lparr>s_seq := pos + q_cap q1\<rparr>)
           in (1, q2\<lparr>q_dequeue_pos := pos + 1\<rparr>, m'))"

text \<open>\<^verbatim>\<open>logger_queue_drain\<close> fills a batch array; the messages it delivered are the result.\<close>

fun logger_queue_drain :: "logger_queue \<Rightarrow> logger_message list \<Rightarrow> logger_queue \<times> logger_message list" where
  "logger_queue_drain q [] = (q, [])"
| "logger_queue_drain q (m # ms) =
     (case logger_queue_try_pop q m of (rc, q', m') \<Rightarrow>
        if rc = 0 then (q', [])
        else case logger_queue_drain q' ms of (q'', out) \<Rightarrow> (q'', m' # out))"

definition logger_queue_empty :: "logger_queue \<Rightarrow> bool" where
  "logger_queue_empty q = (slot_seq q (q_dequeue_pos q) \<noteq> q_dequeue_pos q + 1)"

definition logger_queue_depth :: "logger_queue \<Rightarrow> size_t" where
  "logger_queue_depth q =
     (let depth = q_enqueue_pos q - q_dequeue_pos q in if depth < q_cap q then depth else q_cap q)"

definition logger_queue_storage_bytes :: "logger_queue option \<Rightarrow> size_t" where
  "logger_queue_storage_bytes qp = (case qp of None \<Rightarrow> 0 | Some q \<Rightarrow> q_storage_bytes q)"

definition logger_queue_spill_capacity :: "logger_queue option \<Rightarrow> size_t" where
  "logger_queue_spill_capacity qp = (case qp of None \<Rightarrow> 0 | Some q \<Rightarrow> q_spill_cap q)"

definition logger_queue_spill_storage_bytes :: "logger_queue option \<Rightarrow> size_t" where
  "logger_queue_spill_storage_bytes qp = (case qp of None \<Rightarrow> 0 | Some q \<Rightarrow> q_spill_cap q * SIZEOF_SPILL)"

definition logger_queue_spill_exhaustions :: "logger_queue option \<Rightarrow> u64" where
  "logger_queue_spill_exhaustions qp = (case qp of None \<Rightarrow> 0 | Some q \<Rightarrow> q_spill_exhaustions q)"

definition logger_queue_wait_count :: "logger_queue option \<Rightarrow> u64" where
  "logger_queue_wait_count qp = (case qp of None \<Rightarrow> 0 | Some q \<Rightarrow> q_wait_count q)"

definition logger_queue_producer_wake_signals :: "logger_queue option \<Rightarrow> u64" where
  "logger_queue_producer_wake_signals qp = (case qp of None \<Rightarrow> 0 | Some q \<Rightarrow> q_producer_wake_signals q)"

definition logger_queue_force_wake_signals :: "logger_queue option \<Rightarrow> u64" where
  "logger_queue_force_wake_signals qp = (case qp of None \<Rightarrow> 0 | Some q \<Rightarrow> q_force_wake_signals q)"

end
