(* ===== verification/Logger_Queue_Size.thy ===== *)
theory Logger_Queue_Size
  imports Logger_Queue
begin

text \<open>
  Capacities and sizes of the queue: the power of two the constructor settles on, the
  overflow guards, and the slot index as the position modulo the capacity. The positions
  are machine words that wrap around; every capacity divides the word range, so indices
  stay in step with the wrapped counters.
\<close>

section \<open>The capacity loop\<close>

lemma SIZE_MAX_half: "unat (SIZE_MAX div 2 :: size_t) = 2 ^ 63 - 1"
  by (simp add: unat_div)

lemma half_less_iff: "(SIZE_MAX div 2 < n) \<longleftrightarrow> 2 ^ 63 \<le> unat n" for n :: size_t
  unfolding word_less_nat_alt SIZE_MAX_half by auto

lemma unat_double: "unat n < 2 ^ 63 \<Longrightarrow> unat (n * 2) = 2 * unat n" for n :: size_t
  using unat_mult_lem [of n 2] by simp

lemma queue_capacity_loop_Some:
  assumes "queue_capacity_loop n req = Some m" and "unat n = 2 ^ k"
  shows "\<exists>j\<ge>k. unat m = 2 ^ j \<and> req \<le> m \<and> (m = n \<or> unat m < 2 * unat req)"
  using assms
proof (induction n req arbitrary: k rule: queue_capacity_loop.induct)
  case (1 n req)
  have n0: "n \<noteq> 0" using "1.prems"(2) by auto
  show ?case
  proof (cases "n < req")
    case False
    then have "m = n" using "1.prems"(1) n0 by (simp add: queue_capacity_loop.simps [of n req])
    then show ?thesis using False "1.prems"(2) by auto
  next
    case True
    then have g: "\<not> SIZE_MAX div 2 < n"
      and r: "queue_capacity_loop (n * 2) req = Some m"
      using "1.prems"(1) n0 by (auto simp: queue_capacity_loop.simps [of n req] split: if_splits)
    have d: "unat (n * 2) = 2 ^ Suc k"
      using g "1.prems"(2) unfolding half_less_iff by (simp add: unat_double)
    obtain j where j: "j \<ge> Suc k" "unat m = 2 ^ j" "req \<le> m" "m = n * 2 \<or> unat m < 2 * unat req"
      using "1.IH" [of "Suc k"] True n0 g r d by auto
    moreover have "unat m < 2 * unat req" if "m = n * 2"
      using that d "1.prems"(2) True by (simp add: word_less_nat_alt)
    ultimately show ?thesis by (auto intro: exI [of _ j])
  qed
qed

lemma queue_capacity_loop_total:
  assumes "unat req \<le> 2 ^ 63" and "unat n = 2 ^ k"
  shows "\<exists>m. queue_capacity_loop n req = Some m"
  using assms
proof (induction n req arbitrary: k rule: queue_capacity_loop.induct)
  case (1 n req)
  have n0: "n \<noteq> 0" using "1.prems"(2) by auto
  show ?case
  proof (cases "n < req")
    case False
    then show ?thesis by (simp add: queue_capacity_loop.simps [of n req])
  next
    case True
    then have lt: "unat n < 2 ^ 63" using "1.prems"(1) by (simp add: word_less_nat_alt)
    then have g: "\<not> SIZE_MAX div 2 < n" unfolding half_less_iff by simp
    have "unat (n * 2) = 2 ^ Suc k" using lt "1.prems"(2) by (simp add: unat_double)
    then show ?thesis
      using "1.IH" [of "Suc k"] True n0 g "1.prems"(1) by (simp add: queue_capacity_loop.simps [of n req])
  qed
qed

text \<open>The largest capacity whose slots fit the address space is \<open>2 ^ 53\<close>.\<close>

lemma slot_guard_iff:
  "unat n = 2 ^ k \<Longrightarrow> (SIZE_MAX div 2 < n \<or> SIZE_MAX div SIZEOF_SLOT < n) \<longleftrightarrow> 53 < k" for n :: size_t
proof -
  assume n: "unat n = 2 ^ k"
  have s: "unat (SIZE_MAX div SIZEOF_SLOT :: size_t) = 14502157290652163" by (simp add: unat_div)
  have "(14502157290652163 < (2::nat) ^ k) \<longleftrightarrow> 53 < k"
  proof
    assume "(14502157290652163::nat) < 2 ^ k"
    then have "(2::nat) ^ 53 < 2 ^ k" by (rule order.strict_trans1 [rotated]) simp
    then show "53 < k" by (rule power_less_imp_less_exp [rotated]) simp
  next
    assume "53 < k"
    then have "(2::nat) ^ 54 \<le> 2 ^ k" by (intro power_increasing) auto
    then show "(14502157290652163::nat) < 2 ^ k" by (rule order.strict_trans2 [rotated]) simp
  qed
  moreover have "53 < k" if "(2::nat) ^ 63 \<le> 2 ^ k"
    using power_le_imp_le_exp [OF _ that] by simp
  moreover have "(SIZE_MAX div SIZEOF_SLOT < n) \<longleftrightarrow> 14502157290652163 < (2::nat) ^ k"
    unfolding word_less_nat_alt s n ..
  ultimately show ?thesis unfolding half_less_iff n by blast
qed

theorem queue_capacity_Inr:
  assumes "queue_capacity requested = Inr n"
  shows "\<exists>k. 1 \<le> k \<and> k \<le> 53 \<and> unat n = 2 ^ k \<and> max 2 (unat requested) \<le> unat n \<and>
             unat n < 2 * max 2 (unat requested)"
proof -
  let ?req = "if requested < 2 then 2 else requested"
  have mx: "unat ?req = max 2 (unat requested)" by (auto simp: word_less_nat_alt)
  obtain m where m: "queue_capacity_loop 2 ?req = Some m"
    using assms unfolding queue_capacity_def Let_def by (cases "queue_capacity_loop 2 ?req") auto
  have u: "(if SIZE_MAX div 2 < m \<or> SIZE_MAX div SIZEOF_SLOT < m then Inl EOVERFLOW else Inr m) = Inr n"
    using assms unfolding queue_capacity_def Let_def m option.case .
  have g: "\<not> (SIZE_MAX div 2 < m \<or> SIZE_MAX div SIZEOF_SLOT < m)"
  proof
    assume "SIZE_MAX div 2 < m \<or> SIZE_MAX div SIZEOF_SLOT < m"
    with u show False by (simp only: if_True sum.distinct)
  qed
  then have "n = m" using u by (simp only: if_False sum.inject)
  obtain j where j: "1 \<le> j" "unat m = 2 ^ j" "?req \<le> m" "m = 2 \<or> unat m < 2 * unat ?req"
    using queue_capacity_loop_Some [OF m, of 1] by auto
  have "j \<le> 53" using slot_guard_iff [OF j(2)] g by simp
  moreover have "unat ?req \<le> unat m" using j(3) by (simp add: word_le_nat_alt)
  moreover have "unat m < 2 * unat ?req" using j(4) mx by auto
  ultimately show ?thesis using j(1,2) mx \<open>n = m\<close> by (auto intro!: exI [of _ j])
qed

theorem queue_capacity_ok_iff:
  "(\<exists>n. queue_capacity requested = Inr n) \<longleftrightarrow> unat requested \<le> 2 ^ 53"
proof
  assume "\<exists>n. queue_capacity requested = Inr n"
  then obtain n where "queue_capacity requested = Inr n" by blast
  from queue_capacity_Inr [OF this]
  obtain k where k: "k \<le> 53" "unat n = 2 ^ k" "max 2 (unat requested) \<le> unat n" by blast
  have "(2::nat) ^ k \<le> 2 ^ 53" by (rule power_increasing [OF k(1)]) simp
  then show "unat requested \<le> 2 ^ 53" using k(2,3) by linarith
next
  let ?req = "if requested < 2 then 2 else requested"
  assume r: "unat requested \<le> 2 ^ 53"
  have mx: "unat ?req = max 2 (unat requested)" by (auto simp: word_less_nat_alt)
  obtain m where m: "queue_capacity_loop 2 ?req = Some m"
    using queue_capacity_loop_total [of ?req 2 1] r mx by auto
  obtain j where j: "unat m = 2 ^ j" "m = 2 \<or> unat m < 2 * unat ?req"
    using queue_capacity_loop_Some [OF m, of 1] by auto
  have "unat m < 2 ^ 54" using j(2) mx r by auto
  then have "j < 54" unfolding j(1) by (rule power_less_imp_less_exp [rotated]) simp
  then have "\<not> (SIZE_MAX div 2 < m \<or> SIZE_MAX div SIZEOF_SLOT < m)"
    using slot_guard_iff [OF j(1)] by simp
  then show "\<exists>n. queue_capacity requested = Inr n"
    unfolding queue_capacity_def Let_def m option.case by (simp only: if_False) blast
qed

section \<open>Storage size\<close>

lemma unat_spill_capacity: "unat (queue_spill_capacity c) = min (unat c) 1024"
  by (auto simp: queue_spill_capacity_def word_less_nat_alt)

theorem queue_storage_size_exact:
  assumes "unat spill_cap \<le> 1024" and "unat queue_cap \<le> 2 ^ 53"
  shows "\<exists>total. queue_storage_size queue_cap spill_cap = Inr total \<and>
           unat total = unat queue_cap * 1272 + unat spill_cap * 4096"
proof -
  have g1: "\<not> SIZE_MAX div SIZEOF_SPILL < spill_cap"
    using assms(1) by (simp add: word_less_nat_alt unat_div)
  have b: "unat (spill_cap * SIZEOF_SPILL) = unat spill_cap * 4096"
    using assms(1) unat_mult_lem [of spill_cap SIZEOF_SPILL] by simp
  have c: "unat (queue_cap * SIZEOF_SLOT) = unat queue_cap * 1272"
    using assms(2) unat_mult_lem [of queue_cap SIZEOF_SLOT] by simp
  have s: "unat (SIZE_MAX - spill_cap * SIZEOF_SPILL) = 2 ^ 64 - 1 - unat spill_cap * 4096"
    using b unat_sub [of "spill_cap * SIZEOF_SPILL" SIZE_MAX] by (simp add: unat_minus_one_word)
  have g2: "\<not> (SIZE_MAX - spill_cap * SIZEOF_SPILL) div SIZEOF_SLOT < queue_cap"
    using assms s by (simp add: word_less_nat_alt unat_div not_less less_eq_div_iff_mult_less_eq)
  have "unat (queue_cap * SIZEOF_SLOT + spill_cap * SIZEOF_SPILL) = unat queue_cap * 1272 + unat spill_cap * 4096"
    using assms b c unat_add_lem [of "queue_cap * SIZEOF_SLOT" "spill_cap * SIZEOF_SPILL"] by simp
  then show ?thesis using g1 g2 by (simp add: queue_storage_size_def Let_def)
qed

section \<open>Positions and slots\<close>

text \<open>A queue whose capacity is a power of two with its mask below it.\<close>

definition ring_shape :: "logger_queue \<Rightarrow> bool" where
  "ring_shape q \<longleftrightarrow>
     (\<exists>k. 1 \<le> k \<and> k \<le> 53 \<and> q_cap q = 2 ^ k) \<and> q_mask q = q_cap q - 1 \<and>
     length (q_slots q) = unat (q_cap q)"

lemma unat_pow2: "k < 64 \<Longrightarrow> unat (2 ^ k :: size_t) = 2 ^ k"
proof -
  assume "k < 64"
  then have "(2::nat) ^ k < 2 ^ 64" by (rule power_strict_increasing) simp
  then show ?thesis using unat_of_nat [of "2 ^ k", where 'a = 64] by simp
qed

lemma pow2_word_eq: "unat (n :: size_t) = 2 ^ k \<Longrightarrow> n = 2 ^ k"
proof -
  assume "unat n = 2 ^ k"
  then have "(of_nat (unat n) :: size_t) = of_nat (2 ^ k)" by simp
  then show ?thesis by simp
qed

lemma ring_shape_cap:
  assumes "ring_shape q"
  obtains k where "1 \<le> k" "k \<le> 53" "unat (q_cap q) = 2 ^ k" "q_mask q = mask k"
proof -
  obtain k where k: "1 \<le> k" "k \<le> 53" "q_cap q = 2 ^ k" "q_mask q = q_cap q - 1"
    using assms by (auto simp: ring_shape_def)
  then have "unat (q_cap q) = 2 ^ k" by (simp add: unat_pow2)
  moreover have "q_mask q = mask k" using k by (simp add: mask_eq_exp_minus_1)
  ultimately show ?thesis using that k by blast
qed

lemma slot_index_mod:
  assumes "ring_shape q"
  shows "slot_index q pos = unat pos mod unat (q_cap q)"
proof -
  obtain k where k: "k \<le> 53" "unat (q_cap q) = 2 ^ k" "q_mask q = mask k"
    using ring_shape_cap [OF assms] by blast
  have "pos AND mask k = take_bit k pos" by (simp add: take_bit_eq_mask)
  then have "slot_index q pos = take_bit k (unat pos)"
    using k by (simp add: slot_index_def unsigned_take_bit_eq)
  then show ?thesis using k by (simp add: take_bit_eq_mod)
qed

lemma slot_index_bound: "ring_shape q \<Longrightarrow> slot_index q pos < length (q_slots q)"
  by (metis mod_less_divisor ring_shape_cap ring_shape_def slot_index_mod zero_less_numeral zero_less_power)

lemma slot_index_offset:
  assumes "ring_shape q"
  shows "slot_index q (pos + of_nat i) = (unat pos + i) mod unat (q_cap q)"
proof -
  obtain k where k: "k \<le> 53" "unat (q_cap q) = 2 ^ k" using ring_shape_cap [OF assms] by blast
  have "unat (pos + of_nat i) = (unat pos + i) mod 2 ^ 64"
    by (simp add: unat_word_ariths unat_of_nat mod_add_right_eq)
  moreover have "(2::nat) ^ k dvd 2 ^ 64" using k by (intro le_imp_power_dvd) simp
  ultimately show ?thesis using k by (simp add: slot_index_mod [OF assms] mod_mod_cancel)
qed

lemma slot_index_inj:
  assumes "ring_shape q" "i < unat (q_cap q)" "j < unat (q_cap q)"
    and "slot_index q (pos + of_nat i) = slot_index q (pos + of_nat j)"
  shows "i = j"
proof -
  let ?c = "unat (q_cap q)"
  have "(unat pos + i) mod ?c = (unat pos + j) mod ?c"
    using assms(4) by (simp add: slot_index_offset [OF assms(1)])
  then have "i mod ?c = j mod ?c" by (simp add: nat_mod_eq_iff)
  then show ?thesis using assms(2,3) by simp
qed

lemma slot_index_wrap:
  "ring_shape q \<Longrightarrow> slot_index q (pos + of_nat i + q_cap q) = slot_index q (pos + of_nat i)"
proof -
  assume r: "ring_shape q"
  have "pos + of_nat i + q_cap q = pos + of_nat (i + unat (q_cap q))" by simp
  then show ?thesis by (simp only: slot_index_offset [OF r]) (simp add: add.assoc [symmetric])
qed

end
