(* ===== verification/Logger_Queue_Record.thy ===== *)
theory Logger_Queue_Record
  imports Logger_Queue_Size
begin

text \<open>
  What a queued record means. \<open>rec_view\<close> reads a packed slot record, \<open>message_view\<close> the
  message the consumer receives, and \<open>queued_view\<close> is what a message must look like after
  a trip through the queue: its numeric fields, its text, and the metadata its capture
  mask selected, labels shortened with a tilde when they exceed their storage. Packing then
  unpacking is the identity on this view, for inline and for spilled texts.
\<close>

record msg_view =
  v_level :: logger_level_t
  v_ts :: timespec
  v_pid :: int
  v_tid :: int
  v_line :: int
  v_request :: string
  v_session :: string
  v_trace :: string
  v_module :: string
  v_file :: string
  v_func :: string
  v_text :: "char list"

definition message_view :: "logger_message \<Rightarrow> msg_view" where
  "message_view m = \<lparr>v_level = m_level m, v_ts = m_ts m, v_pid = m_pid m, v_tid = m_tid m,
     v_line = m_line m, v_request = cstr (m_request_id m), v_session = cstr (m_session_id m),
     v_trace = cstr (m_trace_id m), v_module = str_or (m_module m) [], v_file = str_or (m_file m) [],
     v_func = str_or (m_func m) [], v_text = take (unat (m_text_len m)) (m_text m)\<rparr>"

definition record_text :: "logger_queue \<Rightarrow> logger_queue_record \<Rightarrow> char list" where
  "record_text q r = (if r_spill_index r = LOGGER_QUEUE_SPILL_NONE then r_inline_text r
                      else q_spills q ! unat (r_spill_index r))"

definition rec_view :: "logger_queue \<Rightarrow> logger_queue_record \<Rightarrow> msg_view" where
  "rec_view q r = \<lparr>v_level = r_level r, v_ts = r_ts r, v_pid = r_pid r, v_tid = r_tid r,
     v_line = r_line r, v_request = cstr (r_request_id r), v_session = cstr (r_session_id r),
     v_trace = cstr (r_trace_id r), v_module = cstr (r_module_storage r), v_file = cstr (r_file_storage r),
     v_func = cstr (r_function_storage r), v_text = take (unat (r_text_len r)) (record_text q r)\<rparr>"

definition queued_view :: "logger_message \<Rightarrow> msg_view" where
  "queued_view m =
     (let ctx = m_metadata_mask m AND LOGGER_RECORD_META_CONTEXT \<noteq> 0;
          md = m_metadata_mask m AND LOGGER_RECORD_META_MODULE \<noteq> 0;
          src = m_metadata_mask m AND LOGGER_RECORD_META_SOURCE \<noteq> 0
      in \<lparr>v_level = m_level m, v_ts = m_ts m, v_pid = m_pid m, v_tid = m_tid m, v_line = m_line m,
          v_request = (if ctx then cstr (m_request_id m) else []),
          v_session = (if ctx then cstr (m_session_id m) else []),
          v_trace = (if ctx then cstr (m_trace_id m) else []),
          v_module = (if md then short_label 128 (str_or (m_module m) ''app'') else []),
          v_file = (if src then short_label 256 (logger_basename (m_file m)) else []),
          v_func = (if src then short_label 128 (str_or (m_func m) ''?'') else []),
          v_text = take (logger_record_text_length m) (m_text m)\<rparr>)"

section \<open>Well-formed slot records\<close>

definition record_shape :: "logger_queue_record \<Rightarrow> bool" where
  "record_shape r \<longleftrightarrow>
     length (r_request_id r) = 64 \<and> length (r_session_id r) = 64 \<and> length (r_trace_id r) = 64 \<and>
     length (r_module_storage r) = 128 \<and> length (r_file_storage r) = 256 \<and>
     length (r_function_storage r) = 128 \<and> length (r_inline_text r) = LOGGER_QUEUE_INLINE_TEXT + 1"

text \<open>A label is stored with its length, which leaves room for the terminator.\<close>

definition label_ok :: "char list \<Rightarrow> u8 \<Rightarrow> bool" where
  "label_ok st n \<longleftrightarrow> length (cstr st) = unat n \<and> unat n < length st"

definition record_wf :: "logger_queue_record \<Rightarrow> bool" where
  "record_wf r \<longleftrightarrow> record_shape r \<and> label_ok (r_module_storage r) (r_module_len r) \<and>
     label_ok (r_file_storage r) (r_file_len r) \<and> label_ok (r_function_storage r) (r_function_len r) \<and>
     unat (r_text_len r) < LOGGER_MESSAGE_MAX \<and>
     (r_spill_index r = LOGGER_QUEUE_SPILL_NONE \<longrightarrow> unat (r_text_len r) \<le> LOGGER_QUEUE_INLINE_TEXT)"

text \<open>The pointers of a message, where they are not null, are C strings.\<close>

definition labels_ok :: "logger_message \<Rightarrow> bool" where
  "labels_ok m \<longleftrightarrow> list_all (\<lambda>p. case p of None \<Rightarrow> True | Some s \<Rightarrow> nul_free s) [m_module m, m_file m, m_func m]"

lemma labels_okD:
  assumes "labels_ok m"
  shows "nul_free (str_or (m_module m) ''app'')" "nul_free (logger_basename (m_file m))"
    "nul_free (str_or (m_func m) ''?'')"
  using assms
  by (auto simp: labels_ok_def intro!: nul_free_str_or nul_free_basename split: option.splits)
     (simp_all add: nul_free_def)

section \<open>Copies keep the C string\<close>

lemma cstr_first_NUL: "xs \<noteq> [] \<Longrightarrow> cstr (xs[0 := NUL]) = []"
  by (cases xs) simp_all

lemma cstr_copy_if_set:
  assumes "length dst = 64" "length src = 64"
  shows "cstr (copy_if_set dst src) = cstr src"
proof (cases "src ! 0 = NUL")
  case True
  then have "cstr src = []" using assms by (cases src) auto
  moreover have "cstr (dst[0 := NUL]) = []" using assms by (intro cstr_first_NUL) auto
  ultimately show ?thesis using True by (simp add: copy_if_set_def)
next
  case False
  then show ?thesis using assms by (simp add: copy_if_set_def)
qed

lemma cstr_split:
  assumes "length (cstr xs) < length xs"
  shows "take (Suc (length (cstr xs))) xs = cstr xs @ [NUL]"
proof -
  have "xs ! length (cstr xs) = NUL"
    using nth_length_takeWhile [of "\<lambda>c. c \<noteq> NUL" xs] assms by (simp add: cstr_def)
  moreover have "take (length (cstr xs)) xs = cstr xs"
    unfolding cstr_def by (simp add: takeWhile_eq_take [symmetric])
  ultimately show ?thesis using assms by (simp add: take_Suc_conv_app_nth)
qed

lemma cstr_label_copy:
  assumes "label_ok src n" and "length dst = length src"
  shows "cstr (memcpy_at dst 0 src (unat n + 1)) = cstr src"
proof -
  have n: "length (cstr src) = unat n" "unat n < length src" using assms(1) by (auto simp: label_ok_def)
  have "take (Suc (unat n)) (memcpy_at dst 0 src (Suc (unat n))) = cstr src @ [NUL]"
    using n assms(2) cstr_split [of src] take_memcpy_at [of 0 "Suc (unat n)" dst src] by simp
  then show ?thesis using cstr_prefix_determines by simp
qed

lemma take_memcpy_prefix:
  "n + 1 \<le> length dst \<Longrightarrow> n + 1 \<le> length src \<Longrightarrow> take n (memcpy_at dst 0 src (n + 1)) = take n src"
  by (simp add: memcpy_at_def)

section \<open>Unpacking reads the record's view\<close>

definition text_fits :: "logger_queue \<Rightarrow> logger_queue_record \<Rightarrow> bool" where
  "text_fits q r \<longleftrightarrow> unat (r_text_len r) + 1 \<le> length (record_text q r)"

lemma unpack_view:
  assumes r: "record_wf r" and fits: "text_fits q r" and out: "message_wf out"
  shows "message_view (queue_record_unpack q r out) = rec_view q r"
proof -
  let ?n = "unat (r_text_len r)"
  let ?u = "queue_record_unpack q r out"
  have arr: "length (r_request_id r) = 64" "length (r_session_id r) = 64" "length (r_trace_id r) = 64"
    "length (r_module_storage r) = 128" "length (r_file_storage r) = 256"
    "length (r_function_storage r) = 128" "?n < LOGGER_MESSAGE_MAX"
    using r by (auto simp: record_wf_def record_shape_def)
  have lab: "label_ok (r_module_storage r) (r_module_len r)" "label_ok (r_file_storage r) (r_file_len r)"
    "label_ok (r_function_storage r) (r_function_len r)"
    using r by (auto simp: record_wf_def)
  have o: "length (m_request_id out) = 64" "length (m_session_id out) = 64" "length (m_trace_id out) = 64"
    "length (m_text out) = LOGGER_MESSAGE_MAX" "length (m_module_storage out) = 128"
    "length (m_file_storage out) = 256" "length (m_function_storage out) = 128"
    using out by (auto simp: message_wf_def)
  have tx: "m_text ?u = memcpy_at (m_text out) 0 (record_text q r) (?n + 1)" "m_text_len ?u = r_text_len r"
    by (simp_all add: queue_record_unpack_def logger_record_rebase_def Let_def record_text_def)
  have "take ?n (m_text ?u) = take ?n (record_text q r)"
    unfolding tx using fits arr o by (intro take_memcpy_prefix) (simp_all add: text_fits_def)
  moreover have "cstr (m_request_id ?u) = cstr (r_request_id r)" "cstr (m_session_id ?u) = cstr (r_session_id r)"
    "cstr (m_trace_id ?u) = cstr (r_trace_id r)"
    using arr o by (simp_all add: queue_record_unpack_def logger_record_rebase_def Let_def cstr_copy_if_set)
  moreover have "m_module ?u = Some (cstr (r_module_storage r))" "m_file ?u = Some (cstr (r_file_storage r))"
    "m_func ?u = Some (cstr (r_function_storage r))"
    using cstr_label_copy [OF lab(1), of "m_module_storage out"] cstr_label_copy [OF lab(2), of "m_file_storage out"]
      cstr_label_copy [OF lab(3), of "m_function_storage out"] arr o
    by (simp_all add: queue_record_unpack_def logger_record_rebase_def Let_def)
  moreover have "m_level ?u = r_level r" "m_ts ?u = r_ts r" "m_pid ?u = r_pid r" "m_tid ?u = r_tid r"
    "m_line ?u = r_line r"
    by (simp_all add: queue_record_unpack_def logger_record_rebase_def Let_def)
  ultimately show ?thesis by (simp add: message_view_def rec_view_def tx str_or_def)
qed

lemma unpack_message_wf:
  assumes "record_wf r" "text_fits q r" "message_wf out"
  shows "message_wf (queue_record_unpack q r out)"
  using assms
  by (simp add: message_wf_def record_wf_def record_shape_def label_ok_def text_fits_def
      queue_record_unpack_def logger_record_rebase_def Let_def copy_if_set_def record_text_def)

section \<open>Packing writes the queued view\<close>

lemma queue_source_copy_eq:
  "queue_source_copy dst cap src = (logger_source_copy dst cap src, of_nat (source_scan 0 cap src))"
  by (simp add: queue_source_copy_def logger_source_copy_def Let_def)

lemma queue_source_copy_label:
  assumes "length dst = cap" "2 \<le> cap" "cap \<le> 256" "nul_free src"
  shows "cstr (fst (queue_source_copy dst cap src)) = short_label cap src"
    and "label_ok (fst (queue_source_copy dst cap src)) (snd (queue_source_copy dst cap src))"
    and "length (fst (queue_source_copy dst cap src)) = cap"
proof -
  let ?n = "min (length src) (cap - 1)"
  show c: "cstr (fst (queue_source_copy dst cap src)) = short_label cap src"
    using assms by (simp add: queue_source_copy_eq cstr_source_copy)
  show l: "length (fst (queue_source_copy dst cap src)) = cap"
    using assms by (simp add: queue_source_copy_eq)
  have "snd (queue_source_copy dst cap src) = of_nat ?n"
    using assms by (simp add: queue_source_copy_eq source_scan_min)
  then have "unat (snd (queue_source_copy dst cap src)) = ?n" using assms by (simp add: unat_of_nat min_def)
  moreover have "length (short_label cap src) = ?n" using assms by (auto simp: short_label_def)
  ultimately show "label_ok (fst (queue_source_copy dst cap src)) (snd (queue_source_copy dst cap src))"
    using assms c l by (auto simp: label_ok_def)
qed

lemma label_ok_cleared: "st \<noteq> [] \<Longrightarrow> label_ok (st[0 := NUL]) 0"
  by (simp add: label_ok_def cstr_first_NUL)

text \<open>The fields \<^verbatim>\<open>queue_copy_source\<close> writes, in one statement.\<close>

lemma copy_source_fields:
  assumes d: "record_shape d" and m: "labels_ok m"
  defines "e \<equiv> queue_copy_source d m"
  shows "record_shape e" "label_ok (r_module_storage e) (r_module_len e)"
    "label_ok (r_file_storage e) (r_file_len e)" "label_ok (r_function_storage e) (r_function_len e)"
    "cstr (r_module_storage e) = v_module (queued_view m)" "cstr (r_file_storage e) = v_file (queued_view m)"
    "cstr (r_function_storage e) = v_func (queued_view m)"
proof -
  have l: "length (r_module_storage d) = 128" "length (r_file_storage d) = 256"
    "length (r_function_storage d) = 128" "r_module_storage d \<noteq> []" "r_file_storage d \<noteq> []"
    "r_function_storage d \<noteq> []"
    using d by (auto simp: record_shape_def)
  note M = queue_source_copy_label [OF l(1) _ _ labels_okD(1) [OF m], simplified]
  note F = queue_source_copy_label [OF l(2) _ _ labels_okD(2) [OF m], simplified]
  note G = queue_source_copy_label [OF l(3) _ _ labels_okD(3) [OF m], simplified]
  note clear = label_ok_cleared [OF l(4)] label_ok_cleared [OF l(5)] label_ok_cleared [OF l(6)]
    cstr_first_NUL [OF l(4)] cstr_first_NUL [OF l(5)] cstr_first_NUL [OF l(6)]
  show "record_shape e" using d M(3) F(3) G(3)
    by (simp add: e_def queue_copy_source_def Let_def record_shape_def split_def)
  show "label_ok (r_module_storage e) (r_module_len e)" using M(2) clear
    by (simp add: e_def queue_copy_source_def Let_def split_def)
  show "label_ok (r_file_storage e) (r_file_len e)" using F(2) clear
    by (simp add: e_def queue_copy_source_def Let_def split_def)
  show "label_ok (r_function_storage e) (r_function_len e)" using G(2) clear
    by (simp add: e_def queue_copy_source_def Let_def split_def)
  show "cstr (r_module_storage e) = v_module (queued_view m)" using M(1) clear
    by (simp add: e_def queue_copy_source_def queued_view_def Let_def split_def)
  show "cstr (r_file_storage e) = v_file (queued_view m)" using F(1) clear
    by (simp add: e_def queue_copy_source_def queued_view_def Let_def split_def)
  show "cstr (r_function_storage e) = v_func (queued_view m)" using G(1) clear
    by (simp add: e_def queue_copy_source_def queued_view_def Let_def split_def)
qed

lemma copy_source_frame [simp]:
  "r_level (queue_copy_source d m) = r_level d" "r_ts (queue_copy_source d m) = r_ts d"
  "r_pid (queue_copy_source d m) = r_pid d" "r_tid (queue_copy_source d m) = r_tid d"
  "r_line (queue_copy_source d m) = r_line d" "r_request_id (queue_copy_source d m) = r_request_id d"
  "r_session_id (queue_copy_source d m) = r_session_id d" "r_trace_id (queue_copy_source d m) = r_trace_id d"
  "r_inline_text (queue_copy_source d m) = r_inline_text d"
  by (simp_all add: queue_copy_source_def Let_def split_def)

text \<open>The part of \<^verbatim>\<open>queue_record_pack\<close> before the source labels.\<close>

definition pack_context :: "logger_queue_record \<Rightarrow> logger_message \<Rightarrow> logger_queue_record" where
  "pack_context d0 src =
     (if m_metadata_mask src AND LOGGER_RECORD_META_CONTEXT \<noteq> 0
      then d0\<lparr>r_request_id := memcpy_at (r_request_id d0) 0 (m_request_id src) 64,
              r_session_id := memcpy_at (r_session_id d0) 0 (m_session_id src) 64,
              r_trace_id := memcpy_at (r_trace_id d0) 0 (m_trace_id src) 64\<rparr>
      else d0\<lparr>r_request_id := (r_request_id d0)[0 := NUL],
              r_session_id := (r_session_id d0)[0 := NUL],
              r_trace_id := (r_trace_id d0)[0 := NUL]\<rparr>)"

lemma pack_context_fields:
  assumes "record_shape d" "message_wf m"
  defines "e \<equiv> pack_context (d\<lparr>r_level := m_level m, r_ts := m_ts m, r_pid := m_pid m, r_tid := m_tid m,
                 r_line := m_line m\<rparr>) m"
  shows "record_shape e" "cstr (r_request_id e) = v_request (queued_view m)"
    "cstr (r_session_id e) = v_session (queued_view m)" "cstr (r_trace_id e) = v_trace (queued_view m)"
    "r_level e = m_level m" "r_ts e = m_ts m" "r_pid e = m_pid m" "r_tid e = m_tid m" "r_line e = m_line m"
proof -
  have ne: "r_request_id d \<noteq> []" "r_session_id d \<noteq> []" "r_trace_id d \<noteq> []"
    using assms(1) by (auto simp: record_shape_def)
  note c = cstr_first_NUL [OF ne(1)] cstr_first_NUL [OF ne(2)] cstr_first_NUL [OF ne(3)]
  show "record_shape e" "cstr (r_request_id e) = v_request (queued_view m)"
    "cstr (r_session_id e) = v_session (queued_view m)" "cstr (r_trace_id e) = v_trace (queued_view m)"
    "r_level e = m_level m" "r_ts e = m_ts m" "r_pid e = m_pid m" "r_tid e = m_tid m" "r_line e = m_line m"
    using assms c by (simp_all add: pack_context_def record_shape_def message_wf_def queued_view_def Let_def)
qed

lemma pack_eq:
  "queue_record_pack dst src n idx =
     (let d2 = (queue_copy_source (pack_context (dst\<lparr>r_level := m_level src, r_ts := m_ts src, r_pid := m_pid src,
                  r_tid := m_tid src, r_line := m_line src\<rparr>) src) src)\<lparr>r_text_len := of_nat n, r_spill_index := idx\<rparr>
      in if idx = LOGGER_QUEUE_SPILL_NONE
         then d2\<lparr>r_inline_text := memcpy_at (r_inline_text d2) 0 (m_text src) (n + 1)\<rparr> else d2)"
  unfolding queue_record_pack_def pack_context_def Let_def by simp

text \<open>Where the text of a packed record is found, and what has to be there.\<close>

definition text_placed :: "logger_queue \<Rightarrow> logger_message \<Rightarrow> nat \<Rightarrow> u32 \<Rightarrow> bool" where
  "text_placed q m n idx \<longleftrightarrow>
     (if idx = LOGGER_QUEUE_SPILL_NONE then n \<le> LOGGER_QUEUE_INLINE_TEXT
      else length (q_spills q ! unat idx) = LOGGER_MESSAGE_MAX \<and> take n (q_spills q ! unat idx) = take n (m_text m))"

lemma pack_correct:
  assumes d: "record_shape d" and m: "message_wf m" "labels_ok m"
    and n: "n = logger_record_text_length m" "n \<noteq> LOGGER_MESSAGE_MAX" and t: "text_placed q m n idx"
  defines "r \<equiv> queue_record_pack d m n idx"
  shows "record_wf r" "text_fits q r" "rec_view q r = queued_view m" "r_spill_index r = idx"
proof -
  let ?d0 = "d\<lparr>r_level := m_level m, r_ts := m_ts m, r_pid := m_pid m, r_tid := m_tid m, r_line := m_line m\<rparr>"
  note P = pack_context_fields [OF d m(1)]
  note Q = copy_source_fields [OF P(1) m(2)]
  have nlt: "n < LOGGER_MESSAGE_MAX" using n record_text_length_le [of m] by linarith
  then have un: "unat (of_nat n :: u16) = n" by (simp add: unat_of_nat)
  have ml: "length (m_text m) = LOGGER_MESSAGE_MAX" using m by (simp add: message_wf_def)
  have il: "length (r_inline_text (pack_context ?d0 m)) = LOGGER_QUEUE_INLINE_TEXT + 1"
    using P(1) by (simp add: record_shape_def)
  show ix: "r_spill_index r = idx" by (simp add: r_def pack_eq Let_def)
  have tl: "r_text_len r = of_nat n" by (simp add: r_def pack_eq Let_def)
  have inl: "idx = LOGGER_QUEUE_SPILL_NONE \<Longrightarrow>
      r_inline_text r = memcpy_at (r_inline_text (pack_context ?d0 m)) 0 (m_text m) (n + 1)"
    by (simp add: r_def pack_eq Let_def)
  have tx: "take n (record_text q r) = take n (m_text m)"
    using t inl ix il ml by (auto simp: record_text_def text_placed_def take_memcpy_prefix simp del: One_nat_def)
  show "text_fits q r"
    using t inl ix il ml tl un nlt by (simp add: text_fits_def record_text_def text_placed_def split: if_splits)
  show "record_wf r"
    using Q(1-4) t nlt un il ml
    by (simp add: r_def pack_eq Let_def record_wf_def record_shape_def text_placed_def split: if_splits)
  have "v_text (rec_view q r) = v_text (queued_view m)"
    using tx tl un n(1) by (simp add: rec_view_def queued_view_def Let_def)
  moreover have "v_level (rec_view q r) = m_level m" "v_ts (rec_view q r) = m_ts m"
    "v_pid (rec_view q r) = m_pid m" "v_tid (rec_view q r) = m_tid m" "v_line (rec_view q r) = m_line m"
    "v_request (rec_view q r) = v_request (queued_view m)" "v_session (rec_view q r) = v_session (queued_view m)"
    "v_trace (rec_view q r) = v_trace (queued_view m)" "v_module (rec_view q r) = v_module (queued_view m)"
    "v_file (rec_view q r) = v_file (queued_view m)" "v_func (rec_view q r) = v_func (queued_view m)"
    using P(2-9) Q(5-7) by (simp_all add: rec_view_def r_def pack_eq Let_def)
  ultimately show "rec_view q r = queued_view m"
    by (intro msg_view.equality) (simp_all add: queued_view_def Let_def)
qed

end
