(* ===== verification/Logger_Queue_Fifo.thy ===== *)
theory Logger_Queue_Fifo
  imports Logger_Queue_Record
begin

text \<open>
  The queue implements a bounded first-in first-out list. \<open>queue_contents\<close> is the
  abstraction, \<open>queue_inv\<close> the invariant: the sequence numbers tell published from free
  slots, and the spill bitmap marks exactly the blocks of the queued records. Accepting a
  message appends its view, popping takes the oldest one, and a rejected message leaves
  the contents alone.
\<close>

section \<open>The spill bitmap\<close>

definition spill_bit :: "logger_queue \<Rightarrow> nat \<Rightarrow> bool" where
  "spill_bit q i = bit (q_spill_used q ! (i div 32)) (i mod 32)"

definition pool_shape :: "logger_queue \<Rightarrow> bool" where
  "pool_shape q \<longleftrightarrow> 0 < unat (q_spill_cap q) \<and> unat (q_spill_cap q) \<le> LOGGER_QUEUE_SPILL_LIMIT \<and>
     length (q_spill_used q) = LOGGER_QUEUE_SPILL_WORDS \<and> length (q_spills q) = unat (q_spill_cap q) \<and>
     list_all (\<lambda>b. length b = LOGGER_MESSAGE_MAX) (q_spills q)"

lemma spill_words_eq: "pool_shape q \<Longrightarrow> spill_words q = (unat (q_spill_cap q) + 31) div 32"
proof -
  assume p: "pool_shape q"
  then have "unat (q_spill_cap q + 31) = unat (q_spill_cap q) + 31"
    using unat_add_lem [of "q_spill_cap q" 31] by (simp add: pool_shape_def)
  then show ?thesis by (simp add: spill_words_def unat_div)
qed

lemma spill_words_pos: "pool_shape q \<Longrightarrow> 0 < spill_words q \<and> spill_words q \<le> 32"
  by (auto simp: spill_words_eq pool_shape_def)

lemma spill_word_start: "pool_shape q \<Longrightarrow> w < spill_words q \<Longrightarrow> w * 32 < unat (q_spill_cap q)"
  by (auto simp: spill_words_eq)

lemma spill_word_of: "pool_shape q \<Longrightarrow> i < unat (q_spill_cap q) \<Longrightarrow> i div 32 < spill_words q"
  by (auto simp: spill_words_eq)

lemma bit_spill_valid_mask:
  assumes c: "unat cap \<le> 1024" and w: "w * 32 < unat cap" and b: "b < 32"
  shows "bit (spill_valid_mask cap w) b \<longleftrightarrow> w * 32 + b < unat cap"
proof -
  have f: "unat (of_nat w * 32 :: size_t) = w * 32"
    using c w unat_mult_lem [of "of_nat w :: size_t" 32] by (simp add: unat_of_nat)
  then have r: "unat (cap - of_nat w * 32) = unat cap - w * 32"
    using w unat_sub [of "of_nat w * 32" cap] by (simp add: word_le_nat_alt)
  show ?thesis
  proof (cases "32 \<le> cap - of_nat w * 32")
    case True
    then have "32 \<le> unat cap - w * 32" using r by (simp add: word_le_nat_alt)
    then show ?thesis using True b by (simp add: spill_valid_mask_def)
  next
    case False
    then have "spill_valid_mask cap w = mask (unat cap - w * 32)"
      using r by (simp add: spill_valid_mask_def Let_def push_bit_eq_mult mask_eq_exp_minus_1)
    then show ?thesis using b by (auto simp: bit_mask_iff)
  qed
qed

lemma spill_pick_Some:
  assumes "spill_pick used valid = Some b"
  shows "b < 32" "\<not> bit used b" "bit valid b"
proof -
  have z: "NOT used AND valid \<noteq> 0" and "b = ctz (NOT used AND valid)"
    using assms by (auto simp: spill_pick_def Let_def split: if_splits)
  then show "b < 32" "\<not> bit used b" "bit valid b"
    using bit_ctz [OF z] by (auto simp: bit_and_iff bit_not_iff)
qed

lemma spill_pick_None:
  assumes "spill_pick used valid = None" "bit valid b"
  shows "bit used b"
proof -
  have "NOT used AND valid = 0" using assms(1) by (auto simp: spill_pick_def Let_def split: if_splits)
  then have "\<not> bit (NOT used AND valid) b" by simp
  then show ?thesis using assms(2) bit_imp_le_length [OF assms(2)] by (auto simp: bit_and_iff bit_not_iff)
qed

lemma spill_probe_Some:
  assumes "spill_probe q start ns = Some (w, b)" and p: "pool_shape q"
  shows "w < spill_words q" "b < 32" "w * 32 + b < unat (q_spill_cap q)" "\<not> spill_bit q (w * 32 + b)"
proof -
  have "w < spill_words q \<and> spill_pick (q_spill_used q ! w) (spill_valid_mask (q_spill_cap q) w) = Some b"
    using assms(1) spill_words_pos [OF p]
    by (induction q start ns rule: spill_probe.induct) (auto simp: Let_def split: option.splits)
  then have w: "w < spill_words q"
    and s: "spill_pick (q_spill_used q ! w) (spill_valid_mask (q_spill_cap q) w) = Some b" by auto
  show "w < spill_words q" by (rule w)
  show b: "b < 32" by (rule spill_pick_Some [OF s])
  show "w * 32 + b < unat (q_spill_cap q)"
    using bit_spill_valid_mask [OF _ spill_word_start [OF p w] b] spill_pick_Some(3) [OF s] p
    by (simp add: pool_shape_def)
  show "\<not> spill_bit q (w * 32 + b)" using spill_pick_Some(2) [OF s] b by (simp add: spill_bit_def)
qed

lemma spill_probe_None_word:
  "spill_probe q start ns = None \<Longrightarrow> n \<in> set ns \<Longrightarrow>
   spill_pick (q_spill_used q ! ((start + n) mod spill_words q))
     (spill_valid_mask (q_spill_cap q) ((start + n) mod spill_words q)) = None"
  by (induction q start ns rule: spill_probe.induct) (auto simp: Let_def split: option.splits)

text \<open>The scan starts anywhere and wraps around: every word is looked at.\<close>

lemma spill_probe_covers:
  fixes W :: nat
  assumes "0 < W" "w < W"
  shows "\<exists>n<W. (start + n) mod W = w"
proof -
  let ?n = "(w + (W - start mod W)) mod W"
  have "(start + ?n) mod W = (start mod W + (w + (W - start mod W))) mod W"
    by (simp add: mod_add_left_eq mod_add_right_eq)
  also have "start mod W + (w + (W - start mod W)) = w + W"
    using mod_less_divisor [OF assms(1), of start] by linarith
  finally have "(start + ?n) mod W = w" using assms(2) by simp
  then show ?thesis using assms(1) by (intro exI [of _ ?n]) simp
qed

lemma spill_probe_None:
  assumes "spill_probe q start [0..<spill_words q] = None" and p: "pool_shape q"
    and i: "i < unat (q_spill_cap q)"
  shows "spill_bit q i"
proof -
  let ?w = "i div 32"
  have w: "?w < spill_words q" by (rule spill_word_of [OF p i])
  obtain n where n: "n < spill_words q" "(start + n) mod spill_words q = ?w"
    using spill_probe_covers [of "spill_words q" ?w start] w by auto
  have "spill_pick (q_spill_used q ! ?w) (spill_valid_mask (q_spill_cap q) ?w) = None"
    using spill_probe_None_word [OF assms(1), of n] n by simp
  moreover have "bit (spill_valid_mask (q_spill_cap q) ?w) (i mod 32)"
    using bit_spill_valid_mask [OF _ spill_word_start [OF p w], of "i mod 32"] p i
    by (simp add: pool_shape_def)
  ultimately show ?thesis by (simp add: spill_bit_def spill_pick_None)
qed

section \<open>Taking and returning a spill block\<close>

lemma unat_index: "i < 1024 \<Longrightarrow> unat (of_nat i :: u32) = i"
  by (simp add: unat_of_nat)

lemma index_not_NONE: "i < 1024 \<Longrightarrow> (of_nat i :: u32) \<noteq> LOGGER_QUEUE_SPILL_NONE"
proof
  assume "i < 1024" and "(of_nat i :: u32) = LOGGER_QUEUE_SPILL_NONE"
  then have "i = unat (- 1 :: u32)" using unat_index [of i] by simp
  then show False using \<open>i < 1024\<close> by (simp add: unat_minus_one_word)
qed

lemma unat_NONE: "unat LOGGER_QUEUE_SPILL_NONE = 4294967295"
  by (simp add: unat_minus_one_word)

lemma try_take_Some:
  assumes t: "queue_spill_try_take q tls text n = (Some idx, q', tls')" and p: "pool_shape q"
  shows "\<exists>i used. idx = of_nat i \<and> i < unat (q_spill_cap q) \<and> \<not> spill_bit q i \<and>
     (\<forall>j<1024. spill_bit q' j \<longleftrightarrow> spill_bit q j \<or> j = i) \<and>
     q' = q\<lparr>q_spill_used := used, q_spills := (q_spills q)[i := memcpy_at (q_spills q ! i) 0 text (n + 1)]\<rparr> \<and>
     length used = LOGGER_QUEUE_SPILL_WORDS"
proof -
  obtain w b where sp: "spill_probe q (spill_start q tls) [0..<spill_words q] = Some (w, b)"
    and q': "q' = (let q1 = q\<lparr>q_spill_used := (q_spill_used q)[w := q_spill_used q ! w OR push_bit b 1]\<rparr>
       in q1\<lparr>q_spills := (q_spills q1)[w * 32 + b := memcpy_at (q_spills q1 ! (w * 32 + b)) 0 text (n + 1)]\<rparr>)"
    and idx: "idx = of_nat (w * 32 + b)"
    using t by (auto simp: queue_spill_try_take_def Let_def split: option.splits prod.splits)
  note S = spill_probe_Some [OF sp p]
  have w32: "w < 32" using S(1) spill_words_pos [OF p] by linarith
  have len: "length (q_spill_used q) = 32" using p by (simp add: pool_shape_def)
  have "spill_bit q' j \<longleftrightarrow> spill_bit q j \<or> j = w * 32 + b" if "j < 1024" for j
  proof (cases "j div 32 = w")
    case True
    then have "j = w * 32 + b \<longleftrightarrow> j mod 32 = b" by (metis add_left_cancel div_mult_mod_eq)
    moreover have "q_spill_used q' ! w = q_spill_used q ! w OR push_bit b 1"
      using w32 len by (simp add: q' Let_def)
    ultimately show ?thesis using True S(2) unfolding spill_bit_def by (simp only: bit_set_bit) auto
  next
    case False
    then have "j \<noteq> w * 32 + b" using S(2) by auto
    then show ?thesis using False by (simp add: q' Let_def spill_bit_def)
  qed
  then show ?thesis
    using S idx q' len
    by (intro exI [of _ "w * 32 + b"] exI [of _ "(q_spill_used q)[w := q_spill_used q ! w OR push_bit b 1]"])
       (simp add: Let_def)
qed

lemma try_take_None:
  assumes "queue_spill_try_take q tls text n = (None, q', tls')" and "pool_shape q"
  shows "q' = q\<lparr>q_spill_exhaustions := q_spill_exhaustions q + 1\<rparr>"
    and "\<forall>i<unat (q_spill_cap q). spill_bit q i"
  using assms spill_probe_None [OF _ assms(2)]
  by (auto simp: queue_spill_try_take_def Let_def split: option.splits prod.splits)

lemma put_bits:
  assumes "i < 1024" and p: "length (q_spill_used q) = LOGGER_QUEUE_SPILL_WORDS" and "j < 1024"
  shows "spill_bit (queue_spill_put q (of_nat i)) j \<longleftrightarrow> spill_bit q j \<and> j \<noteq> i"
proof -
  have ix: "(of_nat i :: u32) \<noteq> LOGGER_QUEUE_SPILL_NONE" "unat (of_nat i div 32 :: u32) = i div 32"
    "unat (of_nat i mod 32 :: u32) = i mod 32"
    using assms(1) by (simp_all add: index_not_NONE unat_div unat_mod unat_index)
  show ?thesis
  proof (cases "j div 32 = i div 32")
    case True
    then have "j = i \<longleftrightarrow> j mod 32 = i mod 32"
      using div_mult_mod_eq [of j 32] div_mult_mod_eq [of i 32] by auto
    moreover have "q_spill_used (queue_spill_put q (of_nat i)) ! (i div 32)
        = q_spill_used q ! (i div 32) AND NOT (push_bit (i mod 32) 1)"
      using ix p assms(1) by (simp add: queue_spill_put_def Let_def)
    ultimately show ?thesis using True unfolding spill_bit_def by (simp only: bit_clear_bit)
  next
    case False
    then have "j \<noteq> i" by auto
    then show ?thesis using False ix by (simp add: queue_spill_put_def Let_def spill_bit_def)
  qed
qed

lemma put_frame:
  "queue_spill_put q idx = q\<lparr>q_spill_used := q_spill_used (queue_spill_put q idx)\<rparr>"
  "length (q_spill_used (queue_spill_put q idx)) = length (q_spill_used q)"
  "q_cap (queue_spill_put q idx) = q_cap q"
  by (simp_all add: queue_spill_put_def Let_def)

section \<open>The invariant and the contents\<close>

definition pos_at :: "logger_queue \<Rightarrow> nat \<Rightarrow> size_t" where
  "pos_at q i = q_dequeue_pos q + of_nat i"

definition queue_len :: "logger_queue \<Rightarrow> nat" where
  "queue_len q = unat (q_enqueue_pos q - q_dequeue_pos q)"

definition rec_at :: "logger_queue \<Rightarrow> nat \<Rightarrow> logger_queue_record" where
  "rec_at q i = s_record (q_slots q ! slot_index q (pos_at q i))"

definition queue_contents :: "logger_queue \<Rightarrow> msg_view list" where
  "queue_contents q = map (\<lambda>i. rec_view q (rec_at q i)) [0..<queue_len q]"

text \<open>The queued records are well-formed and each spilled one has a block of its own.\<close>

definition records_ok :: "logger_queue \<Rightarrow> bool" where
  "records_ok q \<longleftrightarrow>
     (\<forall>i<queue_len q. record_wf (rec_at q i) \<and>
        (r_spill_index (rec_at q i) = LOGGER_QUEUE_SPILL_NONE \<or>
         unat (r_spill_index (rec_at q i)) < unat (q_spill_cap q))) \<and>
     (\<forall>i<queue_len q. \<forall>j<queue_len q. i \<noteq> j \<longrightarrow>
        r_spill_index (rec_at q i) \<noteq> LOGGER_QUEUE_SPILL_NONE \<longrightarrow>
        r_spill_index (rec_at q i) \<noteq> r_spill_index (rec_at q j))"

text \<open>
  \<open>held\<close> is the block a producer has taken and not yet published: the bitmap marks it and
  the blocks of the queued records, and nothing else.
\<close>

definition bitmap_ok :: "logger_queue \<Rightarrow> u32 \<Rightarrow> bool" where
  "bitmap_ok q held \<longleftrightarrow>
     (\<forall>k<1024. spill_bit q k \<longleftrightarrow>
        unat held = k \<or> (\<exists>i<queue_len q. unat (r_spill_index (rec_at q i)) = k)) \<and>
     (held \<noteq> LOGGER_QUEUE_SPILL_NONE \<longrightarrow>
        unat held < unat (q_spill_cap q) \<and> (\<forall>i<queue_len q. r_spill_index (rec_at q i) \<noteq> held))"

definition seqs_ok :: "logger_queue \<Rightarrow> bool" where
  "seqs_ok q \<longleftrightarrow> queue_len q \<le> unat (q_cap q) \<and>
     (\<forall>i<unat (q_cap q). slot_seq q (pos_at q i) = (if i < queue_len q then pos_at q i + 1 else pos_at q i))"

definition slots_shape :: "logger_queue \<Rightarrow> bool" where
  "slots_shape q \<longleftrightarrow> list_all (\<lambda>s. record_shape (s_record s)) (q_slots q)"

definition queue_inv_held :: "logger_queue \<Rightarrow> u32 \<Rightarrow> bool" where
  "queue_inv_held q held \<longleftrightarrow> ring_shape q \<and> pool_shape q \<and> slots_shape q \<and> seqs_ok q \<and> records_ok q \<and> bitmap_ok q held"

definition queue_inv :: "logger_queue \<Rightarrow> bool" where
  "queue_inv q \<longleftrightarrow> queue_inv_held q LOGGER_QUEUE_SPILL_NONE"

lemmas inv_parts = ring_shape_def pool_shape_def slots_shape_def seqs_ok_def records_ok_def bitmap_ok_def
lemmas layout_defs = pos_at_def queue_len_def rec_at_def slot_seq_def slot_index_def spill_bit_def

text \<open>Counters and the waiting flag are no part of the ring.\<close>

definition ring_eq :: "logger_queue \<Rightarrow> logger_queue \<Rightarrow> bool" where
  "ring_eq q q' \<longleftrightarrow> q_slots q = q_slots q' \<and> q_cap q = q_cap q' \<and> q_mask q = q_mask q' \<and>
     q_spills q = q_spills q' \<and> q_spill_cap q = q_spill_cap q' \<and> q_spill_used q = q_spill_used q' \<and>
     q_enqueue_pos q = q_enqueue_pos q' \<and> q_dequeue_pos q = q_dequeue_pos q'"

lemma ring_eq_layout:
  assumes "ring_eq q q'"
  shows "pos_at q' = pos_at q" "queue_len q' = queue_len q" "rec_at q' = rec_at q" "slot_seq q' = slot_seq q"
    "spill_bit q' = spill_bit q" "rec_view q' = rec_view q"
  using assms by (auto simp: ring_eq_def layout_defs rec_view_def record_text_def fun_eq_iff)

lemma ring_eq_inv: "ring_eq q q' \<Longrightarrow> queue_inv_held q' h = queue_inv_held q h"
  using ring_eq_layout [of q q'] by (simp add: queue_inv_held_def inv_parts ring_eq_def)

lemma ring_eq_contents: "ring_eq q q' \<Longrightarrow> queue_contents q' = queue_contents q"
  using ring_eq_layout [of q q'] by (simp add: queue_contents_def)

text \<open>The text of a queued record is inside its array or its block.\<close>

lemma inv_text_fits:
  assumes "queue_inv_held q h" "i < queue_len q"
  shows "text_fits q (rec_at q i)"
proof -
  let ?r = "rec_at q i"
  have r: "record_wf ?r" "r_spill_index ?r = LOGGER_QUEUE_SPILL_NONE \<or> unat (r_spill_index ?r) < length (q_spills q)"
    and b: "\<forall>x\<in>set (q_spills q). length x = LOGGER_MESSAGE_MAX"
    using assms by (auto simp: queue_inv_held_def records_ok_def pool_shape_def list_all_iff)
  show ?thesis
  proof (cases "r_spill_index ?r = LOGGER_QUEUE_SPILL_NONE")
    case True
    then show ?thesis using r by (simp add: text_fits_def record_text_def record_wf_def record_shape_def)
  next
    case False
    then have "length (q_spills q ! unat (r_spill_index ?r)) = LOGGER_MESSAGE_MAX" using r b by simp
    then show ?thesis using False r by (simp add: text_fits_def record_text_def record_wf_def)
  qed
qed

section \<open>Taking and returning a block keeps the contents\<close>

lemma take_keeps:
  assumes t: "queue_spill_try_take q tls text n = (Some idx, q', tls')"
    and inv: "queue_inv q" and n: "n < LOGGER_MESSAGE_MAX" "length text = LOGGER_MESSAGE_MAX"
  shows "queue_inv_held q' idx" "queue_contents q' = queue_contents q" "idx \<noteq> LOGGER_QUEUE_SPILL_NONE"
    "length (q_spills q' ! unat idx) = LOGGER_MESSAGE_MAX" "take n (q_spills q' ! unat idx) = take n text"
proof -
  have p: "pool_shape q" and inv': "queue_inv_held q LOGGER_QUEUE_SPILL_NONE"
    using inv by (auto simp: queue_inv_def queue_inv_held_def)
  obtain i used where i: "idx = of_nat i" "i < unat (q_spill_cap q)" "\<not> spill_bit q i"
    and bits: "\<forall>j<1024. spill_bit q' j \<longleftrightarrow> spill_bit q j \<or> j = i"
    and q': "q' = q\<lparr>q_spill_used := used, q_spills := (q_spills q)[i := memcpy_at (q_spills q ! i) 0 text (n + 1)]\<rparr>"
    and lu: "length used = LOGGER_QUEUE_SPILL_WORDS"
    using try_take_Some [OF t p] by blast
  have i10: "i < 1024" and li: "length (q_spills q) = unat (q_spill_cap q)" using i p by (auto simp: pool_shape_def)
  note ui = unat_index [OF i10]
  show "idx \<noteq> LOGGER_QUEUE_SPILL_NONE" using index_not_NONE [OF i10] i by simp
  have sp: "q_spills q' = (q_spills q)[i := memcpy_at (q_spills q ! i) 0 text (n + 1)]" by (simp add: q')
  have bl: "length (q_spills q ! i) = LOGGER_MESSAGE_MAX" using p i li by (simp add: pool_shape_def list_all_length)
  show "length (q_spills q' ! unat idx) = LOGGER_MESSAGE_MAX" using sp i li bl ui n by simp
  show "take n (q_spills q' ! unat idx) = take n text"
    using sp i li bl ui n take_memcpy_prefix [of n "q_spills q ! i" "text"] by simp
  have lay: "pos_at q' = pos_at q" "queue_len q' = queue_len q" "rec_at q' = rec_at q" "slot_seq q' = slot_seq q"
    by (simp_all add: q' layout_defs fun_eq_iff)
  have free: "unat (r_spill_index (rec_at q k)) \<noteq> i" if "k < queue_len q" for k
    using i(3) i10 inv' that by (auto simp: queue_inv_held_def bitmap_ok_def)
  have "rec_view q' (rec_at q k) = rec_view q (rec_at q k)" if "k < queue_len q" for k
  proof (cases "r_spill_index (rec_at q k) = LOGGER_QUEUE_SPILL_NONE")
    case True
    then show ?thesis by (simp add: rec_view_def record_text_def)
  next
    case False
    then show ?thesis using False free [OF that] by (simp add: rec_view_def record_text_def sp)
  qed
  then show "queue_contents q' = queue_contents q" by (simp add: queue_contents_def lay)
  have "ring_shape q'" "slots_shape q'" "seqs_ok q'" "records_ok q'"
    using inv' lay by (simp_all add: queue_inv_held_def ring_shape_def slots_shape_def seqs_ok_def records_ok_def q')
  moreover have "pool_shape q'"
    using p sp lu bl n i li q' by (auto simp: pool_shape_def list_all_length nth_list_update)
  moreover have "bitmap_ok q' idx"
  proof -
    have ix: "unat idx = i" "q_spill_cap q' = q_spill_cap q" using i ui by (simp_all add: q')
    have "\<forall>k<1024. spill_bit q k \<longleftrightarrow> (\<exists>j<queue_len q. unat (r_spill_index (rec_at q j)) = k)"
      using inv' by (auto simp: queue_inv_held_def bitmap_ok_def unat_NONE)
    moreover have "\<forall>j<queue_len q. r_spill_index (rec_at q j) \<noteq> idx" using free ix(1) by metis
    ultimately show ?thesis using bits ix i(2) by (auto simp: bitmap_ok_def lay)
  qed
  ultimately show "queue_inv_held q' idx" by (simp add: queue_inv_held_def)
qed

lemma put_keeps:
  assumes inv: "queue_inv_held q idx"
  shows "queue_inv (queue_spill_put q idx)" "queue_contents (queue_spill_put q idx) = queue_contents q"
    "queue_len (queue_spill_put q idx) = queue_len q"
proof -
  let ?q = "queue_spill_put q idx"
  obtain used where q': "?q = q\<lparr>q_spill_used := used\<rparr>" "length used = length (q_spill_used q)"
    using put_frame [of q idx] by blast
  have lay: "pos_at ?q = pos_at q" "queue_len ?q = queue_len q" "rec_at ?q = rec_at q" "slot_seq ?q = slot_seq q"
    "rec_view ?q = rec_view q"
    by (simp_all add: q' layout_defs rec_view_def record_text_def fun_eq_iff)
  show "queue_contents ?q = queue_contents q" "queue_len ?q = queue_len q"
    by (simp_all add: queue_contents_def lay)
  have "bitmap_ok ?q LOGGER_QUEUE_SPILL_NONE"
  proof (cases "idx = LOGGER_QUEUE_SPILL_NONE")
    case True
    then show ?thesis using inv by (simp add: queue_spill_put_def queue_inv_held_def)
  next
    case False
    then have i: "unat idx < 1024" "\<forall>i<queue_len q. r_spill_index (rec_at q i) \<noteq> idx"
      and b: "\<forall>k<1024. spill_bit q k \<longleftrightarrow> unat idx = k \<or> (\<exists>i<queue_len q. unat (r_spill_index (rec_at q i)) = k)"
      and l: "length (q_spill_used q) = LOGGER_QUEUE_SPILL_WORDS"
      using inv by (auto simp: queue_inv_held_def bitmap_ok_def pool_shape_def)
    have "\<forall>k<1024. spill_bit ?q k \<longleftrightarrow> spill_bit q k \<and> k \<noteq> unat idx"
      using put_bits [OF i(1) l] by simp
    moreover have "\<forall>i<queue_len q. unat (r_spill_index (rec_at q i)) \<noteq> unat idx"
      using i(2) by (simp add: word_unat_eq_iff)
    ultimately show ?thesis using b by (auto simp: bitmap_ok_def lay unat_NONE)
  qed
  then show "queue_inv ?q"
    using inv lay by (simp add: queue_inv_def queue_inv_held_def ring_shape_def pool_shape_def slots_shape_def
        seqs_ok_def records_ok_def q')
qed

section \<open>Publishing appends\<close>

lemma inv_cap: "queue_inv_held q h \<Longrightarrow> 2 \<le> unat (q_cap q) \<and> unat (q_cap q) \<le> 2 ^ 53 \<and> queue_len q \<le> unat (q_cap q)"
proof -
  assume i: "queue_inv_held q h"
  then obtain k where k: "1 \<le> k" "k \<le> 53" "unat (q_cap q) = 2 ^ k"
    using ring_shape_cap by (auto simp: queue_inv_held_def)
  then have "(2::nat) ^ 1 \<le> 2 ^ k" "(2::nat) ^ k \<le> 2 ^ 53"
    using power_increasing [of 1 k "2::nat"] power_increasing [of k 53 "2::nat"] by simp_all
  then show ?thesis using k(3) i by (simp add: queue_inv_held_def seqs_ok_def)
qed

lemma enqueue_pos_eq: "q_enqueue_pos q = pos_at q (queue_len q)"
  by (simp add: pos_at_def queue_len_def)

lemma pos_slots_differ:
  assumes "queue_inv_held q h" "i < unat (q_cap q)" "j < unat (q_cap q)" "i \<noteq> j"
  shows "slot_index q (pos_at q i) \<noteq> slot_index q (pos_at q j)"
  using slot_index_inj [of q i j "q_dequeue_pos q"] assms by (auto simp: pos_at_def queue_inv_held_def)

lemma publish_eq:
  "push_publish q pos m n idx = q\<lparr>q_enqueue_pos := pos + 1, q_slots := (q_slots q)[slot_index q pos :=
     (q_slots q ! slot_index q pos)\<lparr>s_record := queue_record_pack (s_record (q_slots q ! slot_index q pos)) m n idx,
       s_seq := pos + 1\<rparr>]\<rparr>" if "slot_index q pos < length (q_slots q)"
  using that by (simp add: push_publish_def upd_slot_def slot_index_def Let_def)

lemma publish_keeps:
  assumes inv: "queue_inv_held q idx" and room: "queue_len q < unat (q_cap q)"
    and m: "message_wf m" "labels_ok m"
    and n: "n = logger_record_text_length m" "n \<noteq> LOGGER_MESSAGE_MAX" and t: "text_placed q m n idx"
  defines "q' \<equiv> push_publish q (q_enqueue_pos q) m n idx"
  shows "queue_inv q'" "queue_contents q' = queue_contents q @ [queued_view m]" "queue_len q' = Suc (queue_len q)"
    "q_cap q' = q_cap q"
proof -
  let ?len = "queue_len q"
  let ?at = "slot_index q (pos_at q ?len)"
  let ?new = "queue_record_pack (s_record (q_slots q ! ?at)) m n idx"
  have r: "ring_shape q" "slots_shape q" "seqs_ok q" "records_ok q" "pool_shape q" "bitmap_ok q idx"
    using inv by (auto simp: queue_inv_held_def)
  have at: "?at < length (q_slots q)" by (rule slot_index_bound [OF r(1)])
  have cap: "unat (q_cap q) \<le> 2 ^ 53" using inv_cap [OF inv] by blast
  have q': "q' = q\<lparr>q_enqueue_pos := pos_at q ?len + 1, q_slots := (q_slots q)[?at :=
     (q_slots q ! ?at)\<lparr>s_record := ?new, s_seq := pos_at q ?len + 1\<rparr>]\<rparr>"
    unfolding q'_def enqueue_pos_eq by (rule publish_eq [OF at])
  have sh: "record_shape (s_record (q_slots q ! ?at))"
    using r(2) at by (simp add: slots_shape_def list_all_length)
  note P = pack_correct [OF sh m n t]
  have pos: "pos_at q' = pos_at q" "slot_index q' = slot_index q" "q_spills q' = q_spills q" "spill_bit q' = spill_bit q"
    "q_spill_cap q' = q_spill_cap q"
    by (simp_all add: q' pos_at_def slot_index_def spill_bit_def fun_eq_iff)
  have view: "rec_view q' = rec_view q" by (simp add: rec_view_def record_text_def pos fun_eq_iff)
  have "unat (q_enqueue_pos q - q_dequeue_pos q + 1) = ?len + 1"
    using unat_add_lem [of "q_enqueue_pos q - q_dequeue_pos q" 1] room cap by (simp add: queue_len_def)
  then show len: "queue_len q' = Suc ?len"
    by (simp add: queue_len_def q' pos_at_def algebra_simps)
  have new: "rec_at q' ?len = ?new" using at by (simp add: rec_at_def pos) (simp add: q')
  have old: "rec_at q' i = rec_at q i" if "i < ?len" for i
    using pos_slots_differ [OF inv, of ?len i] room that by (simp add: rec_at_def pos) (simp add: q')
  show "queue_contents q' = queue_contents q @ [queued_view m]"
    using P(3) by (simp add: queue_contents_def len view new old)
  show "q_cap q' = q_cap q" by (simp add: q')
  have "ring_shape q'" "pool_shape q'" using r by (simp_all add: q' ring_shape_def pool_shape_def)
  moreover have "slots_shape q'"
    using r(2) P(1) at by (auto simp: slots_shape_def q' list_all_length nth_list_update record_wf_def)
  moreover have "seqs_ok q'"
  proof -
    have "slot_seq q' (pos_at q i) = (if i < Suc ?len then pos_at q i + 1 else pos_at q i)"
      if "i < unat (q_cap q)" for i
    proof (cases "i = ?len")
      case True
      then show ?thesis using at by (simp add: slot_seq_def pos) (simp add: q')
    next
      case False
      then have "slot_seq q' (pos_at q i) = slot_seq q (pos_at q i)"
        using pos_slots_differ [OF inv, of ?len i] room that by (simp add: slot_seq_def pos) (simp add: q')
      then show ?thesis using r(3) that False by (auto simp: seqs_ok_def)
    qed
    then show ?thesis using room by (simp add: seqs_ok_def len pos) (simp add: q')
  qed
  moreover have "records_ok q'"
    using r(4,6) P(1,4) by (auto simp: records_ok_def bitmap_ok_def len less_Suc_eq new old pos)
  moreover have "bitmap_ok q' LOGGER_QUEUE_SPILL_NONE"
    using r(6) P(4) by (auto simp: bitmap_ok_def len less_Suc_eq new old pos unat_NONE)
  ultimately show "queue_inv q'" by (simp add: queue_inv_def queue_inv_held_def)
qed

section \<open>Popping removes the oldest record\<close>

lemma front_seq:
  assumes "queue_inv_held q h"
  shows "slot_seq q (q_dequeue_pos q) = q_dequeue_pos q + 1 \<longleftrightarrow> 0 < queue_len q"
proof -
  have "slot_seq q (pos_at q 0) = (if 0 < queue_len q then pos_at q 0 + 1 else pos_at q 0)"
    using assms inv_cap [OF assms] by (simp add: queue_inv_held_def seqs_ok_def)
  then show ?thesis by (simp add: pos_at_def)
qed

text \<open>The state after the sequence number of the front slot has been advanced by the capacity.\<close>

definition popped :: "logger_queue \<Rightarrow> logger_queue" where
  "popped q = q\<lparr>q_slots := (q_slots q)[slot_index q (pos_at q 0) :=
     (q_slots q ! slot_index q (pos_at q 0))\<lparr>s_seq := pos_at q 0 + q_cap q\<rparr>], q_dequeue_pos := pos_at q 0 + 1\<rparr>"

lemma popped_layout:
  assumes inv: "queue_inv_held q h" and ne: "0 < queue_len q"
  shows "queue_len (popped q) = queue_len q - 1" "pos_at (popped q) i = pos_at q (Suc i)"
    "rec_at (popped q) i = rec_at q (Suc i)" "rec_view (popped q) = rec_view q"
    "spill_bit (popped q) = spill_bit q" "q_spill_cap (popped q) = q_spill_cap q"
proof -
  have sub: "unat (q_enqueue_pos q - q_dequeue_pos q - 1) = queue_len q - 1"
    using ne unat_sub [of 1 "q_enqueue_pos q - q_dequeue_pos q"] by (simp add: queue_len_def word_le_nat_alt Suc_le_eq)
  then show "queue_len (popped q) = queue_len q - 1"
    by (simp add: queue_len_def popped_def pos_at_def algebra_simps)
  show p: "pos_at (popped q) i = pos_at q (Suc i)" by (simp add: popped_def pos_at_def algebra_simps)
  show "rec_view (popped q) = rec_view q" "spill_bit (popped q) = spill_bit q" "q_spill_cap (popped q) = q_spill_cap q"
    by (simp_all add: popped_def rec_view_def record_text_def spill_bit_def fun_eq_iff)
  have "slot_index (popped q) = slot_index q" by (simp add: popped_def slot_index_def fun_eq_iff)
  then show "rec_at (popped q) i = rec_at q (Suc i)"
    unfolding rec_at_def p using slot_index_bound [of q "pos_at q 0"] inv
    by (simp add: popped_def nth_list_update queue_inv_held_def)
qed

lemma popped_seqs:
  assumes inv: "queue_inv_held q h" and ne: "0 < queue_len q"
  shows "seqs_ok (popped q)"
proof -
  have r: "ring_shape q" "seqs_ok q" using inv by (auto simp: queue_inv_held_def)
  have at: "slot_index q (pos_at q 0) < length (q_slots q)" by (rule slot_index_bound [OF r(1)])
  have sl: "slot_index (popped q) = slot_index q" "q_cap (popped q) = q_cap q"
    by (simp_all add: popped_def slot_index_def fun_eq_iff)
  have "slot_seq (popped q) (pos_at q (Suc i)) =
      (if i < queue_len q - 1 then pos_at q (Suc i) + 1 else pos_at q (Suc i))" if i: "i < unat (q_cap q)" for i
  proof (cases "Suc i = unat (q_cap q)")
    case True
    then have "pos_at q (Suc i) = pos_at q 0 + q_cap q" by (simp add: pos_at_def)
    moreover have "slot_index q (pos_at q 0 + q_cap q) = slot_index q (pos_at q 0)"
      using slot_index_wrap [OF r(1), of "q_dequeue_pos q" 0] by (simp add: pos_at_def)
    moreover have "\<not> i < queue_len q - 1" using True inv_cap [OF inv] by linarith
    ultimately show ?thesis using at by (simp add: slot_seq_def sl) (simp add: popped_def)
  next
    case False
    then have lt: "Suc i < unat (q_cap q)" using i by linarith
    have "slot_seq (popped q) (pos_at q (Suc i)) = slot_seq q (pos_at q (Suc i))"
      using pos_slots_differ [OF inv, of 0 "Suc i"] lt by (simp add: slot_seq_def sl) (simp add: popped_def)
    then show ?thesis using r(2) lt by (auto simp: seqs_ok_def)
  qed
  moreover have "queue_len q - 1 \<le> unat (q_cap q)" using inv_cap [OF inv] by linarith
  ultimately show ?thesis by (simp add: seqs_ok_def popped_layout [OF inv ne] sl)
qed

lemma popped_keeps:
  assumes inv: "queue_inv q" and ne: "0 < queue_len q"
  shows "queue_inv_held (popped q) (r_spill_index (rec_at q 0))"
    "queue_contents (popped q) = tl (queue_contents q)"
proof -
  have i: "queue_inv_held q LOGGER_QUEUE_SPILL_NONE" using inv by (simp add: queue_inv_def)
  note L = popped_layout [OF i ne]
  have r: "ring_shape q" "slots_shape q" "records_ok q" "pool_shape q" "bitmap_ok q LOGGER_QUEUE_SPILL_NONE"
    using i by (auto simp: queue_inv_held_def)
  have "[0..<queue_len q] = 0 # map Suc [0..<queue_len q - 1]"
    using ne by (cases "queue_len q") (simp_all add: map_Suc_upt upt_conv_Cons)
  then show "queue_contents (popped q) = tl (queue_contents q)"
    by (simp add: queue_contents_def L comp_def)
  have "ring_shape (popped q)" "pool_shape (popped q)"
    using r by (simp_all add: popped_def ring_shape_def pool_shape_def)
  moreover have "slots_shape (popped q)"
    using r(2) slot_index_bound [OF r(1)] by (simp add: slots_shape_def popped_def list_all_length nth_list_update)
  moreover have "records_ok (popped q)"
  proof -
    have "Suc i < queue_len q" if "i < queue_len q - 1" for i using that by linarith
    then show ?thesis using r(3) by (simp add: records_ok_def L)
  qed
  moreover have "bitmap_ok (popped q) (r_spill_index (rec_at q 0))"
  proof -
    have ex: "(\<exists>i<queue_len q. P i) \<longleftrightarrow> P 0 \<or> (\<exists>i<queue_len q - 1. P (Suc i))" for P
      using ne by (cases "queue_len q") (auto simp: less_Suc_eq_0_disj)
    have "\<forall>k<1024. spill_bit q k \<longleftrightarrow> unat (r_spill_index (rec_at q 0)) = k \<or>
       (\<exists>i<queue_len q - 1. unat (r_spill_index (rec_at q (Suc i))) = k)"
      using r(5) ex [of "\<lambda>i. unat (r_spill_index (rec_at q i)) = _"] by (simp add: bitmap_ok_def unat_NONE)
    moreover have "\<forall>i<queue_len q - 1. r_spill_index (rec_at q 0) \<noteq> LOGGER_QUEUE_SPILL_NONE \<longrightarrow>
       r_spill_index (rec_at q (Suc i)) \<noteq> r_spill_index (rec_at q 0)"
    proof (intro allI impI notI)
      fix j assume "j < queue_len q - 1" "r_spill_index (rec_at q 0) \<noteq> LOGGER_QUEUE_SPILL_NONE"
        "r_spill_index (rec_at q (Suc j)) = r_spill_index (rec_at q 0)"
      moreover from this(1) have "Suc j < queue_len q" by linarith
      ultimately show False using r(3) ne unfolding records_ok_def by (metis nat.distinct(1))
    qed
    ultimately show ?thesis using r(3) ne by (auto simp: bitmap_ok_def L records_ok_def)
  qed
  ultimately show "queue_inv_held (popped q) (r_spill_index (rec_at q 0))"
    using popped_seqs [OF i ne] by (simp add: queue_inv_held_def)
qed

lemma try_pop_eq:
  assumes inv: "queue_inv q" and ne: "0 < queue_len q"
  shows "logger_queue_try_pop q m =
    (1, queue_spill_put (popped q) (r_spill_index (rec_at q 0)), queue_record_unpack q (rec_at q 0) m)"
proof -
  have "slot_seq q (q_dequeue_pos q) = q_dequeue_pos q + 1"
    using front_seq ne inv by (auto simp: queue_inv_def)
  then show ?thesis
    by (simp add: logger_queue_try_pop_def Let_def rec_at_def pos_at_def popped_def upd_slot_def queue_spill_put_def
        slot_index_def)
qed

lemma try_pop_correct:
  assumes inv: "queue_inv q" and out: "message_wf out"
  shows "queue_contents q = [] \<Longrightarrow> logger_queue_try_pop q out = (0, q, out)"
    and "queue_contents q = v # vs \<Longrightarrow> \<exists>q' m. logger_queue_try_pop q out = (1, q', m) \<and> queue_inv q' \<and>
           queue_contents q' = vs \<and> message_view m = v \<and> message_wf m"
proof -
  have i: "queue_inv_held q LOGGER_QUEUE_SPILL_NONE" using inv by (simp add: queue_inv_def)
  have empty: "queue_contents q = [] \<longleftrightarrow> queue_len q = 0" by (simp add: queue_contents_def)
  show "queue_contents q = [] \<Longrightarrow> logger_queue_try_pop q out = (0, q, out)"
    using front_seq [OF i] unfolding empty by (simp add: logger_queue_try_pop_def)
  assume c: "queue_contents q = v # vs"
  then have ne: "0 < queue_len q" using empty by auto
  have r: "record_wf (rec_at q 0)" "text_fits q (rec_at q 0)"
    using i ne inv_text_fits [OF i ne] by (auto simp: queue_inv_held_def records_ok_def)
  have "v = rec_view q (rec_at q 0)"
    using c ne by (cases "queue_len q") (simp_all add: queue_contents_def upt_conv_Cons del: upt_Suc)
  then show "\<exists>q' m. logger_queue_try_pop q out = (1, q', m) \<and> queue_inv q' \<and>
           queue_contents q' = vs \<and> message_view m = v \<and> message_wf m"
    using try_pop_eq [OF inv ne, of out] put_keeps [OF popped_keeps(1) [OF inv ne]]
      popped_keeps(2) [OF inv ne] unpack_view [OF r out] unpack_message_wf [OF r out] c by simp
qed

section \<open>Accepting and rejecting\<close>

lemma unat_neg: "x \<noteq> 0 \<Longrightarrow> unat (- x) = 2 ^ LENGTH('a) - unat x" for x :: "'a::len word"
  using unat_sub_if_size [of 0 x] by (simp add: word_size unat_eq_0)

lemma back_seq_free:
  assumes "queue_inv_held q h" "queue_len q < unat (q_cap q)"
  shows "slot_seq q (q_enqueue_pos q) = q_enqueue_pos q"
  using assms unfolding enqueue_pos_eq by (simp add: queue_inv_held_def seqs_ok_def)

lemma back_seq_full:
  assumes i: "queue_inv_held q h" and full: "queue_len q = unat (q_cap q)"
  shows "SIZE_MAX div 2 < slot_seq q (q_enqueue_pos q) - q_enqueue_pos q"
proof -
  have r: "ring_shape q" using i by (simp add: queue_inv_held_def)
  have e: "q_enqueue_pos q = pos_at q 0 + q_cap q" unfolding enqueue_pos_eq full by (simp add: pos_at_def)
  have "slot_seq q (q_enqueue_pos q) = slot_seq q (pos_at q 0)"
    using slot_index_wrap [OF r, of "q_dequeue_pos q" 0] by (simp add: slot_seq_def e pos_at_def)
  then have d: "slot_seq q (q_enqueue_pos q) - q_enqueue_pos q = - (q_cap q - 1)"
    using front_seq [OF i] inv_cap [OF i] full by (simp add: e) (simp add: pos_at_def)
  have c: "unat (q_cap q - 1) = unat (q_cap q) - 1"
    using inv_cap [OF i] unat_sub [of 1 "q_cap q"] by (simp add: word_le_nat_alt)
  then have "0 < unat (q_cap q - 1)" using inv_cap [OF i] by linarith
  then have "q_cap q - 1 \<noteq> 0" by (auto simp: unat_gt_0)
  then have "unat (- (q_cap q - 1)) = 2 ^ 64 - (unat (q_cap q) - 1)"
    using c unat_neg [of "q_cap q - 1"] by simp
  moreover have "unat (q_cap q) \<le> 2 ^ 53" using inv_cap [OF i] by blast
  ultimately show ?thesis unfolding half_less_iff d by simp
qed

text \<open>Other threads of the notification step touch the waiting flag and the counters only.\<close>

definition calm :: "queue_env \<Rightarrow> bool" where
  "calm env \<longleftrightarrow> (\<forall>q. ring_eq q (qe_meanwhile env q))"

lemma notify_ring_eq:
  assumes "calm env" "logger_queue_notify_if_waiting env q = (rc, q')"
  shows "ring_eq q q'"
proof -
  have "ring_eq q (qe_meanwhile env q)" using assms(1) by (simp add: calm_def)
  then show ?thesis using assms(2)
    by (auto simp: logger_queue_notify_if_waiting_def logger_queue_wait_claim_signal_def note_unlock_def Let_def
        ring_eq_def split: if_splits)
qed

lemma ring_eq_trans: "ring_eq a b \<Longrightarrow> ring_eq b c \<Longrightarrow> ring_eq a c"
  by (simp add: ring_eq_def)

lemma ring_eq_queue_inv: "ring_eq q q' \<Longrightarrow> queue_inv q' = queue_inv q"
  by (simp add: queue_inv_def ring_eq_inv)

text \<open>A message the queue may be offered: its arrays have their lengths, its pointers are C strings.\<close>

definition message_ok :: "logger_message \<Rightarrow> bool" where
  "message_ok m \<longleftrightarrow> message_wf m \<and> labels_ok m"

text \<open>The reasons to refuse: no terminator, no free slot, or a long text and no free block.\<close>

definition refuses :: "logger_queue \<Rightarrow> logger_message \<Rightarrow> bool" where
  "refuses q m \<longleftrightarrow> logger_record_text_length m = LOGGER_MESSAGE_MAX \<or> queue_len q = unat (q_cap q) \<or>
     LOGGER_QUEUE_INLINE_TEXT < logger_record_text_length m \<and> (\<forall>i<unat (q_spill_cap q). spill_bit q i)"

text \<open>The reservation step, once a block is held or none is needed.\<close>

lemma reserve_correct:
  assumes env: "calm env" and inv: "queue_inv_held q idx" and m: "message_ok m"
    and n: "n = logger_record_text_length m" "n \<noteq> LOGGER_MESSAGE_MAX" and t: "text_placed q m n idx"
  shows "\<exists>rc q'. queue_reserve env tls q m n idx = Some (rc, q', tls) \<and> queue_inv q' \<and> q_cap q' = q_cap q \<and>
        (if queue_len q = unat (q_cap q) then rc = 0 \<and> queue_contents q' = queue_contents q
         else rc \<noteq> 0 \<and> queue_contents q' = queue_contents q @ [queued_view m])"
proof (cases "queue_len q = unat (q_cap q)")
  case True
  have b: "SIZE_MAX div 2 < slot_seq q (q_enqueue_pos q) - q_enqueue_pos q"
    by (rule back_seq_full [OF inv True])
  then have "slot_seq q (q_enqueue_pos q) - q_enqueue_pos q \<noteq> 0" by (metis word_not_simps(1))
  then have "queue_reserve env tls q m n idx = Some (0, queue_spill_put q idx, tls)"
    using b unfolding queue_reserve_def Let_def by (simp only: if_True if_False)
  then show ?thesis using True put_keeps [OF inv] put_frame(3) [of q idx] by simp
next
  case False
  then have lt: "queue_len q < unat (q_cap q)" using inv_cap [OF inv] by linarith
  note P = publish_keeps [OF inv lt _ _ n t]
  obtain rc q2 where nt: "logger_queue_notify_if_waiting env (push_publish q (q_enqueue_pos q) m n idx) = (rc, q2)"
    by fastforce
  note E = notify_ring_eq [OF env nt]
  show ?thesis
    using False back_seq_free [OF inv lt] nt P m ring_eq_queue_inv [OF E] ring_eq_contents [OF E] E
    by (simp add: queue_reserve_def Let_def message_ok_def) (simp add: ring_eq_def)
qed

lemma push_correct:
  assumes env: "calm env" and inv: "queue_inv q" and m: "message_ok m"
  shows "\<exists>rc q' tls'. logger_queue_push env tls q m = Some (rc, q', tls') \<and> queue_inv q' \<and> q_cap q' = q_cap q \<and>
     (if refuses q m then rc = 0 \<and> queue_contents q' = queue_contents q
      else rc \<noteq> 0 \<and> queue_contents q' = queue_contents q @ [queued_view m])"
proof -
  let ?n = "logger_record_text_length m"
  have i: "queue_inv_held q LOGGER_QUEUE_SPILL_NONE" and p: "pool_shape q"
    using inv by (auto simp: queue_inv_def queue_inv_held_def)
  consider "?n = LOGGER_MESSAGE_MAX" | "?n \<noteq> LOGGER_MESSAGE_MAX" "?n \<le> LOGGER_QUEUE_INLINE_TEXT"
    | "?n \<noteq> LOGGER_MESSAGE_MAX" "LOGGER_QUEUE_INLINE_TEXT < ?n" by linarith
  then show ?thesis
  proof cases
    case 1
    then show ?thesis using inv by (simp add: logger_queue_push_def refuses_def)
  next
    case 2
    then have "text_placed q m ?n LOGGER_QUEUE_SPILL_NONE" by (simp add: text_placed_def)
    then obtain rc q' where "queue_reserve env tls q m ?n LOGGER_QUEUE_SPILL_NONE = Some (rc, q', tls)"
      "queue_inv q'" "q_cap q' = q_cap q"
      "if queue_len q = unat (q_cap q) then rc = 0 \<and> queue_contents q' = queue_contents q
       else rc \<noteq> 0 \<and> queue_contents q' = queue_contents q @ [queued_view m]"
      using reserve_correct [OF env i m refl 2(1), of tls] by blast
    then show ?thesis using 2 by (simp add: logger_queue_push_def refuses_def)
  next
    case 3
    obtain r q1 tls1 where t: "queue_spill_try_take q tls (m_text m) ?n = (r, q1, tls1)"
      by (metis prod.collapse)
    show ?thesis
    proof (cases r)
      case None
      note N = try_take_None [OF t [unfolded None] p]
      have E: "ring_eq q q1" using N(1) by (simp add: ring_eq_def)
      show ?thesis using t None 3 N(2) inv ring_eq_queue_inv [OF E] ring_eq_contents [OF E] E
        by (simp add: logger_queue_push_def refuses_def) (simp add: ring_eq_def)
    next
      case (Some idx)
      have lt: "?n < LOGGER_MESSAGE_MAX" using 3 record_text_length_le [of m] by linarith
      have lm: "length (m_text m) = LOGGER_MESSAGE_MAX" using m by (simp add: message_ok_def message_wf_def)
      note K = take_keeps [OF t [unfolded Some] inv lt lm]
      have tp: "text_placed q1 m ?n idx" using K by (simp add: text_placed_def)
      from try_take_Some [OF t [unfolded Some] p]
      have free: "\<not> (\<forall>i<unat (q_spill_cap q). spill_bit q i)" and same: "q_cap q1 = q_cap q" "queue_len q1 = queue_len q"
        by (auto simp: queue_len_def)
      obtain rc q' where "queue_reserve env tls1 q1 m ?n idx = Some (rc, q', tls1)"
        "queue_inv q'" "q_cap q' = q_cap q1"
        "if queue_len q1 = unat (q_cap q1) then rc = 0 \<and> queue_contents q' = queue_contents q1
         else rc \<noteq> 0 \<and> queue_contents q' = queue_contents q1 @ [queued_view m]"
        using reserve_correct [OF env K(1) m refl 3(1) tp, of tls1] by blast
      moreover have "refuses q m \<longleftrightarrow> queue_len q = unat (q_cap q)" using 3 free unfolding refuses_def by blast
      ultimately show ?thesis using t Some 3 same K(2) by (simp add: logger_queue_push_def)
    qed
  qed
qed

end
