(* ===== verification/Logger_Queue_Spec.thy ===== *)
theory Logger_Queue_Spec
  imports Logger_Queue_Fifo
begin

text \<open>
  The contract of a bounded queue as a locale, proved for the ring of
  \<^verbatim>\<open>src/logger_queue.c\<close>. A client works with requests (what is offered), buffers (where a
  popped message goes) and views (what is observed); the locale shows that any
  sequence of offers and pops delivers the accepted views in order, with no loss and no
  duplicate. The properties of the queue follow from its interpretation.
\<close>

section \<open>The contract\<close>

datatype ('r, 'o) queue_op = Offer 'r | Take 'o

text \<open>
  A run returns the final state, the views accepted, and the views delivered; \<^const>\<open>None\<close>
  when an offer did not return.
\<close>

fun fifo_run :: "('q \<Rightarrow> 'r \<Rightarrow> (bool \<times> 'q) option) \<Rightarrow> ('q \<Rightarrow> 'o \<Rightarrow> 'v option \<times> 'q) \<Rightarrow> ('r \<Rightarrow> 'v) \<Rightarrow>
    'q \<Rightarrow> ('r, 'o) queue_op list \<Rightarrow> ('q \<times> 'v list \<times> 'v list) option" where
  "fifo_run offer tak view q [] = Some (q, [], [])"
| "fifo_run offer tak view q (Offer r # ops) =
     (case offer q r of None \<Rightarrow> None
      | Some (accepted, q') \<Rightarrow>
        (case fifo_run offer tak view q' ops of None \<Rightarrow> None
         | Some (q'', acc, out) \<Rightarrow> Some (q'', if accepted then view r # acc else acc, out)))"
| "fifo_run offer tak view q (Take b # ops) =
     (case tak q b of (got, q') \<Rightarrow>
        (case fifo_run offer tak view q' ops of None \<Rightarrow> None
         | Some (q'', acc, out) \<Rightarrow> Some (q'', acc, case got of None \<Rightarrow> out | Some v \<Rightarrow> v # out)))"

locale bounded_fifo =
  fixes inv :: "'q \<Rightarrow> bool" and contents :: "'q \<Rightarrow> 'v list" and capacity :: "'q \<Rightarrow> nat"
    and offer :: "'q \<Rightarrow> 'r \<Rightarrow> (bool \<times> 'q) option" and tak :: "'q \<Rightarrow> 'o \<Rightarrow> 'v option \<times> 'q"
    and valid :: "'r \<Rightarrow> bool" and buffer :: "'o \<Rightarrow> bool" and view :: "'r \<Rightarrow> 'v"
  assumes bounded: "inv q \<Longrightarrow> length (contents q) \<le> capacity q"
    and offer_returns: "inv q \<Longrightarrow> valid r \<Longrightarrow> \<exists>a q'. offer q r = Some (a, q')"
    and offer_inv: "inv q \<Longrightarrow> valid r \<Longrightarrow> offer q r = Some (a, q') \<Longrightarrow> inv q' \<and> capacity q' = capacity q"
    and offer_contents: "inv q \<Longrightarrow> valid r \<Longrightarrow> offer q r = Some (a, q') \<Longrightarrow>
      contents q' = (if a then contents q @ [view r] else contents q)"
    and take_empty: "inv q \<Longrightarrow> buffer b \<Longrightarrow> contents q = [] \<Longrightarrow> tak q b = (None, q)"
    and take_front: "inv q \<Longrightarrow> buffer b \<Longrightarrow> contents q = v # vs \<Longrightarrow>
      \<exists>q'. tak q b = (Some v, q') \<and> inv q' \<and> capacity q' = capacity q \<and> contents q' = vs"
begin

definition op_ok :: "('r, 'o) queue_op \<Rightarrow> bool" where
  "op_ok p = (case p of Offer r \<Rightarrow> valid r | Take b \<Rightarrow> buffer b)"

lemma take_step:
  assumes "inv q" "buffer b" "tak q b = (got, q')"
  shows "inv q'" "capacity q' = capacity q"
    "contents q = (case got of None \<Rightarrow> [] | Some v \<Rightarrow> [v]) @ contents q'"
proof -
  have "inv q' \<and> capacity q' = capacity q \<and> contents q = (case got of None \<Rightarrow> [] | Some v \<Rightarrow> [v]) @ contents q'"
  proof (cases "contents q")
    case Nil
    then show ?thesis using take_empty [OF assms(1,2) Nil] assms by simp
  next
    case (Cons v vs)
    then show ?thesis using take_front [OF assms(1,2) Cons] assms by auto
  qed
  then show "inv q'" "capacity q' = capacity q" "contents q = (case got of None \<Rightarrow> [] | Some v \<Rightarrow> [v]) @ contents q'"
    by auto
qed

lemma run_fifo:
  assumes "inv q" "list_all op_ok ops"
  shows "\<exists>q' acc out. fifo_run offer tak view q ops = Some (q', acc, out) \<and> inv q' \<and>
           capacity q' = capacity q \<and> contents q @ acc = out @ contents q'"
  using assms
proof (induction ops arbitrary: q)
  case Nil
  then show ?case by simp
next
  case (Cons p ops)
  show ?case
  proof (cases p)
    case (Offer r)
    then have v: "valid r" using Cons.prems by (simp add: op_ok_def)
    obtain a q1 where o: "offer q r = Some (a, q1)" using offer_returns [OF Cons.prems(1) v] by blast
    note I = offer_inv [OF Cons.prems(1) v o] offer_contents [OF Cons.prems(1) v o]
    obtain q' acc out where "fifo_run offer tak view q1 ops = Some (q', acc, out)" "inv q'"
      "capacity q' = capacity q1" "contents q1 @ acc = out @ contents q'"
      using Cons.IH [of q1] I Cons.prems by auto
    then show ?thesis using Offer o I by (cases a) simp_all
  next
    case (Take b)
    then have b: "buffer b" using Cons.prems by (simp add: op_ok_def)
    obtain got q1 where t: "tak q b = (got, q1)" by fastforce
    note I = take_step [OF Cons.prems(1) b t]
    obtain q' acc out where "fifo_run offer tak view q1 ops = Some (q', acc, out)" "inv q'"
      "capacity q' = capacity q1" "contents q1 @ acc = out @ contents q'"
      using Cons.IH [of q1] I Cons.prems by auto
    then show ?thesis using Take t I by (cases got) simp_all
  qed
qed

text \<open>No more than the capacity is ever in flight.\<close>

lemma in_flight_bound:
  assumes "inv q" "list_all op_ok ops" "contents q = []"
  shows "\<exists>q' acc out. fifo_run offer tak view q ops = Some (q', acc, out) \<and>
           take (length out) acc = out \<and> length acc \<le> length out + capacity q"
proof -
  obtain q' acc out where r: "fifo_run offer tak view q ops = Some (q', acc, out)" "inv q'"
      "capacity q' = capacity q" "contents q @ acc = out @ contents q'"
    using run_fifo [OF assms(1,2)] by blast
  then have "acc = out @ contents q'" using assms(3) by simp
  then show ?thesis using r bounded [OF r(2)] by simp
qed

end

section \<open>The ring implements the contract\<close>

type_synonym push_request = "queue_env \<times> spill_tls \<times> logger_message"

definition ring_offer :: "logger_queue \<Rightarrow> push_request \<Rightarrow> (bool \<times> logger_queue) option" where
  "ring_offer q r = (case r of (env, tls, m) \<Rightarrow>
     map_option (\<lambda>(rc, q', tls'). (rc \<noteq> 0, q')) (logger_queue_push env tls q m))"

definition ring_take :: "logger_queue \<Rightarrow> logger_message \<Rightarrow> msg_view option \<times> logger_queue" where
  "ring_take q b = (case logger_queue_try_pop q b of (rc, q', m) \<Rightarrow>
     (if rc = 0 then None else Some (message_view m), q'))"

definition request_ok :: "push_request \<Rightarrow> bool" where
  "request_ok r = (case r of (env, tls, m) \<Rightarrow> calm env \<and> message_ok m)"

definition request_view :: "push_request \<Rightarrow> msg_view" where
  "request_view r = (case r of (env, tls, m) \<Rightarrow> queued_view m)"

lemma ring_offer_cases:
  assumes "queue_inv q" "request_ok r"
  obtains a q' where "ring_offer q r = Some (a, q')" "queue_inv q'" "q_cap q' = q_cap q"
    "queue_contents q' = (if a then queue_contents q @ [request_view r] else queue_contents q)"
    "a \<longleftrightarrow> \<not> refuses q (snd (snd r))"
proof -
  obtain env tls m where r: "r = (env, tls, m)" by (cases r) auto
  then have ok: "calm env" "message_ok m" using assms by (simp_all add: request_ok_def)
  obtain rc q' tls' where P: "logger_queue_push env tls q m = Some (rc, q', tls')" "queue_inv q'" "q_cap q' = q_cap q"
    "if refuses q m then rc = 0 \<and> queue_contents q' = queue_contents q
     else rc \<noteq> 0 \<and> queue_contents q' = queue_contents q @ [queued_view m]"
    using push_correct [OF ok(1) assms(1) ok(2), of tls] by blast
  show ?thesis
    by (rule that [of "rc \<noteq> 0" q']) (use P in \<open>auto simp: r ring_offer_def request_view_def split: if_splits\<close>)
qed

lemma pop_keeps_cap: "logger_queue_try_pop q b = (rc, q', m) \<Longrightarrow> q_cap q' = q_cap q"
  by (auto simp: logger_queue_try_pop_def Let_def upd_slot_def put_frame(3) split: if_splits)

interpretation ring: bounded_fifo queue_inv queue_contents "\<lambda>q. unat (q_cap q)" ring_offer ring_take
  request_ok message_wf request_view
proof unfold_locales
  fix q assume "queue_inv q"
  then show "length (queue_contents q) \<le> unat (q_cap q)"
    using inv_cap [of q LOGGER_QUEUE_SPILL_NONE] by (simp add: queue_inv_def queue_contents_def)
next
  fix q r assume "queue_inv q" "request_ok r"
  then show "\<exists>a q'. ring_offer q r = Some (a, q')" by (metis ring_offer_cases)
next
  fix q r a q' assume "queue_inv q" "request_ok r" "ring_offer q r = Some (a, q')"
  then show "queue_inv q' \<and> unat (q_cap q') = unat (q_cap q)"
    by (metis ring_offer_cases option.inject prod.inject)
next
  fix q r a q' assume "queue_inv q" "request_ok r" "ring_offer q r = Some (a, q')"
  then show "queue_contents q' = (if a then queue_contents q @ [request_view r] else queue_contents q)"
    by (metis ring_offer_cases option.inject prod.inject)
next
  fix q b assume "queue_inv q" "message_wf b" "queue_contents q = []"
  then show "ring_take q b = (None, q)" using try_pop_correct(1) [of q b] by (simp add: ring_take_def)
next
  fix q b v vs assume a: "queue_inv q" "message_wf b" "queue_contents q = v # vs"
  obtain q' m where "logger_queue_try_pop q b = (1, q', m)" "queue_inv q'" "queue_contents q' = vs" "message_view m = v"
    using try_pop_correct(2) [OF a(1,2,3)] by blast
  then show "\<exists>q'. ring_take q b = (Some v, q') \<and> queue_inv q' \<and> unat (q_cap q') = unat (q_cap q) \<and> queue_contents q' = vs"
    using pop_keeps_cap by (fastforce simp: ring_take_def)
qed

section \<open>Initialisation\<close>

lemma ring_init_inv:
  fixes bytes :: size_t
  assumes "queue_capacity requested = Inr cap"
  defines "q \<equiv> zero_queue\<lparr>q_cap := cap, q_mask := cap - 1, q_spill_cap := queue_spill_capacity cap,
     q_storage_bytes := bytes, q_slots := map (\<lambda>i. \<lparr>s_seq = of_nat i, s_record = zero_record\<rparr>) [0..<unat cap],
     q_spills := replicate (unat (queue_spill_capacity cap)) (replicate LOGGER_MESSAGE_MAX NUL)\<rparr>"
  shows "queue_inv q" "queue_contents q = []"
proof -
  obtain k where k: "1 \<le> k" "k \<le> 53" "unat cap = 2 ^ k" using queue_capacity_Inr [OF assms(1)] by blast
  have len: "queue_len q = 0" by (simp add: q_def queue_len_def zero_queue_def)
  show "queue_contents q = []" by (simp add: queue_contents_def len)
  have ring: "ring_shape q"
    using k pow2_word_eq [OF k(3)] unfolding ring_shape_def q_def by (intro conjI exI [of _ k]) simp_all
  have c2: "2 \<le> unat cap" using queue_capacity_Inr [OF assms(1)] by linarith
  have pool: "pool_shape q"
    using c2 by (simp add: pool_shape_def q_def zero_queue_def unat_spill_capacity list_all_length)
  have seqs: "seqs_ok q"
  proof -
    have "slot_seq q (pos_at q i) = pos_at q i" if "i < unat cap" for i
    proof -
      have "slot_index q (of_nat i) = i"
        using slot_index_offset [OF ring, of 0 i] that by (simp add: q_def)
      moreover have "pos_at q i = of_nat i" by (simp add: pos_at_def q_def zero_queue_def)
      ultimately show ?thesis using that by (simp add: slot_seq_def) (simp add: q_def)
    qed
    then show ?thesis by (simp add: seqs_ok_def len) (simp add: q_def)
  qed
  have "slots_shape q"
    by (simp add: slots_shape_def q_def list_all_length zero_record_def record_shape_def)
  moreover have "records_ok q" by (simp add: records_ok_def len)
  moreover have "bitmap_ok q LOGGER_QUEUE_SPILL_NONE"
  proof -
    have "\<not> spill_bit q j" if "j < 1024" for j using that by (simp add: spill_bit_def q_def zero_queue_def)
    then show ?thesis by (auto simp: bitmap_ok_def len unat_NONE)
  qed
  ultimately show "queue_inv q" using ring pool seqs by (simp add: queue_inv_def queue_inv_held_def)
qed

text \<open>The environment in which every call of the constructor succeeds.\<close>

definition init_env_ok :: "queue_init_env \<Rightarrow> bool" where
  "init_env_ok env \<longleftrightarrow> ie_slots env = None \<and> ie_spills env = None \<and> ie_mutex_init env = 0 \<and> ie_cond_init env = 0"

lemma init_result:
  assumes "unat requested \<le> 2 ^ 53" "init_env_ok env"
  shows "\<exists>q. logger_queue_init env requested = (0, 0, q) \<and> queue_inv q \<and> queue_contents q = [] \<and>
     queue_capacity requested = Inr (q_cap q) \<and> q_spill_cap q = queue_spill_capacity (q_cap q) \<and>
     unat (q_storage_bytes q) = unat (q_cap q) * 1272 + unat (q_spill_cap q) * 4096"
proof -
  obtain cap where c: "queue_capacity requested = Inr cap" using assms(1) queue_capacity_ok_iff by blast
  obtain k where k: "k \<le> 53" "unat cap = 2 ^ k" using queue_capacity_Inr [OF c] by blast
  have b: "unat cap \<le> 2 ^ 53" unfolding k(2) using k(1) by (intro power_increasing) simp_all
  have s: "unat (queue_spill_capacity cap) \<le> 1024" by (simp add: unat_spill_capacity)
  obtain bytes where bytes: "queue_storage_size cap (queue_spill_capacity cap) = Inr bytes"
    "unat bytes = unat cap * 1272 + unat (queue_spill_capacity cap) * 4096"
    using queue_storage_size_exact [OF s b] by blast
  show ?thesis
    using assms(2) ring_init_inv [OF c, of bytes] c bytes
    by (simp add: logger_queue_init_def init_env_ok_def Let_def)
qed

lemma init_failure:
  assumes "\<not> (unat requested \<le> 2 ^ 53 \<and> init_env_ok env)" "logger_queue_init env requested = (rc, e, q)"
  shows "rc = - 1"
  using assms queue_capacity_ok_iff [of requested]
  by (auto simp: logger_queue_init_def init_env_ok_def Let_def split: sum.splits option.splits if_splits)

section \<open>Spill blocks in use\<close>

definition spilled_count :: "logger_queue \<Rightarrow> nat" where
  "spilled_count q = length (filter (\<lambda>i. r_spill_index (rec_at q i) \<noteq> LOGGER_QUEUE_SPILL_NONE) [0..<queue_len q])"

lemma spill_bits_card:
  assumes inv: "queue_inv q"
  shows "card {k. k < unat (q_spill_cap q) \<and> spill_bit q k} = spilled_count q"
proof -
  let ?S = "{i. i < queue_len q \<and> r_spill_index (rec_at q i) \<noteq> LOGGER_QUEUE_SPILL_NONE}"
  let ?f = "\<lambda>i. unat (r_spill_index (rec_at q i))"
  have r: "records_ok q" "bitmap_ok q LOGGER_QUEUE_SPILL_NONE" "unat (q_spill_cap q) \<le> 1024"
    using inv by (auto simp: queue_inv_def queue_inv_held_def pool_shape_def)
  have inj: "inj_on ?f ?S" using r(1) by (auto simp: inj_on_def records_ok_def word_unat_eq_iff [symmetric])
  have img: "?f ` ?S = {k. k < unat (q_spill_cap q) \<and> spill_bit q k}"
  proof (intro subset_antisym subsetI)
    fix k assume "k \<in> ?f ` ?S"
    then obtain i where "k = ?f i" "i < queue_len q" "?f i < unat (q_spill_cap q)" using r(1) by (auto simp: records_ok_def)
    then show "k \<in> {k. k < unat (q_spill_cap q) \<and> spill_bit q k}" using r(2,3) by (auto simp: bitmap_ok_def)
  next
    fix k assume k: "k \<in> {k. k < unat (q_spill_cap q) \<and> spill_bit q k}"
    then have "k < 1024" using r(3) by simp
    moreover from this have "unat LOGGER_QUEUE_SPILL_NONE \<noteq> k" unfolding unat_NONE by simp
    ultimately obtain i where i: "i < queue_len q" "?f i = k" using k r(2) unfolding bitmap_ok_def by blast
    then have "r_spill_index (rec_at q i) \<noteq> LOGGER_QUEUE_SPILL_NONE" using \<open>unat LOGGER_QUEUE_SPILL_NONE \<noteq> k\<close> by metis
    then show "k \<in> ?f ` ?S" using i by blast
  qed
  have "card {k. k < unat (q_spill_cap q) \<and> spill_bit q k} = card ?S"
    using card_image [OF inj] unfolding img .
  also have "?S = set (filter (\<lambda>i. r_spill_index (rec_at q i) \<noteq> LOGGER_QUEUE_SPILL_NONE) [0..<queue_len q])" by auto
  also have "card \<dots> = spilled_count q" unfolding spilled_count_def by (rule distinct_card) simp
  finally show ?thesis .
qed

lemma spilled_count_le: "spilled_count q \<le> queue_len q"
  unfolding spilled_count_def by (metis diff_zero length_filter_le length_upt)

text \<open>A word of the bitmap contributes its valid bits, and the words partition the blocks.\<close>

lemma popcount_word:
  assumes p: "pool_shape q" and w: "w < spill_words q"
  shows "popcount (q_spill_used q ! w AND spill_valid_mask (q_spill_cap q) w) =
     card {k. k < unat (q_spill_cap q) \<and> spill_bit q k \<and> k div 32 = w}"
proof -
  let ?S = "{b. b < 32 \<and> bit (q_spill_used q ! w AND spill_valid_mask (q_spill_cap q) w) b}"
  have v: "bit (spill_valid_mask (q_spill_cap q) w) b \<longleftrightarrow> w * 32 + b < unat (q_spill_cap q)" if "b < 32" for b
    using bit_spill_valid_mask [OF _ spill_word_start [OF p w] that] p by (simp add: pool_shape_def)
  have img: "(\<lambda>b. w * 32 + b) ` ?S = {k. k < unat (q_spill_cap q) \<and> spill_bit q k \<and> k div 32 = w}"
  proof (intro subset_antisym subsetI)
    fix k assume "k \<in> (\<lambda>b. w * 32 + b) ` ?S"
    then show "k \<in> {k. k < unat (q_spill_cap q) \<and> spill_bit q k \<and> k div 32 = w}"
      using v by (auto simp: bit_and_iff spill_bit_def)
  next
    fix k assume k: "k \<in> {k. k < unat (q_spill_cap q) \<and> spill_bit q k \<and> k div 32 = w}"
    then have "w * 32 + k mod 32 = k" by (metis (mono_tags, lifting) div_mult_mod_eq mem_Collect_eq)
    moreover have "k mod 32 \<in> ?S" using k v [of "k mod 32"] calculation by (auto simp: bit_and_iff spill_bit_def)
    ultimately show "k \<in> (\<lambda>b. w * 32 + b) ` ?S" by (metis (no_types, lifting) image_eqI)
  qed
  have "inj_on (\<lambda>b. w * 32 + b) ?S" by (simp add: inj_on_def)
  from card_image [OF this] show ?thesis unfolding img popcount_card by simp
qed

lemma words_partition:
  assumes p: "pool_shape q"
  shows "(\<Sum>w\<in>{..<spill_words q}. card {k. k < unat (q_spill_cap q) \<and> spill_bit q k \<and> k div 32 = w})
       = card {k. k < unat (q_spill_cap q) \<and> spill_bit q k}"
proof -
  let ?P = "\<lambda>w. {k. k < unat (q_spill_cap q) \<and> spill_bit q k \<and> k div 32 = w}"
  have "{k. k < unat (q_spill_cap q) \<and> spill_bit q k} = (\<Union>w\<in>{..<spill_words q}. ?P w)"
    using spill_word_of [OF p] by auto
  moreover have "card (\<Union>w\<in>{..<spill_words q}. ?P w) = (\<Sum>w\<in>{..<spill_words q}. card (?P w))"
    by (intro card_UN_disjoint) auto
  ultimately show ?thesis by simp
qed

lemma spill_in_use_eq:
  assumes inv: "queue_inv q"
  shows "logger_queue_spill_in_use (Some q) = spilled_count q"
proof -
  have p: "pool_shape q" using inv by (simp add: queue_inv_def queue_inv_held_def)
  have "sum_list (map (\<lambda>w. popcount (q_spill_used q ! w AND spill_valid_mask (q_spill_cap q) w)) [0..<spill_words q])
      = (\<Sum>w\<in>{..<spill_words q}. card {k. k < unat (q_spill_cap q) \<and> spill_bit q k \<and> k div 32 = w})"
    using popcount_word [OF p] by (simp add: interv_sum_list_conv_sum_set_nat atLeast0LessThan)
  also have "\<dots> = spilled_count q" unfolding words_partition [OF p] by (rule spill_bits_card [OF inv])
  finally have "sum_list (map (\<lambda>w. popcount (q_spill_used q ! w AND spill_valid_mask (q_spill_cap q) w))
      [0..<spill_words q]) = spilled_count q" .
  moreover have "spilled_count q \<le> unat (q_spill_cap q)"
    unfolding spill_bits_card [OF inv, symmetric] by (rule order_trans [OF card_mono [of "{..<unat (q_spill_cap q)}"]]) auto
  ultimately show ?thesis by (simp add: logger_queue_spill_in_use_def)
qed

lemma depth_eq:
  assumes "queue_inv q"
  shows "unat (logger_queue_depth q) = length (queue_contents q)"
  using inv_cap [of q LOGGER_QUEUE_SPILL_NONE] assms
  by (auto simp: logger_queue_depth_def Let_def queue_inv_def queue_len_def queue_contents_def word_less_nat_alt)

text \<open>A block is free whenever fewer than \<open>spill_cap\<close> records are queued.\<close>

lemma block_free:
  assumes inv: "queue_inv q" and lt: "queue_len q < unat (q_spill_cap q)"
  shows "\<not> (\<forall>i<unat (q_spill_cap q). spill_bit q i)"
proof
  assume "\<forall>i<unat (q_spill_cap q). spill_bit q i"
  then have "{k. k < unat (q_spill_cap q) \<and> spill_bit q k} = {..<unat (q_spill_cap q)}" by auto
  then have "spilled_count q = unat (q_spill_cap q)" using spill_bits_card [OF inv] by simp
  then show False using spilled_count_le [of q] lt by simp
qed

end
