(* ===== verification/Logger_Queue_Props.thy ===== *)
theory Logger_Queue_Props
  imports Logger_Queue_Spec
begin

text \<open>
  The properties of the record queue: its construction, the life of a record from the
  producer's message to the consumer's, first-in first-out delivery, the exact reasons for
  a refusal, and the observers. The witnesses run a queue of capacity four.
\<close>

section \<open>Sample data\<close>

definition ready_env :: queue_init_env where
  "ready_env = \<lparr>ie_slots = None, ie_spills = None, ie_mutex_init = 0, ie_cond_init = 0, ie_mutex_destroy = 0\<rparr>"

definition quiet_env :: queue_env where
  "quiet_env = \<lparr>qe_lock = 0, qe_meanwhile = id, qe_signal = 0, qe_unlock = 0\<rparr>"

definition sample_tls :: spill_tls where
  "sample_tls = \<lparr>tls_address = 4096, spill_probe_cursor = 0\<rparr>"

definition sample_message :: "string \<Rightarrow> logger_message" where
  "sample_message t = \<lparr>m_level = LOGGER_INFO, m_ts = \<lparr>tv_sec = 0, tv_nsec = 0\<rparr>, m_pid = 7, m_tid = 7,
     m_file = Some ''src/main.c'', m_func = Some ''main'', m_module = Some ''net'', m_line = 12,
     m_metadata_mask = 7, m_request_id = replicate 64 NUL, m_session_id = replicate 64 NUL,
     m_trace_id = replicate 64 NUL, m_text_len = of_nat (length t),
     m_text = t @ replicate (LOGGER_MESSAGE_MAX - length t) NUL, m_module_storage = replicate 128 NUL,
     m_file_storage = replicate 256 NUL, m_function_storage = replicate 128 NUL\<rparr>"

definition sample_queue :: logger_queue where
  "sample_queue = snd (snd (logger_queue_init ready_env 3))"

lemma ready_env_ok [simp]: "init_env_ok ready_env"
  by (simp add: init_env_ok_def ready_env_def)

lemma quiet_env_calm [simp]: "calm quiet_env"
  by (simp add: calm_def quiet_env_def ring_eq_def)

lemma sample_message_ok [simp]:
  "length t \<le> LOGGER_MESSAGE_MAX \<Longrightarrow> message_ok (sample_message t)"
  "length t \<le> LOGGER_MESSAGE_MAX \<Longrightarrow> message_wf (sample_message t)"
  by (simp_all add: message_ok_def message_wf_def labels_ok_def nul_free_def sample_message_def)

lemma sample_queue_facts [simp]:
  "queue_inv sample_queue" "queue_contents sample_queue = []" "q_cap sample_queue = 4"
proof -
  obtain q where q: "logger_queue_init ready_env 3 = (0, 0, q)" "queue_inv q" "queue_contents q = []"
    "queue_capacity 3 = Inr (q_cap q)"
    using init_result [of 3 ready_env] by auto
  have "queue_capacity 3 = Inr 4"
    by (simp add: queue_capacity_def queue_capacity_loop.simps [of 2] queue_capacity_loop.simps [of 4])
  then show "queue_inv sample_queue" "queue_contents sample_queue = []" "q_cap sample_queue = 4"
    using q by (simp_all add: sample_queue_def)
qed

lemma sample_length [simp]: "logger_record_text_length (sample_message ''hello'') = 5"
  by (simp add: logger_record_text_length_def sample_message_def)

section \<open>Construction\<close>

text \<open>C6. \<^verbatim>\<open>logger_queue_init\<close> succeeds exactly when the requested capacity is at most \<open>2 ^ 53\<close>
  and no call fails; then the queue is empty and satisfies its invariant, its capacity is the
  least power of two that is at least two and at least the request, and the reported storage
  is the exact sum of slots and spill blocks, without wrap-around.\<close>

theorem queue_init_correct:
  assumes "logger_queue_init env requested = (rc, e, q)"
  shows "(rc = 0 \<longleftrightarrow> unat requested \<le> 2 ^ 53 \<and> init_env_ok env) \<and>
    (rc = 0 \<longrightarrow> queue_inv q \<and> queue_contents q = [] \<and>
       (\<exists>k. unat (q_cap q) = 2 ^ k) \<and> max 2 (unat requested) \<le> unat (q_cap q) \<and>
       unat (q_cap q) < 2 * max 2 (unat requested) \<and>
       unat (q_storage_bytes q) = unat (q_cap q) * 1272 + min (unat (q_cap q)) 1024 * 4096)"
proof (cases "unat requested \<le> 2 ^ 53 \<and> init_env_ok env")
  case True
  then obtain q0 where i: "logger_queue_init env requested = (0, 0, q0)" "queue_inv q0" "queue_contents q0 = []"
    "queue_capacity requested = Inr (q_cap q0)" "q_spill_cap q0 = queue_spill_capacity (q_cap q0)"
    "unat (q_storage_bytes q0) = unat (q_cap q0) * 1272 + unat (q_spill_cap q0) * 4096"
    using init_result by blast
  then have "q0 = q" "rc = 0" using assms by simp_all
  then show ?thesis using i True queue_capacity_Inr [OF i(4)] by (auto simp: unat_spill_capacity)
next
  case False
  then show ?thesis using init_failure [OF False assms] by simp
qed

theorem queue_init_correct_witness:
  "logger_queue_init ready_env 3 = (0, 0, sample_queue) \<and> max 2 (unat (3 :: size_t)) \<le> unat (q_cap sample_queue) \<and>
   unat (q_storage_bytes sample_queue) = 4 * 1272 + 4 * 4096"
proof -
  obtain rc e where i: "logger_queue_init ready_env 3 = (rc, e, sample_queue)"
    unfolding sample_queue_def by (metis prod.collapse)
  note P = queue_init_correct [OF i]
  have "rc = 0" using P by simp
  moreover have "e = 0" using init_result [of 3 ready_env] i by auto
  ultimately show ?thesis using P i by simp
qed

section \<open>One record\<close>

text \<open>C5. A record packed into a slot and unpacked by the consumer carries the producer's level,
  time, identifiers, line and text unchanged, for texts kept in the slot and for texts moved
  to a spill block, the correlation context and the labels its capture mask selected, and each
  label shortened with a tilde exactly when it exceeds its storage.\<close>

theorem queue_record_roundtrip:
  assumes "record_shape d" "message_ok m" "logger_record_text_length m \<noteq> LOGGER_MESSAGE_MAX"
    and "text_placed q m (logger_record_text_length m) idx" and "message_wf out"
  shows "message_view (queue_record_unpack q (queue_record_pack d m (logger_record_text_length m) idx) out)
           = queued_view m \<and>
         message_wf (queue_record_unpack q (queue_record_pack d m (logger_record_text_length m) idx) out)"
proof -
  have m: "message_wf m" "labels_ok m" using assms(2) by (auto simp: message_ok_def)
  note P = pack_correct [OF assms(1) m refl assms(3,4)]
  show ?thesis using unpack_view [OF P(1,2) assms(5)] unpack_message_wf [OF P(1,2) assms(5)] P(3) by simp
qed

theorem queue_record_roundtrip_witness:
  "v_text (message_view (queue_record_unpack sample_queue
      (queue_record_pack zero_record (sample_message ''hello'') 5 LOGGER_QUEUE_SPILL_NONE) (sample_message []))) = ''hello'' \<and>
   v_file (message_view (queue_record_unpack sample_queue
      (queue_record_pack zero_record (sample_message ''hello'') 5 LOGGER_QUEUE_SPILL_NONE) (sample_message []))) = ''main.c''"
proof -
  have "record_shape zero_record" by (simp add: record_shape_def zero_record_def)
  moreover have "text_placed sample_queue (sample_message ''hello'') 5 LOGGER_QUEUE_SPILL_NONE"
    by (simp add: text_placed_def)
  ultimately have "message_view (queue_record_unpack sample_queue
      (queue_record_pack zero_record (sample_message ''hello'') 5 LOGGER_QUEUE_SPILL_NONE) (sample_message []))
      = queued_view (sample_message ''hello'')"
    using queue_record_roundtrip [of zero_record "sample_message ''hello''" sample_queue LOGGER_QUEUE_SPILL_NONE "sample_message []"]
    by simp
  then show ?thesis
    by (simp add: queued_view_def Let_def) (simp add: sample_message_def logger_basename_def short_label_def)
qed

section \<open>First in, first out\<close>

text \<open>C2. \<^verbatim>\<open>logger_queue_push\<close> always returns. It refuses a message exactly when the text has no
  terminator, the ring is full, or the text is long and no spill block is free; a refusal
  returns 0 and changes nothing a consumer can see. Otherwise it returns a nonzero code and
  the record is appended to the contents. The invariant and the capacity are kept.\<close>

theorem queue_push_correct:
  assumes "calm env" "queue_inv q" "message_ok m"
  shows "\<exists>rc q' tls'. logger_queue_push env tls q m = Some (rc, q', tls') \<and> queue_inv q' \<and> q_cap q' = q_cap q \<and>
     (if refuses q m then rc = 0 \<and> queue_contents q' = queue_contents q
      else rc \<noteq> 0 \<and> queue_contents q' = queue_contents q @ [queued_view m])"
  by (rule push_correct [OF assms])

lemma sample_not_refused: "\<not> refuses sample_queue (sample_message ''hello'')"
proof -
  have "length (queue_contents sample_queue) = 0" by simp
  then have "queue_len sample_queue = 0" by (simp only: queue_contents_def length_map length_upt diff_zero)
  then show ?thesis by (simp add: refuses_def)
qed

theorem queue_push_correct_witness:
  "\<exists>rc q' tls'. logger_queue_push quiet_env sample_tls sample_queue (sample_message ''hello'') = Some (rc, q', tls') \<and>
     rc \<noteq> 0 \<and> queue_contents q' = [queued_view (sample_message ''hello'')]"
  using queue_push_correct [of quiet_env sample_queue "sample_message ''hello''" sample_tls] sample_not_refused
  by auto

text \<open>C3. \<^verbatim>\<open>logger_queue_try_pop\<close> returns 0 and touches nothing when the queue is empty; otherwise it
  delivers the oldest record into the caller's message, removes exactly that record, and keeps
  the invariant, the spill block of the record included.\<close>

theorem queue_pop_correct:
  assumes "queue_inv q" "message_wf out"
  shows "case queue_contents q of
      [] \<Rightarrow> logger_queue_try_pop q out = (0, q, out)
    | v # vs \<Rightarrow> \<exists>q' m. logger_queue_try_pop q out = (1, q', m) \<and> queue_inv q' \<and> queue_contents q' = vs \<and>
        message_view m = v \<and> message_wf m"
proof (cases "queue_contents q")
  case Nil
  then show ?thesis using try_pop_correct(1) [OF assms] by simp
next
  case (Cons v vs)
  then show ?thesis using try_pop_correct(2) [OF assms Cons] by simp
qed

theorem queue_pop_correct_witness:
  "logger_queue_try_pop sample_queue (sample_message []) = (0, sample_queue, sample_message [])"
  using queue_pop_correct [of sample_queue "sample_message []"] by simp

text \<open>C1. Any sequence of pushes and pops on a fresh queue returns, and delivers the accepted
  records in the order of acceptance: what was popped is a prefix of what was accepted, with no
  loss and no duplicate, and what is still queued is the rest, at most the capacity.\<close>

theorem queue_run_fifo:
  assumes "logger_queue_init env requested = (0, e, q)" and "list_all ring.op_ok ops"
  shows "\<exists>q' acc out. fifo_run ring_offer ring_take request_view q ops = Some (q', acc, out) \<and> queue_inv q' \<and>
     acc = out @ queue_contents q' \<and> length acc \<le> length out + unat (q_cap q)"
proof -
  have q: "queue_inv q" "queue_contents q = []"
    using init_failure [OF _ assms(1)] init_result [of requested env] assms(1) by auto
  obtain q' acc out where r: "fifo_run ring_offer ring_take request_view q ops = Some (q', acc, out)" "queue_inv q'"
    "unat (q_cap q') = unat (q_cap q)" "queue_contents q @ acc = out @ queue_contents q'"
    using ring.run_fifo [OF q(1) assms(2)] by blast
  then have "acc = out @ queue_contents q'" using q(2) by simp
  then show ?thesis using r ring.bounded [OF r(2)] by simp
qed

theorem queue_run_fifo_witness:
  "\<exists>q' acc out. fifo_run ring_offer ring_take request_view sample_queue
     [Offer (quiet_env, sample_tls, sample_message ''hello''), Take (sample_message [])] = Some (q', acc, out) \<and>
     acc = out @ queue_contents q'"
proof -
  obtain e where "logger_queue_init ready_env 3 = (0, e, sample_queue)"
    using init_result [of 3 ready_env] by (auto simp: sample_queue_def)
  then show ?thesis
    using queue_run_fifo [of ready_env 3 e sample_queue
        "[Offer (quiet_env, sample_tls, sample_message ''hello''), Take (sample_message [])]"]
    by (auto simp: ring.op_ok_def request_ok_def)
qed

lemma drain_correct:
  assumes "queue_inv q" "list_all message_wf ms" "logger_queue_drain q ms = (q', out)"
  shows "queue_inv q' \<and> map message_view out = take (length ms) (queue_contents q) \<and>
     queue_contents q' = drop (length ms) (queue_contents q)"
  using assms
proof (induction q ms arbitrary: q' out rule: logger_queue_drain.induct)
  case (1 q)
  then show ?case by simp
next
  case (2 q m ms)
  have wf: "message_wf m" using "2.prems" by simp
  show ?case
  proof (cases "queue_contents q")
    case Nil
    then show ?thesis using try_pop_correct(1) [OF "2.prems"(1) wf Nil] "2.prems" by simp
  next
    case (Cons v vs)
    obtain q1 m1 where p: "logger_queue_try_pop q m = (1, q1, m1)" "queue_inv q1" "queue_contents q1 = vs" "message_view m1 = v"
      using try_pop_correct(2) [OF "2.prems"(1) wf Cons] by blast
    obtain q2 out2 where d: "logger_queue_drain q1 ms = (q2, out2)" by fastforce
    then show ?thesis using "2.IH" [OF p(1) [symmetric] refl _ p(2) _ d] "2.prems" p d Cons by auto
  qed
qed

text \<open>C4. \<^verbatim>\<open>logger_queue_drain\<close> moves the oldest records, in order, as many as the batch has room for
  or the queue holds, and leaves the others.\<close>

theorem queue_drain_in_order:
  assumes "queue_inv q" "list_all message_wf batch" "logger_queue_drain q batch = (q', out)"
  shows "queue_inv q' \<and> map message_view out = take (length batch) (queue_contents q) \<and>
     queue_contents q' = drop (length batch) (queue_contents q)"
  by (rule drain_correct [OF assms])

theorem queue_drain_in_order_witness:
  "\<exists>q' out. logger_queue_drain sample_queue [sample_message [], sample_message []] = (q', out) \<and> out = [] \<and> queue_inv q'"
proof -
  obtain q' out where d: "logger_queue_drain sample_queue [sample_message [], sample_message []] = (q', out)" by fastforce
  then show ?thesis using queue_drain_in_order [OF _ _ d] by simp
qed

text \<open>In a queue of at most 1024 slots there is a spill block for every slot: a terminated message
  is refused only when the ring is full, however long its text is.\<close>

theorem small_queue_refuses_only_when_full:
  assumes "logger_queue_init env requested = (0, e, q0)" "unat (q_cap q0) \<le> 1024"
    and "queue_inv q" "q_cap q = q_cap q0" "q_spill_cap q = q_spill_cap q0"
    and "logger_record_text_length m \<noteq> LOGGER_MESSAGE_MAX"
  shows "refuses q m \<longleftrightarrow> length (queue_contents q) = unat (q_cap q)"
proof -
  have "q_spill_cap q0 = queue_spill_capacity (q_cap q0)"
    using init_failure [OF _ assms(1)] init_result [of requested env] assms(1) by auto
  then have "unat (q_spill_cap q) = unat (q_cap q)" using assms by (simp add: unat_spill_capacity)
  then have "\<not> (\<forall>i<unat (q_spill_cap q). spill_bit q i)" if "queue_len q \<noteq> unat (q_cap q)"
    using block_free [OF assms(3)] inv_cap [of q LOGGER_QUEUE_SPILL_NONE] assms(3) that
    by (auto simp: queue_inv_def)
  then show ?thesis using assms(6) by (auto simp: refuses_def queue_contents_def)
qed

theorem small_queue_refuses_only_when_full_witness:
  "\<not> refuses sample_queue (sample_message ''hello'')"
proof -
  obtain e where "logger_queue_init ready_env 3 = (0, e, sample_queue)"
    using init_result [of 3 ready_env] by (auto simp: sample_queue_def)
  from small_queue_refuses_only_when_full [OF this, of sample_queue "sample_message ''hello''"] show ?thesis by simp
qed

lemma empty_iff_contents:
  assumes "queue_inv q"
  shows "logger_queue_empty q \<longleftrightarrow> queue_contents q = []"
proof -
  have "queue_inv_held q LOGGER_QUEUE_SPILL_NONE" using assms by (simp add: queue_inv_def)
  then show ?thesis using front_seq by (auto simp: logger_queue_empty_def queue_contents_def)
qed

text \<open>The observers are exact on a quiet queue: the depth is the number of queued records, the
  empty test holds exactly at depth 0, and the blocks in use are as many as the queued records
  with a spilled text: none leaks, none is shared.\<close>

theorem queue_observers_exact:
  assumes "queue_inv q"
  shows "unat (logger_queue_depth q) = length (queue_contents q) \<and>
     (logger_queue_empty q \<longleftrightarrow> queue_contents q = []) \<and>
     logger_queue_spill_in_use (Some q) = spilled_count q"
  using assms empty_iff_contents [OF assms] depth_eq [OF assms] spill_in_use_eq [OF assms] by simp

theorem queue_observers_exact_witness: "unat (logger_queue_depth sample_queue) = 0 \<and> logger_queue_empty sample_queue"
  using queue_observers_exact [of sample_queue] by simp

end
