(* ===== verification/Logger_Mpsc.thy ===== *)
theory Logger_Mpsc
  imports Logger_Queue_Size
begin

text \<open>
  The interleavings of \<^verbatim>\<open>logger_queue_push\<close> (any number of producers) and
  \<^verbatim>\<open>logger_queue_try_pop\<close> (one consumer), one step per atomic access. The slot's record is
  an opaque payload here (its packing is the subject of \<open>Logger_Queue_Record\<close>); a
  position is a machine word that wraps around. Atomics are sequentially consistent.

  Ghost state: \<open>c_hist\<close> lists the payloads in the order of the successful
  compare-and-exchanges, \<open>c_out\<close> the payloads delivered, and a producer remembers how many
  reservations there had been when it loaded its position. One premise is physical: between
  that load and the success of its compare-and-exchange fewer than \<open>2 ^ 64\<close> reservations
  happen (otherwise the position would have wrapped to the same word).
\<close>

section \<open>State\<close>

datatype 'm producer =
    PIdle
  | PLoad 'm
  | PLoop 'm size_t nat
  | PCas 'm size_t nat
  | PReserved 'm size_t nat
  | PPacked 'm size_t nat

datatype 'm consumer = CIdle | CReading size_t | CCopied size_t 'm | CReleased size_t

record 'm mpsc =
  c_cap :: size_t
  c_seq :: "nat \<Rightarrow> size_t"
  c_rec :: "nat \<Rightarrow> 'm"
  c_enq :: size_t
  c_deq :: size_t
  c_prod :: "nat \<Rightarrow> 'm producer"
  c_cons :: "'m consumer"
  c_hist :: "'m list"
  c_out :: "'m list"

definition cslot :: "'m mpsc \<Rightarrow> size_t \<Rightarrow> nat" where
  "cslot s pos = unat (pos AND (c_cap s - 1))"

definition mpsc_init :: "size_t \<Rightarrow> 'm \<Rightarrow> 'm mpsc" where
  "mpsc_init cap junk = \<lparr>c_cap = cap, c_seq = of_nat, c_rec = (\<lambda>_. junk), c_enq = 0, c_deq = 0,
     c_prod = (\<lambda>_. PIdle), c_cons = CIdle, c_hist = [], c_out = []\<rparr>"

section \<open>Steps\<close>

inductive mpsc_step :: "'m mpsc \<Rightarrow> 'm mpsc \<Rightarrow> bool" where
  begin_push: "c_prod s i = PIdle \<Longrightarrow> mpsc_step s (s\<lparr>c_prod := (c_prod s)(i := PLoad m)\<rparr>)"
| load_pos: "c_prod s i = PLoad m \<Longrightarrow>
    mpsc_step s (s\<lparr>c_prod := (c_prod s)(i := PLoop m (c_enq s) (length (c_hist s)))\<rparr>)"
| seq_free: "c_prod s i = PLoop m pos g \<Longrightarrow> c_seq s (cslot s pos) - pos = 0 \<Longrightarrow>
    mpsc_step s (s\<lparr>c_prod := (c_prod s)(i := PCas m pos g)\<rparr>)"
| seq_full: "c_prod s i = PLoop m pos g \<Longrightarrow> SIZE_MAX div 2 < c_seq s (cslot s pos) - pos \<Longrightarrow>
    mpsc_step s (s\<lparr>c_prod := (c_prod s)(i := PIdle)\<rparr>)"
| seq_taken: "c_prod s i = PLoop m pos g \<Longrightarrow> c_seq s (cslot s pos) - pos \<noteq> 0 \<Longrightarrow>
    \<not> SIZE_MAX div 2 < c_seq s (cslot s pos) - pos \<Longrightarrow>
    mpsc_step s (s\<lparr>c_prod := (c_prod s)(i := PLoad m)\<rparr>)"
| cas_ok: "c_prod s i = PCas m pos g \<Longrightarrow> c_enq s = pos \<Longrightarrow> length (c_hist s) < g + 2 ^ 64 \<Longrightarrow>
    mpsc_step s (s\<lparr>c_enq := pos + 1, c_hist := c_hist s @ [m],
                   c_prod := (c_prod s)(i := PReserved m pos (length (c_hist s)))\<rparr>)"
| cas_fail: "c_prod s i = PCas m pos g \<Longrightarrow>
    mpsc_step s (s\<lparr>c_prod := (c_prod s)(i := PLoop m (c_enq s) (length (c_hist s)))\<rparr>)"
| write_record: "c_prod s i = PReserved m pos p \<Longrightarrow>
    mpsc_step s (s\<lparr>c_rec := (c_rec s)(cslot s pos := m), c_prod := (c_prod s)(i := PPacked m pos p)\<rparr>)"
| publish: "c_prod s i = PPacked m pos p \<Longrightarrow>
    mpsc_step s (s\<lparr>c_seq := (c_seq s)(cslot s pos := pos + 1), c_prod := (c_prod s)(i := PIdle)\<rparr>)"
| pop_seen: "c_cons s = CIdle \<Longrightarrow> c_seq s (cslot s (c_deq s)) = c_deq s + 1 \<Longrightarrow>
    mpsc_step s (s\<lparr>c_cons := CReading (c_deq s)\<rparr>)"
| pop_copy: "c_cons s = CReading pos \<Longrightarrow> mpsc_step s (s\<lparr>c_cons := CCopied pos (c_rec s (cslot s pos))\<rparr>)"
| pop_release: "c_cons s = CCopied pos m \<Longrightarrow>
    mpsc_step s (s\<lparr>c_seq := (c_seq s)(cslot s pos := pos + c_cap s), c_cons := CReleased pos,
                   c_out := c_out s @ [m]\<rparr>)"
| pop_advance: "c_cons s = CReleased pos \<Longrightarrow> mpsc_step s (s\<lparr>c_deq := pos + 1, c_cons := CIdle\<rparr>)"

section \<open>The invariant\<close>

text \<open>The position a producer owns between its reservation and its publication.\<close>

fun owned :: "'m producer \<Rightarrow> nat option" where
  "owned (PReserved m pos p) = Some p"
| "owned (PPacked m pos p) = Some p"
| "owned _ = None"

definition pending :: "'m mpsc \<Rightarrow> nat set" where
  "pending s = {p. \<exists>i. owned (c_prod s i) = Some p}"

text \<open>\<open>E\<close> positions have been reserved and \<open>R\<close> released.\<close>

definition window_ok :: "'m mpsc \<Rightarrow> bool" where
  "window_ok s \<longleftrightarrow> length (c_out s) \<le> length (c_hist s) \<and>
     length (c_hist s) \<le> length (c_out s) + unat (c_cap s) \<and>
     c_out s = take (length (c_out s)) (c_hist s) \<and> c_enq s = of_nat (length (c_hist s))"

definition cseq_ok :: "'m mpsc \<Rightarrow> bool" where
  "cseq_ok s \<longleftrightarrow> (\<forall>p. length (c_out s) \<le> p \<and> p < length (c_out s) + unat (c_cap s) \<longrightarrow>
     c_seq s (p mod unat (c_cap s)) =
       (if p < length (c_hist s) \<and> p \<notin> pending s then of_nat p + 1 else of_nat p))"

definition crec_ok :: "'m mpsc \<Rightarrow> bool" where
  "crec_ok s \<longleftrightarrow> (\<forall>p. length (c_out s) \<le> p \<and> p < length (c_hist s) \<and> p \<notin> pending s \<longrightarrow>
     c_rec s (p mod unat (c_cap s)) = c_hist s ! p)"

fun producer_ok :: "'m mpsc \<Rightarrow> 'm producer \<Rightarrow> bool" where
  "producer_ok s PIdle = True"
| "producer_ok s (PLoad m) = True"
| "producer_ok s (PLoop m pos g) = (pos = of_nat g \<and> g \<le> length (c_hist s))"
| "producer_ok s (PCas m pos g) = (pos = of_nat g \<and> g \<le> length (c_hist s) \<and> g < length (c_out s) + unat (c_cap s))"
| "producer_ok s (PReserved m pos p) =
     (pos = of_nat p \<and> length (c_out s) \<le> p \<and> p < length (c_hist s) \<and> c_hist s ! p = m)"
| "producer_ok s (PPacked m pos p) =
     (pos = of_nat p \<and> length (c_out s) \<le> p \<and> p < length (c_hist s) \<and> c_hist s ! p = m \<and>
      c_rec s (p mod unat (c_cap s)) = m)"

definition owners_ok :: "'m mpsc \<Rightarrow> bool" where
  "owners_ok s \<longleftrightarrow> (\<forall>i. producer_ok s (c_prod s i)) \<and>
     (\<forall>i j p. owned (c_prod s i) = Some p \<and> owned (c_prod s j) = Some p \<longrightarrow> i = j)"

definition front_ok :: "'m mpsc \<Rightarrow> size_t \<Rightarrow> bool" where
  "front_ok s pos \<longleftrightarrow> pos = of_nat (length (c_out s)) \<and> c_deq s = pos \<and>
     length (c_out s) < length (c_hist s) \<and> length (c_out s) \<notin> pending s"

fun consumer_at :: "'m mpsc \<Rightarrow> 'm consumer \<Rightarrow> bool" where
  "consumer_at s CIdle = (c_deq s = of_nat (length (c_out s)))"
| "consumer_at s (CReading pos) = front_ok s pos"
| "consumer_at s (CCopied pos m) = (front_ok s pos \<and> m = c_hist s ! length (c_out s))"
| "consumer_at s (CReleased pos) = (pos + 1 = of_nat (length (c_out s)) \<and> c_deq s = pos)"

definition consumer_ok :: "'m mpsc \<Rightarrow> bool" where
  "consumer_ok s \<longleftrightarrow> consumer_at s (c_cons s)"

definition cap_ok :: "'m mpsc \<Rightarrow> bool" where
  "cap_ok s \<longleftrightarrow> (\<exists>k. 1 \<le> k \<and> k \<le> 53 \<and> unat (c_cap s) = 2 ^ k)"

definition mpsc_inv :: "'m mpsc \<Rightarrow> bool" where
  "mpsc_inv s \<longleftrightarrow> cap_ok s \<and> window_ok s \<and> cseq_ok s \<and> crec_ok s \<and> owners_ok s \<and> consumer_ok s"

lemmas mpsc_parts = window_ok_def cseq_ok_def crec_ok_def

lemma cap_bounds: "cap_ok s \<Longrightarrow> 2 \<le> unat (c_cap s) \<and> unat (c_cap s) \<le> 2 ^ 53"
proof -
  assume "cap_ok s"
  then obtain k where "1 \<le> k" "k \<le> 53" "unat (c_cap s) = 2 ^ k" by (auto simp: cap_ok_def)
  then show ?thesis
    using power_increasing [of 1 k "2::nat"] power_increasing [of k 53 "2::nat"] by simp
qed

lemma cslot_mod: "cap_ok s \<Longrightarrow> cslot s (of_nat p) = p mod unat (c_cap s)"
proof -
  assume "cap_ok s"
  then obtain k where k: "1 \<le> k" "k \<le> 53" "unat (c_cap s) = 2 ^ k" by (auto simp: cap_ok_def)
  have "c_cap s - 1 = mask k" using pow2_word_eq [OF k(3)] by (simp add: mask_eq_exp_minus_1)
  then have "cslot s (of_nat p) = take_bit k (take_bit 64 p)"
    by (simp add: cslot_def take_bit_eq_mask [symmetric] unsigned_take_bit_eq unsigned_of_nat)
  also have "\<dots> = take_bit k p" using k(2) unfolding take_bit_take_bit by (simp add: min_def)
  also have "\<dots> = p mod 2 ^ k" by (simp add: take_bit_eq_mod)
  finally show ?thesis using k(3) by simp
qed

text \<open>Two positions of the window in the same slot are equal.\<close>

lemma window_slot_inj:
  fixes p q R c :: nat
  assumes "p mod c = q mod c" "R \<le> p" "p < R + c" "R \<le> q" "q < R + c"
  shows "p = q"
proof -
  have "p - q < c" "q - p < c" using assms by linarith+
  moreover have "c dvd p - q" "c dvd q - p"
    using assms(1) by (metis mod_eq_dvd_iff_nat nat_le_linear diff_is_0_eq' dvd_0_right)+
  ultimately have "p - q = 0" "q - p = 0" using nat_dvd_not_less by blast+
  then show ?thesis by simp
qed

lemma word_of_nat_inj:
  assumes "(of_nat a :: size_t) = of_nat b" "a \<le> b" "b < a + 2 ^ 64"
  shows "a = b"
proof -
  have "unat (of_nat a :: size_t) = unat (of_nat b :: size_t)" using assms(1) by simp
  then have "a mod 2 ^ 64 = b mod 2 ^ 64" by (simp add: unat_of_nat)
  then have "2 ^ 64 dvd b - a" using assms(2) by (metis mod_eq_dvd_iff_nat)
  moreover have "b - a < 2 ^ 64" using assms by linarith
  ultimately show ?thesis using assms(2) nat_dvd_not_less by (metis diff_is_0_eq diff_diff_cancel gr0I diff_zero)
qed

section \<open>Every step keeps the invariant\<close>

lemma consumer_at_mono:
  assumes "consumer_at s x" "c_out s' = c_out s" "c_deq s' = c_deq s" "length (c_hist s) \<le> length (c_hist s')"
    and "length (c_out s) < length (c_hist s) \<Longrightarrow> c_hist s' ! length (c_out s) = c_hist s ! length (c_out s)"
    and "length (c_out s) < length (c_hist s) \<Longrightarrow> length (c_out s) \<notin> pending s \<Longrightarrow> length (c_out s) \<notin> pending s'"
  shows "consumer_at s' x"
  using assms by (cases x) (auto simp: front_ok_def)

lemma producer_ok_mono:
  assumes "producer_ok s x" "c_hist s' = c_hist s" "c_out s' = c_out s" "c_cap s' = c_cap s"
    and "\<And>m pos p. x = PPacked m pos p \<Longrightarrow> c_rec s' (p mod unat (c_cap s)) = c_rec s (p mod unat (c_cap s))"
  shows "producer_ok s' x"
  using assms by (cases x) auto

text \<open>A step of a producer that owns no position before or after.\<close>

lemma producer_local_step:
  assumes inv: "mpsc_inv s" and o: "owned (c_prod s i) = None" "owned x = None" and ok: "producer_ok s x"
  shows "mpsc_inv (s\<lparr>c_prod := (c_prod s)(i := x)\<rparr>)"
proof -
  let ?s = "s\<lparr>c_prod := (c_prod s)(i := x)\<rparr>"
  have ow: "owned (c_prod ?s j) = owned (c_prod s j)" for j using o by simp
  then have pe: "pending ?s = pending s" by (simp only: pending_def)
  have "producer_ok ?s (c_prod ?s j)" for j
    by (rule producer_ok_mono [of s]) (use inv ok in \<open>auto simp: mpsc_inv_def owners_ok_def\<close>)
  moreover have "\<forall>k j p. owned (c_prod s k) = Some p \<and> owned (c_prod s j) = Some p \<longrightarrow> k = j"
    using inv by (simp add: mpsc_inv_def owners_ok_def)
  ultimately have "owners_ok ?s" unfolding owners_ok_def ow by blast
  moreover have "consumer_ok ?s"
    unfolding consumer_ok_def by (rule consumer_at_mono [of s]) (use inv pe in \<open>auto simp: mpsc_inv_def consumer_ok_def\<close>)
  ultimately show ?thesis using inv pe by (simp add: mpsc_inv_def mpsc_parts cap_ok_def)
qed

text \<open>A step of the consumer that releases nothing.\<close>

lemma consumer_local_step:
  assumes inv: "mpsc_inv s" and c: "consumer_ok (s\<lparr>c_deq := d, c_cons := x\<rparr>)"
  shows "mpsc_inv (s\<lparr>c_deq := d, c_cons := x\<rparr>)"
proof -
  let ?s = "s\<lparr>c_deq := d, c_cons := x\<rparr>"
  have "pending ?s = pending s" by (simp add: pending_def)
  moreover have "producer_ok ?s (c_prod s j)" for j
    by (rule producer_ok_mono [of s]) (use inv in \<open>auto simp: mpsc_inv_def owners_ok_def\<close>)
  ultimately show ?thesis using inv c by (simp add: mpsc_inv_def mpsc_parts cap_ok_def owners_ok_def)
qed

lemma pcas_ok:
  assumes inv: "mpsc_inv s" and p: "c_prod s i = PLoop m pos g" and z: "c_seq s (cslot s pos) - pos = 0"
  shows "g < length (c_out s) + unat (c_cap s)"
proof (rule ccontr)
  let ?R = "length (c_out s)" let ?c = "unat (c_cap s)"
  assume "\<not> g < ?R + ?c"
  moreover have "pos = of_nat g" "g \<le> length (c_hist s)" "length (c_hist s) \<le> ?R + ?c"
    using inv p by (auto simp: mpsc_inv_def owners_ok_def window_ok_def dest!: spec [of _ i])
  ultimately have g: "g = ?R + ?c" and pos: "pos = of_nat g" by auto
  have c: "2 \<le> ?c" "?c \<le> 2 ^ 53" "cap_ok s" using inv cap_bounds by (auto simp: mpsc_inv_def)
  have "c_seq s (?R mod ?c) = of_nat (?R + ?c)"
    using z pos cslot_mod [OF c(3), of g] unfolding g by simp
  moreover have "c_seq s (?R mod ?c) = of_nat ?R + 1 \<or> c_seq s (?R mod ?c) = of_nat ?R"
    using inv c unfolding mpsc_inv_def cseq_ok_def by (metis add_strict_left_mono order_refl gr0I not_numeral_le_zero add.right_neutral)
  ultimately have "(of_nat (?R + 1) :: size_t) = of_nat (?R + ?c) \<or> (of_nat ?R :: size_t) = of_nat (?R + ?c)"
    by (auto simp: add.commute)
  then show False using word_of_nat_inj [of "?R + 1" "?R + ?c"] word_of_nat_inj [of ?R "?R + ?c"] c by auto
qed

lemma cas_step:
  assumes inv: "mpsc_inv s" and p: "c_prod s i = PCas m pos g" and e: "c_enq s = pos" "length (c_hist s) < g + 2 ^ 64"
  shows "mpsc_inv (s\<lparr>c_enq := pos + 1, c_hist := c_hist s @ [m],
                   c_prod := (c_prod s)(i := PReserved m pos (length (c_hist s)))\<rparr>)" (is "mpsc_inv ?s")
proof -
  let ?E = "length (c_hist s)"
  have W: "window_ok s" "cseq_ok s" "crec_ok s" "owners_ok s" "consumer_ok s" "cap_ok s" using inv by (auto simp: mpsc_inv_def)
  have pi: "pos = of_nat g" "g \<le> ?E" "g < length (c_out s) + unat (c_cap s)"
    using W(4) p by (auto simp: owners_ok_def dest!: spec [of _ i])
  have enq: "c_enq s = of_nat ?E" using W(1) by (simp add: window_ok_def)
  then have g: "g = ?E" using word_of_nat_inj [of g ?E] pi e by simp
  have pe: "pending ?s = insert ?E (pending s)"
    using p by (auto simp: pending_def split: if_splits) (metis owned.simps(6) option.distinct(1))
  have old: "j < ?E" if "owned (c_prod s k) = Some j" for j k
    using W(4) that unfolding owners_ok_def by (cases "c_prod s k") (auto dest!: spec [of _ k])
  then have new: "?E \<notin> pending s" by (auto simp: pending_def)
  have "window_ok ?s" using W(1) pi g e enq by (auto simp: window_ok_def add.commute)
  moreover have "cseq_ok ?s" using W(2) new pe by (auto simp: cseq_ok_def less_Suc_eq)
  moreover have "crec_ok ?s" using W(3) pe by (auto simp: crec_ok_def nth_append less_Suc_eq)
  moreover have "consumer_ok ?s"
    unfolding consumer_ok_def by (rule consumer_at_mono [of s]) (use W(5) pe in \<open>auto simp: consumer_ok_def nth_append\<close>)
  moreover have "owners_ok ?s"
  proof -
    have "producer_ok ?s (c_prod ?s k)" for k
    proof (cases "k = i")
      case True
      then show ?thesis using W(1) e enq by (simp add: window_ok_def)
    next
      case False
      have "producer_ok s (c_prod s k)" using W(4) by (simp add: owners_ok_def)
      then show ?thesis using False by (cases "c_prod s k") (auto simp: nth_append)
    qed
    moreover have "k = j" if "owned (c_prod ?s k) = Some q" "owned (c_prod ?s j) = Some q" for k j q
      using that W(4) old unfolding owners_ok_def by (auto split: if_splits)
    ultimately show ?thesis unfolding owners_ok_def by blast
  qed
  ultimately show ?thesis using W(6) by (simp add: mpsc_inv_def cap_ok_def)
qed

text \<open>The slots of two owned positions, and of an owned and a published one, differ.\<close>

lemma owned_window:
  assumes "mpsc_inv s" "owned (c_prod s i) = Some p"
  shows "length (c_out s) \<le> p" "p < length (c_hist s)" "p < length (c_out s) + unat (c_cap s)" "p \<in> pending s"
proof -
  have "producer_ok s (c_prod s i)" "length (c_hist s) \<le> length (c_out s) + unat (c_cap s)"
    using assms(1) by (auto simp: mpsc_inv_def owners_ok_def window_ok_def)
  then show "length (c_out s) \<le> p" "p < length (c_hist s)" "p < length (c_out s) + unat (c_cap s)"
    using assms(2) by (cases "c_prod s i"; auto)+
  show "p \<in> pending s" using assms(2) by (auto simp: pending_def)
qed

lemma slots_differ:
  assumes "mpsc_inv s" "owned (c_prod s i) = Some p" "length (c_out s) \<le> q" "q < length (c_out s) + unat (c_cap s)" "p \<noteq> q"
  shows "p mod unat (c_cap s) \<noteq> q mod unat (c_cap s)"
  using owned_window [OF assms(1,2)] assms window_slot_inj [of p "unat (c_cap s)" q "length (c_out s)"] by blast

lemma write_step:
  assumes inv: "mpsc_inv s" and p: "c_prod s i = PReserved m pos p"
  shows "mpsc_inv (s\<lparr>c_rec := (c_rec s)(cslot s pos := m), c_prod := (c_prod s)(i := PPacked m pos p)\<rparr>)"
    (is "mpsc_inv ?s")
proof -
  have W: "window_ok s" "cseq_ok s" "crec_ok s" "owners_ok s" "consumer_ok s" "cap_ok s" using inv by (auto simp: mpsc_inv_def)
  have pi: "producer_ok s (PReserved m pos p)" using W(4) p unfolding owners_ok_def by metis
  then have sl: "cslot s pos = p mod unat (c_cap s)" using cslot_mod [OF W(6)] by simp
  have o: "owned (c_prod s i) = Some p" using p by simp
  have ow: "owned (c_prod ?s j) = owned (c_prod s j)" for j using p by simp
  then have pe: "pending ?s = pending s" by (simp only: pending_def)
  have keep: "c_rec ?s (q mod unat (c_cap s)) = c_rec s (q mod unat (c_cap s))"
    if "length (c_out s) \<le> q" "q < length (c_hist s)" "q \<noteq> p" for q
    using slots_differ [OF inv o that(1)] that W(1) sl by (auto simp: window_ok_def)
  have "window_ok ?s" "cseq_ok ?s" using W pe by (auto simp: window_ok_def cseq_ok_def)
  moreover have "consumer_ok ?s"
    unfolding consumer_ok_def by (rule consumer_at_mono [of s]) (use W(5) pe in \<open>auto simp: consumer_ok_def\<close>)
  moreover have "crec_ok ?s"
  proof -
    have "c_rec ?s (q mod unat (c_cap s)) = c_hist s ! q"
      if "length (c_out s) \<le> q" "q < length (c_hist s)" "q \<notin> pending s" for q
    proof -
      have "q \<noteq> p" using that owned_window(4) [OF inv o] by auto
      then show ?thesis using keep [OF that(1,2)] W(3) that by (simp add: crec_ok_def)
    qed
    then show ?thesis by (simp add: crec_ok_def pe)
  qed
  moreover have "producer_ok ?s (c_prod ?s k)" for k
  proof (cases "k = i")
    case True
    then show ?thesis using pi sl by simp
  next
    case False
    then have "producer_ok s (c_prod ?s k)" "owned (c_prod ?s k) \<noteq> Some p"
      using W(4) o by (auto simp: owners_ok_def)
    then show ?thesis using keep by (cases "c_prod ?s k") (auto simp del: fun_upd_apply)
  qed
  moreover have "\<forall>k j p. owned (c_prod s k) = Some p \<and> owned (c_prod s j) = Some p \<longrightarrow> k = j"
    using W(4) by (simp add: owners_ok_def)
  ultimately show ?thesis using W(6) unfolding mpsc_inv_def owners_ok_def ow by (simp add: cap_ok_def)
qed

lemma publish_step:
  assumes inv: "mpsc_inv s" and p: "c_prod s i = PPacked m pos p"
  shows "mpsc_inv (s\<lparr>c_seq := (c_seq s)(cslot s pos := pos + 1), c_prod := (c_prod s)(i := PIdle)\<rparr>)" (is "mpsc_inv ?s")
proof -
  have W: "window_ok s" "cseq_ok s" "crec_ok s" "owners_ok s" "consumer_ok s" "cap_ok s" using inv by (auto simp: mpsc_inv_def)
  have pi: "producer_ok s (PPacked m pos p)" using W(4) p unfolding owners_ok_def by metis
  then have sl: "cslot s pos = p mod unat (c_cap s)" using cslot_mod [OF W(6)] by simp
  have o: "owned (c_prod s i) = Some p" using p by simp
  have uniq: "owned (c_prod s k) = Some q \<Longrightarrow> owned (c_prod s j) = Some q \<Longrightarrow> k = j" for k j q
    using W(4) unfolding owners_ok_def by blast
  have pe: "pending ?s = pending s - {p}"
    using o uniq by (auto simp: pending_def split: if_splits) (metis option.inject)
  have "window_ok ?s" using W(1) by (simp add: window_ok_def)
  moreover have "cseq_ok ?s"
  proof -
    have "c_seq ?s (q mod unat (c_cap s)) = (if q < length (c_hist s) \<and> q \<notin> pending ?s then of_nat q + 1 else of_nat q)"
      if "length (c_out s) \<le> q" "q < length (c_out s) + unat (c_cap s)" for q
    proof (cases "q = p")
      case True
      then show ?thesis using pi sl pe by simp
    next
      case False
      then have "c_seq ?s (q mod unat (c_cap s)) = c_seq s (q mod unat (c_cap s))"
        using slots_differ [OF inv o that] sl by simp
      then show ?thesis using W(2) that False pe by (simp add: cseq_ok_def)
    qed
    then show ?thesis by (simp add: cseq_ok_def)
  qed
  moreover have "crec_ok ?s" using W(3) pi pe by (auto simp: crec_ok_def)
  moreover have "consumer_ok ?s"
    unfolding consumer_ok_def by (rule consumer_at_mono [of s]) (use W(5) pe in \<open>auto simp: consumer_ok_def\<close>)
  moreover have "producer_ok ?s (c_prod ?s k)" for k
    using W(4) by (cases "k = i"; cases "c_prod s k") (auto simp: owners_ok_def dest!: spec [of _ k])
  moreover have "k = j" if "owned (c_prod ?s k) = Some q" "owned (c_prod ?s j) = Some q" for k j q
    using that uniq by (auto split: if_splits)
  ultimately have "window_ok ?s \<and> cseq_ok ?s \<and> crec_ok ?s \<and> owners_ok ?s \<and> consumer_ok ?s"
    unfolding owners_ok_def by blast
  then show ?thesis using W(6) by (simp add: mpsc_inv_def cap_ok_def)
qed

text \<open>The consumer's steps.\<close>

lemma front_published:
  assumes inv: "mpsc_inv s"
  shows "c_seq s (cslot s (of_nat (length (c_out s)))) = of_nat (length (c_out s)) + 1 \<longleftrightarrow>
         length (c_out s) < length (c_hist s) \<and> length (c_out s) \<notin> pending s"
proof -
  have c: "cap_ok s" "0 < unat (c_cap s)" using inv cap_bounds [of s] by (auto simp: mpsc_inv_def)
  then show ?thesis using inv cslot_mod [OF c(1), of "length (c_out s)"]
    by (auto simp: mpsc_inv_def cseq_ok_def dest!: spec [of _ "length (c_out s)"])
qed

lemma release_step:
  assumes inv: "mpsc_inv s" and c: "c_cons s = CCopied pos m"
  shows "mpsc_inv (s\<lparr>c_seq := (c_seq s)(cslot s pos := pos + c_cap s), c_cons := CReleased pos,
                   c_out := c_out s @ [m]\<rparr>)" (is "mpsc_inv ?s")
proof -
  let ?R = "length (c_out s)" let ?c = "unat (c_cap s)"
  have W: "window_ok s" "cseq_ok s" "crec_ok s" "owners_ok s" "consumer_ok s" "cap_ok s" using inv by (auto simp: mpsc_inv_def)
  have f: "pos = of_nat ?R" "c_deq s = pos" "?R < length (c_hist s)" "?R \<notin> pending s" "m = c_hist s ! ?R"
    using W(5) c by (auto simp: consumer_ok_def front_ok_def)
  have sl: "cslot s pos = ?R mod ?c" using f(1) cslot_mod [OF W(6)] by simp
  have cb: "2 \<le> ?c" using cap_bounds [OF W(6)] by simp
  have pe: "pending ?s = pending s" by (simp add: pending_def)
  have "window_ok ?s" using W(1) f by (auto simp: window_ok_def take_Suc_conv_app_nth)
  moreover have "cseq_ok ?s"
  proof -
    have "c_seq ?s (q mod ?c) = (if q < length (c_hist s) \<and> q \<notin> pending ?s then of_nat q + 1 else of_nat q)"
      if q: "Suc ?R \<le> q" "q < Suc ?R + ?c" for q
    proof (cases "q = ?R + ?c")
      case True
      then show ?thesis using W(1) sl f(1) by (simp add: window_ok_def)
    next
      case False
      then have "q mod ?c \<noteq> ?R mod ?c" using q window_slot_inj [of q ?c ?R ?R] cb by auto
      then have "c_seq ?s (q mod ?c) = c_seq s (q mod ?c)" using sl by simp
      then show ?thesis using W(2) q False pe by (simp add: cseq_ok_def)
    qed
    then show ?thesis by (simp add: cseq_ok_def)
  qed
  moreover have "crec_ok ?s" using W(3) pe by (simp add: crec_ok_def)
  moreover have "consumer_ok ?s" using f by (simp add: consumer_ok_def)
  moreover have "producer_ok ?s (c_prod ?s k)" for k
  proof -
    have "owned (c_prod s k) \<noteq> Some ?R" using f(4) by (auto simp: pending_def)
    then show ?thesis using W(4) by (cases "c_prod s k") (auto simp: owners_ok_def dest!: spec [of _ k])
  qed
  ultimately show ?thesis using W(4,6) by (simp add: mpsc_inv_def owners_ok_def cap_ok_def)
qed

lemma inv_producer: "mpsc_inv s \<Longrightarrow> c_prod s i = x \<Longrightarrow> producer_ok s x"
  unfolding mpsc_inv_def owners_ok_def by blast

lemma inv_enq: "mpsc_inv s \<Longrightarrow> c_enq s = of_nat (length (c_hist s))"
  by (simp add: mpsc_inv_def window_ok_def)

lemma mpsc_step_inv: "mpsc_step s s' \<Longrightarrow> mpsc_inv s \<Longrightarrow> mpsc_inv s'"
proof (induction rule: mpsc_step.induct)
  case (seq_free s i m pos g)
  have "producer_ok s (PLoop m pos g)" by (rule inv_producer [OF seq_free(3,1)])
  then show ?case using seq_free pcas_ok [OF seq_free(3,1,2)] by (intro producer_local_step) auto
next
  case (load_pos s i m)
  then show ?case using inv_enq [OF load_pos(2)] by (intro producer_local_step) auto
next
  case (cas_fail s i m pos g)
  then show ?case using inv_enq [OF cas_fail(2)] by (intro producer_local_step) auto
next
  case (cas_ok s i m pos g)
  then show ?case by (intro cas_step)
next
  case (pop_seen s)
  then have "consumer_ok (s\<lparr>c_deq := c_deq s, c_cons := CReading (c_deq s)\<rparr>)"
    using front_published [OF pop_seen(3)] by (auto simp: consumer_ok_def front_ok_def pending_def mpsc_inv_def)
  from consumer_local_step [OF pop_seen(3) this] show ?case by simp
next
  case (pop_copy s pos)
  then have f: "front_ok s pos" "cap_ok s" "crec_ok s" by (auto simp: mpsc_inv_def consumer_ok_def)
  then have "c_rec s (cslot s pos) = c_hist s ! length (c_out s)"
    using cslot_mod [OF f(2), of "length (c_out s)"] by (simp add: front_ok_def crec_ok_def)
  then have "consumer_ok (s\<lparr>c_deq := c_deq s, c_cons := CCopied pos (c_rec s (cslot s pos))\<rparr>)"
    using f by (auto simp: consumer_ok_def front_ok_def pending_def)
  from consumer_local_step [OF pop_copy(2) this] show ?case by simp
next
  case (pop_advance s pos)
  then have "consumer_ok (s\<lparr>c_deq := pos + 1, c_cons := CIdle\<rparr>)" by (auto simp: consumer_ok_def mpsc_inv_def)
  from consumer_local_step [OF pop_advance(2) this] show ?case .
qed (simp_all add: producer_local_step write_step publish_step release_step)

section \<open>Reachable states\<close>

lemma mpsc_init_inv:
  assumes "queue_capacity requested = Inr cap"
  shows "mpsc_inv (mpsc_init cap junk)"
proof -
  obtain k where k: "1 \<le> k" "k \<le> 53" "unat cap = 2 ^ k" using queue_capacity_Inr [OF assms] by blast
  then have "cap_ok (mpsc_init cap junk)" by (auto simp: cap_ok_def mpsc_init_def)
  then show ?thesis by (auto simp: mpsc_inv_def mpsc_parts owners_ok_def consumer_ok_def mpsc_init_def pending_def)
qed

lemma mpsc_cap_fixed: "mpsc_step s s' \<Longrightarrow> c_cap s' = c_cap s"
  by (induction rule: mpsc_step.induct) simp_all

lemma mpsc_reachable:
  assumes "queue_capacity requested = Inr cap" "mpsc_step\<^sup>*\<^sup>* (mpsc_init cap junk) s"
  shows "mpsc_inv s" "c_cap s = cap"
proof -
  have "mpsc_inv s \<and> c_cap s = cap"
    using assms(2)
  proof (induction rule: rtranclp_induct)
    case base
    show ?case using mpsc_init_inv [OF assms(1)] by (simp add: mpsc_init_def)
  next
    case (step y z)
    then show ?case using mpsc_step_inv mpsc_cap_fixed by metis
  qed
  then show "mpsc_inv s" "c_cap s = cap" by auto
qed

text \<open>The slot a producer writes and the slot the consumer reads.\<close>

fun writes_slot :: "'m mpsc \<Rightarrow> 'm producer \<Rightarrow> nat option" where
  "writes_slot s (PReserved m pos p) = Some (cslot s pos)"
| "writes_slot s (PPacked m pos p) = Some (cslot s pos)"
| "writes_slot s _ = None"

fun reads_slot :: "'m mpsc \<Rightarrow> 'm consumer \<Rightarrow> nat option" where
  "reads_slot s (CReading pos) = Some (cslot s pos)"
| "reads_slot s (CCopied pos m) = Some (cslot s pos)"
| "reads_slot s _ = None"

lemma writes_slot_owned:
  assumes "mpsc_inv s" "writes_slot s (c_prod s i) = Some k"
  obtains p where "owned (c_prod s i) = Some p" "k = p mod unat (c_cap s)"
proof -
  have "producer_ok s (c_prod s i)" "cap_ok s" using assms(1) inv_producer [OF assms(1)] by (auto simp: mpsc_inv_def)
  then have "\<exists>p. owned (c_prod s i) = Some p \<and> k = p mod unat (c_cap s)"
    using assms(2) cslot_mod by (cases "c_prod s i") fastforce+
  then show ?thesis using that by blast
qed

lemma reads_slot_front:
  assumes "mpsc_inv s" "reads_slot s (c_cons s) = Some k"
  shows "k = length (c_out s) mod unat (c_cap s)" "length (c_out s) \<notin> pending s"
proof -
  have "consumer_at s (c_cons s)" "cap_ok s" using assms(1) by (auto simp: mpsc_inv_def consumer_ok_def)
  then have "k = length (c_out s) mod unat (c_cap s) \<and> length (c_out s) \<notin> pending s"
    using assms(2) cslot_mod [of s "length (c_out s)"] by (cases "c_cons s") (auto simp: front_ok_def)
  then show "k = length (c_out s) mod unat (c_cap s)" "length (c_out s) \<notin> pending s" by auto
qed

lemma exclusive_slots:
  assumes inv: "mpsc_inv s" and w: "writes_slot s (c_prod s i) = Some k"
  shows "reads_slot s (c_cons s) \<noteq> Some k" and "i \<noteq> j \<Longrightarrow> writes_slot s (c_prod s j) \<noteq> Some k"
proof -
  obtain p where p: "owned (c_prod s i) = Some p" "k = p mod unat (c_cap s)" by (rule writes_slot_owned [OF inv w])
  have c: "0 < unat (c_cap s)" using inv cap_bounds [of s] by (auto simp: mpsc_inv_def)
  show "reads_slot s (c_cons s) \<noteq> Some k"
  proof
    assume r: "reads_slot s (c_cons s) = Some k"
    note R = reads_slot_front [OF inv r]
    have "p \<noteq> length (c_out s)" using R(2) p(1) by (auto simp: pending_def)
    from slots_differ [OF inv p(1) _ _ this] show False using R(1) p(2) c by simp
  qed
  show "writes_slot s (c_prod s j) \<noteq> Some k" if "i \<noteq> j"
  proof
    assume "writes_slot s (c_prod s j) = Some k"
    then obtain q where q: "owned (c_prod s j) = Some q" "k = q mod unat (c_cap s)" by (rule writes_slot_owned [OF inv])
    have "p \<noteq> q" using p(1) q(1) that inv unfolding mpsc_inv_def owners_ok_def by blast
    from slots_differ [OF inv p(1) _ _ this] show False using owned_window [OF inv q(1)] p(2) q(2) by simp
  qed
qed

text \<open>A producer that sees a difference in the upper half has found the ring full.\<close>

lemma full_when_refused:
  assumes inv: "mpsc_inv s" and p: "c_prod s i = PLoop m pos g" and d: "SIZE_MAX div 2 < c_seq s (cslot s pos) - pos"
    and near: "length (c_hist s) < g + 2 ^ 62"
  shows "length (c_hist s) = length (c_out s) + unat (c_cap s)"
proof (rule ccontr)
  let ?R = "length (c_out s)" let ?E = "length (c_hist s)" let ?c = "unat (c_cap s)"
  assume ne: "?E \<noteq> ?R + ?c"
  have g: "pos = of_nat g" "g \<le> ?E" "?E < ?R + ?c" "cap_ok s" "?R \<le> ?E"
    using inv_producer [OF inv p] inv ne by (auto simp: mpsc_inv_def window_ok_def)
  have c: "2 \<le> ?c" "?c \<le> 2 ^ 53" using cap_bounds [OF g(4)] by auto
  define q where "q = (if g < ?R then ?R + (g + ?c * ?R - ?R) mod ?c else g)"
  have q: "?R \<le> q" "q < ?R + ?c" "q mod ?c = g mod ?c" "g \<le> q"
  proof -
    have "(?R + (g + ?c * ?R - ?R) mod ?c) mod ?c = g mod ?c"
    proof -
      have "?R \<le> ?c * ?R" using c(1) by simp
      then have "?R + (g + ?c * ?R - ?R) = g + ?c * ?R" by linarith
      then show ?thesis by (metis mod_add_right_eq mod_mult_self2)
    qed
    moreover have "(g + ?c * ?R - ?R) mod ?c < ?c" using c(1) by simp
    ultimately show "?R \<le> q" "q < ?R + ?c" "q mod ?c = g mod ?c" "g \<le> q" using g by (auto simp: q_def)
  qed
  have "c_seq s (cslot s pos) = of_nat q + 1 \<or> c_seq s (cslot s pos) = of_nat q"
    using inv q cslot_mod [OF g(4), of g] g(1) by (auto simp: mpsc_inv_def cseq_ok_def split: if_splits)
  then have "c_seq s (cslot s pos) - pos = of_nat (q - g) + 1 \<or> c_seq s (cslot s pos) - pos = of_nat (q - g)"
    using q(4) g(1) by auto
  then have "c_seq s (cslot s pos) - pos = of_nat (q - g + 1) \<or> c_seq s (cslot s pos) - pos = of_nat (q - g)"
    by (simp add: add.commute)
  moreover have lt: "q - g + 1 < 2 ^ 63" using q near g c by simp
  ultimately have "unat (c_seq s (cslot s pos) - pos) < 2 ^ 63"
    using unat_of_nat [of "q - g + 1", where 'a = 64] unat_of_nat [of "q - g", where 'a = 64] by auto
  then show False using d unfolding half_less_iff by simp
qed

section \<open>Undisturbed calls\<close>

lemma mpsc_one: "mpsc_step a b \<Longrightarrow> mpsc_step\<^sup>*\<^sup>* a b"
  by (rule r_into_rtranclp)

lemma mpsc_then: "mpsc_step\<^sup>*\<^sup>* a b \<Longrightarrow> mpsc_step b c \<Longrightarrow> mpsc_step\<^sup>*\<^sup>* a c"
  by (rule rtranclp.rtrancl_into_rtrancl)

lemma undisturbed_push:
  assumes "c_prod s i = PIdle" "c_seq s (cslot s (c_enq s)) = c_enq s"
  shows "mpsc_step\<^sup>*\<^sup>* s (s\<lparr>c_enq := c_enq s + 1, c_hist := c_hist s @ [m],
     c_rec := (c_rec s)(cslot s (c_enq s) := m), c_seq := (c_seq s)(cslot s (c_enq s) := c_enq s + 1)\<rparr>)"
proof -
  let ?pos = "c_enq s" let ?g = "length (c_hist s)"
  let ?p = "\<lambda>x. s\<lparr>c_prod := (c_prod s)(i := x)\<rparr>"
  let ?r = "\<lambda>x. s\<lparr>c_enq := ?pos + 1, c_hist := c_hist s @ [m], c_prod := (c_prod s)(i := x)\<rparr>"
  let ?w = "(?r (PPacked m ?pos ?g))\<lparr>c_rec := (c_rec s)(cslot s ?pos := m)\<rparr>"
  have s1: "mpsc_step s (?p (PLoad m))" by (rule begin_push) (rule assms)
  have s2: "mpsc_step (?p (PLoad m)) (?p (PLoop m ?pos ?g))"
    using load_pos [of "?p (PLoad m)" i m] by simp
  have s3: "mpsc_step (?p (PLoop m ?pos ?g)) (?p (PCas m ?pos ?g))"
    using seq_free [of "?p (PLoop m ?pos ?g)" i m ?pos ?g] assms(2) by (cases s) (simp add: cslot_def)
  have s4: "mpsc_step (?p (PCas m ?pos ?g)) (?r (PReserved m ?pos ?g))"
    using cas_ok [of "?p (PCas m ?pos ?g)" i m ?pos ?g] by (cases s) simp
  have s5: "mpsc_step (?r (PReserved m ?pos ?g)) ?w"
    using write_record [of "?r (PReserved m ?pos ?g)" i m ?pos ?g] by (cases s) (simp add: cslot_def)
  have s6: "mpsc_step ?w (s\<lparr>c_enq := c_enq s + 1, c_hist := c_hist s @ [m],
     c_rec := (c_rec s)(cslot s (c_enq s) := m), c_seq := (c_seq s)(cslot s (c_enq s) := c_enq s + 1)\<rparr>)"
    using publish [of ?w i m ?pos ?g] assms(1) by (cases s) (simp add: cslot_def fun_upd_idem)
  show ?thesis by (rule mpsc_then [OF mpsc_then [OF mpsc_then [OF mpsc_then [OF mpsc_then [OF mpsc_one [OF s1] s2] s3] s4] s5] s6])
qed

lemma undisturbed_pop:
  assumes "c_cons s = CIdle" "c_seq s (cslot s (c_deq s)) = c_deq s + 1"
  shows "mpsc_step\<^sup>*\<^sup>* s (s\<lparr>c_deq := c_deq s + 1, c_out := c_out s @ [c_rec s (cslot s (c_deq s))],
     c_seq := (c_seq s)(cslot s (c_deq s) := c_deq s + c_cap s)\<rparr>)"
proof -
  let ?pos = "c_deq s" let ?m = "c_rec s (cslot s (c_deq s))"
  let ?a = "s\<lparr>c_cons := CReading ?pos\<rparr>" let ?b = "s\<lparr>c_cons := CCopied ?pos ?m\<rparr>"
  let ?d = "s\<lparr>c_seq := (c_seq s)(cslot s ?pos := ?pos + c_cap s), c_cons := CReleased ?pos, c_out := c_out s @ [?m]\<rparr>"
  have s1: "mpsc_step s ?a" by (rule pop_seen) (rule assms)+
  have s2: "mpsc_step ?a ?b" using pop_copy [of ?a ?pos] by (cases s) (simp add: cslot_def)
  have s3: "mpsc_step ?b ?d" using pop_release [of ?b ?pos ?m] by (cases s) (simp add: cslot_def)
  have s4: "mpsc_step ?d (s\<lparr>c_deq := c_deq s + 1, c_out := c_out s @ [c_rec s (cslot s (c_deq s))],
     c_seq := (c_seq s)(cslot s (c_deq s) := c_deq s + c_cap s)\<rparr>)"
    using pop_advance [of ?d ?pos] assms(1) by (cases s) simp
  show ?thesis by (rule mpsc_then [OF mpsc_then [OF mpsc_then [OF mpsc_one [OF s1] s2] s3] s4])
qed

text \<open>A ring of two slots after two pushes.\<close>

definition two_queued :: "string mpsc" where
  "two_queued = (mpsc_init 2 [])\<lparr>c_enq := 2, c_hist := [''a'', ''b''],
     c_rec := (\<lambda>_. [])(0 := ''a'', 1 := ''b''), c_seq := of_nat(0 := 1, 1 := 2)\<rparr>"

lemma capacity_two: "queue_capacity 2 = Inr 2"
  by (simp add: queue_capacity_def queue_capacity_loop.simps [of 2])

lemma two_queued_reachable: "mpsc_step\<^sup>*\<^sup>* (mpsc_init 2 []) two_queued"
proof -
  let ?s = "mpsc_init 2 [] :: string mpsc"
  let ?t = "?s\<lparr>c_enq := 1, c_hist := [''a''], c_rec := (\<lambda>_. [])(0 := ''a''), c_seq := of_nat(0 := 1)\<rparr>"
  have 1: "mpsc_step\<^sup>*\<^sup>* ?s ?t"
    using undisturbed_push [of ?s 0 "''a''"] by (simp add: mpsc_init_def cslot_def)
  have 2: "mpsc_step\<^sup>*\<^sup>* ?t two_queued"
    using undisturbed_push [of ?t 0 "''b''"] by (simp add: mpsc_init_def cslot_def two_queued_def)
  show ?thesis by (rule rtranclp_trans [OF 1 2])
qed

section \<open>Properties of the interleavings\<close>

text \<open>C7. In every interleaving of any number of producers with the consumer, the records delivered
  are the first ones reserved, in reservation order, each once and complete, also across the
  wrap-around of the 64-bit positions; no more than the capacity are in flight; and when no push
  or pop is under way the consumer's test finds a record exactly if one is undelivered.\<close>

theorem mpsc_delivers_in_order:
  assumes "queue_capacity requested = Inr cap" "mpsc_step\<^sup>*\<^sup>* (mpsc_init cap junk) s"
  shows "c_out s = take (length (c_out s)) (c_hist s) \<and> length (c_out s) \<le> length (c_hist s) \<and>
    length (c_hist s) \<le> length (c_out s) + unat cap \<and>
    ((\<forall>i. owned (c_prod s i) = None) \<and> c_cons s = CIdle \<longrightarrow>
       (c_seq s (cslot s (c_deq s)) = c_deq s + 1 \<longleftrightarrow> c_out s \<noteq> c_hist s))"
proof -
  note R = mpsc_reachable [OF assms]
  have w: "c_out s = take (length (c_out s)) (c_hist s)" "length (c_out s) \<le> length (c_hist s)"
    "length (c_hist s) \<le> length (c_out s) + unat cap"
    using R by (auto simp: mpsc_inv_def window_ok_def)
  have "c_seq s (cslot s (c_deq s)) = c_deq s + 1 \<longleftrightarrow> c_out s \<noteq> c_hist s"
    if "\<forall>i. owned (c_prod s i) = None" "c_cons s = CIdle"
  proof -
    have "pending s = {}" "c_deq s = of_nat (length (c_out s))"
      using that R(1) by (auto simp: pending_def mpsc_inv_def consumer_ok_def)
    moreover have "c_out s = c_hist s \<longleftrightarrow> length (c_out s) = length (c_hist s)" using w(1) by (metis take_all order_refl)
    ultimately show ?thesis using front_published [OF R(1)] w(2) by auto
  qed
  then show ?thesis using w by blast
qed

theorem mpsc_delivers_in_order_witness:
  "c_seq two_queued (cslot two_queued (c_deq two_queued)) = c_deq two_queued + 1 \<and>
   c_out two_queued = take (length (c_out two_queued)) (c_hist two_queued)"
proof -
  have "(\<forall>i. owned (c_prod two_queued i) = None) \<and> c_cons two_queued = CIdle \<and> c_out two_queued \<noteq> c_hist two_queued"
    by (simp add: two_queued_def mpsc_init_def)
  then show ?thesis using mpsc_delivers_in_order [OF capacity_two two_queued_reachable] by blast
qed

text \<open>C8. No data race on a record: a slot that a producer is writing is neither written by another
  producer nor read by the consumer, in any reachable state.\<close>

theorem mpsc_slots_exclusive:
  assumes "queue_capacity requested = Inr cap" "mpsc_step\<^sup>*\<^sup>* (mpsc_init cap junk) s"
    and "writes_slot s (c_prod s i) = Some k"
  shows "reads_slot s (c_cons s) \<noteq> Some k \<and> (\<forall>j. writes_slot s (c_prod s j) = Some k \<longrightarrow> j = i)"
  using exclusive_slots [OF mpsc_reachable(1) [OF assms(1,2)] assms(3)] by metis

lemma one_reserved_reachable:
  "mpsc_step\<^sup>*\<^sup>* (mpsc_init 2 ''x'') ((mpsc_init 2 ''x'')\<lparr>c_enq := 1, c_hist := [''a''],
     c_prod := (\<lambda>_. PIdle)(0 := PReserved ''a'' 0 0)\<rparr>)"
proof -
  let ?s = "mpsc_init 2 ''x'' :: string mpsc"
  let ?p = "\<lambda>x. ?s\<lparr>c_prod := (\<lambda>_. PIdle)(0 := x)\<rparr>"
  have s1: "mpsc_step ?s (?p (PLoad ''a''))" using begin_push [of ?s 0 "''a''"] by (simp add: mpsc_init_def)
  have s2: "mpsc_step (?p (PLoad ''a'')) (?p (PLoop ''a'' 0 0))"
    using load_pos [of "?p (PLoad ''a'')" 0 "''a''"] by (simp add: mpsc_init_def)
  have s3: "mpsc_step (?p (PLoop ''a'' 0 0)) (?p (PCas ''a'' 0 0))"
    using seq_free [of "?p (PLoop ''a'' 0 0)" 0 "''a''" 0 0] by (simp add: mpsc_init_def cslot_def)
  have s4: "mpsc_step (?p (PCas ''a'' 0 0)) (?s\<lparr>c_enq := 1, c_hist := [''a''],
      c_prod := (\<lambda>_. PIdle)(0 := PReserved ''a'' 0 0)\<rparr>)"
    using cas_ok [of "?p (PCas ''a'' 0 0)" 0 "''a''" 0 0] by (simp add: mpsc_init_def)
  show ?thesis by (rule mpsc_then [OF mpsc_then [OF mpsc_then [OF mpsc_one [OF s1] s2] s3] s4])
qed

theorem mpsc_slots_exclusive_witness:
  "\<exists>s :: string mpsc. writes_slot s (c_prod s 0) = Some 0 \<and> reads_slot s (c_cons s) \<noteq> Some 0"
  using mpsc_slots_exclusive [OF capacity_two one_reserved_reachable, of 0 0]
  by (intro exI [of _ "(mpsc_init 2 ''x'')\<lparr>c_enq := 1, c_hist := [''a''],
     c_prod := (\<lambda>_. PIdle)(0 := PReserved ''a'' 0 0)\<rparr>"]) (simp add: cslot_def mpsc_init_def)

text \<open>C9. A push that returns 0 from the reservation loop has really found the ring full: at the moment
  it reads the slot's sequence number, as many records are reserved and not yet released as the
  ring has slots (for a producer overtaken by fewer than \<open>2 ^ 62\<close> reservations).\<close>

theorem mpsc_refuses_only_when_full:
  assumes "queue_capacity requested = Inr cap" "mpsc_step\<^sup>*\<^sup>* (mpsc_init cap junk) s"
    and "c_prod s i = PLoop m pos g" "SIZE_MAX div 2 < c_seq s (cslot s pos) - pos"
    and "length (c_hist s) < g + 2 ^ 62"
  shows "length (c_hist s) = length (c_out s) + unat cap"
  using full_when_refused [OF mpsc_reachable(1) [OF assms(1,2)] assms(3-5)] mpsc_reachable(2) [OF assms(1,2)] by simp

theorem mpsc_refuses_only_when_full_witness:
  "length (c_hist two_queued) = length (c_out two_queued) + unat (2 :: size_t)"
proof -
  let ?l = "two_queued\<lparr>c_prod := (\<lambda>_. PIdle)(0 := PLoad ''c'')\<rparr>"
  let ?t = "two_queued\<lparr>c_prod := (\<lambda>_. PIdle)(0 := PLoop ''c'' 2 2)\<rparr>"
  have "mpsc_step two_queued ?l" using begin_push [of two_queued 0 "''c''"] by (simp add: two_queued_def mpsc_init_def)
  moreover have "mpsc_step ?l ?t" using load_pos [of ?l 0 "''c''"]
    by (simp add: two_queued_def mpsc_init_def numeral_2_eq_2)
  ultimately have "mpsc_step\<^sup>*\<^sup>* (mpsc_init 2 []) ?t" using two_queued_reachable mpsc_then by blast
  from mpsc_refuses_only_when_full [OF capacity_two this, of 0 "''c''" 2 2] show ?thesis
    by (simp add: two_queued_def mpsc_init_def cslot_def)
qed

end
