(* ===== verification/Logger_Wakeup.thy ===== *)
theory Logger_Wakeup
  imports Logger_Prelude
begin

text \<open>
  The sleep and wake-up protocol between the worker (\<^verbatim>\<open>logger_worker_main\<close>), the producers
  (\<^verbatim>\<open>logger_queue_notify_if_waiting\<close> after a publication) and the thread that stops the
  logger (\<^verbatim>\<open>logger_queue_wake_force\<close>), one step per atomic access or pthread call. The queue
  is reduced to the number of records the consumer's test can see; a publication may add
  any number of them, none included (an out-of-order publication). Pthread calls succeed,
  condition waits may wake spuriously.
\<close>

section \<open>State\<close>

datatype worker_pc =
    WDrain | WLock | WLoop | WLoopRun | WArm | WRecheck | WRecheckRun | WWait | WSleep | WWoken
  | WDisarm | WStop | WStopEmpty | WUnlock bool | WExit

datatype notify_pc = NIdle | NProbe | NLock | NClaim | NSignal | NUnlock

datatype stop_pc = SIdle | SLock | SDisarm | SSignal | SUnlock | SDone

datatype actor = Worker | Producer nat | Stopper

record wake =
  w_avail :: nat
  w_running :: bool
  w_waiting :: bool
  w_mu :: "actor option"
  w_worker :: worker_pc
  w_notify :: "nat \<Rightarrow> notify_pc"
  w_stop :: stop_pc

definition wake_init :: wake where
  "wake_init = \<lparr>w_avail = 0, w_running = True, w_waiting = False, w_mu = None, w_worker = WDrain,
     w_notify = (\<lambda>_. NIdle), w_stop = SIdle\<rparr>"

text \<open>\<^verbatim>\<open>pthread_cond_signal\<close>: a sleeping worker is woken, otherwise nothing happens.\<close>

definition signalled :: "worker_pc \<Rightarrow> worker_pc" where
  "signalled w = (if w = WSleep then WWoken else w)"

section \<open>Steps\<close>

inductive wake_step :: "actor \<Rightarrow> wake \<Rightarrow> wake \<Rightarrow> bool" where
  drain: "w_worker s = WDrain \<Longrightarrow> 0 < n \<Longrightarrow> n \<le> w_avail s \<Longrightarrow>
    wake_step Worker s (s\<lparr>w_avail := w_avail s - n\<rparr>)"
| drained: "w_worker s = WDrain \<Longrightarrow> w_avail s = 0 \<Longrightarrow> wake_step Worker s (s\<lparr>w_worker := WLock\<rparr>)"
| worker_lock: "w_worker s = WLock \<Longrightarrow> w_mu s = None \<Longrightarrow>
    wake_step Worker s (s\<lparr>w_worker := WLoop, w_mu := Some Worker\<rparr>)"
| loop_test: "w_worker s = WLoop \<Longrightarrow>
    wake_step Worker s (s\<lparr>w_worker := if w_avail s = 0 then WLoopRun else WDisarm\<rparr>)"
| loop_running: "w_worker s = WLoopRun \<Longrightarrow>
    wake_step Worker s (s\<lparr>w_worker := if w_running s then WArm else WDisarm\<rparr>)"
| arm: "w_worker s = WArm \<Longrightarrow> wake_step Worker s (s\<lparr>w_worker := WRecheck, w_waiting := True\<rparr>)"
| recheck: "w_worker s = WRecheck \<Longrightarrow>
    wake_step Worker s (s\<lparr>w_worker := if w_avail s = 0 then WRecheckRun else WDisarm\<rparr>)"
| recheck_running: "w_worker s = WRecheckRun \<Longrightarrow>
    wake_step Worker s (s\<lparr>w_worker := if w_running s then WWait else WDisarm\<rparr>)"
| wait: "w_worker s = WWait \<Longrightarrow> wake_step Worker s (s\<lparr>w_worker := WSleep, w_mu := None\<rparr>)"
| spurious: "w_worker s = WSleep \<Longrightarrow> wake_step Worker s (s\<lparr>w_worker := WWoken\<rparr>)"
| relock: "w_worker s = WWoken \<Longrightarrow> w_mu s = None \<Longrightarrow>
    wake_step Worker s (s\<lparr>w_worker := WLoop, w_mu := Some Worker\<rparr>)"
| disarm: "w_worker s = WDisarm \<Longrightarrow> wake_step Worker s (s\<lparr>w_worker := WStop, w_waiting := False\<rparr>)"
| stop_running: "w_worker s = WStop \<Longrightarrow>
    wake_step Worker s (s\<lparr>w_worker := if w_running s then WUnlock False else WStopEmpty\<rparr>)"
| stop_empty: "w_worker s = WStopEmpty \<Longrightarrow>
    wake_step Worker s (s\<lparr>w_worker := WUnlock (w_avail s = 0)\<rparr>)"
| worker_unlock: "w_worker s = WUnlock stop \<Longrightarrow>
    wake_step Worker s (s\<lparr>w_worker := if stop then WExit else WDrain, w_mu := None\<rparr>)"
| publish: "w_notify s i = NIdle \<Longrightarrow>
    wake_step (Producer i) s (s\<lparr>w_avail := w_avail s + k, w_notify := (w_notify s)(i := NProbe)\<rparr>)"
| probe: "w_notify s i = NProbe \<Longrightarrow>
    wake_step (Producer i) s (s\<lparr>w_notify := (w_notify s)(i := if w_waiting s then NLock else NIdle)\<rparr>)"
| notify_lock: "w_notify s i = NLock \<Longrightarrow> w_mu s = None \<Longrightarrow>
    wake_step (Producer i) s (s\<lparr>w_mu := Some (Producer i), w_notify := (w_notify s)(i := NClaim)\<rparr>)"
| claim: "w_notify s i = NClaim \<Longrightarrow>
    wake_step (Producer i) s (s\<lparr>w_waiting := False,
      w_notify := (w_notify s)(i := if w_waiting s then NSignal else NUnlock)\<rparr>)"
| notify_signal: "w_notify s i = NSignal \<Longrightarrow>
    wake_step (Producer i) s (s\<lparr>w_worker := signalled (w_worker s), w_notify := (w_notify s)(i := NUnlock)\<rparr>)"
| notify_unlock: "w_notify s i = NUnlock \<Longrightarrow>
    wake_step (Producer i) s (s\<lparr>w_mu := None, w_notify := (w_notify s)(i := NIdle)\<rparr>)"
| stop_store: "w_stop s = SIdle \<Longrightarrow> wake_step Stopper s (s\<lparr>w_running := False, w_stop := SLock\<rparr>)"
| stop_lock: "w_stop s = SLock \<Longrightarrow> w_mu s = None \<Longrightarrow>
    wake_step Stopper s (s\<lparr>w_mu := Some Stopper, w_stop := SDisarm\<rparr>)"
| stop_disarm: "w_stop s = SDisarm \<Longrightarrow> wake_step Stopper s (s\<lparr>w_waiting := False, w_stop := SSignal\<rparr>)"
| stop_signal: "w_stop s = SSignal \<Longrightarrow>
    wake_step Stopper s (s\<lparr>w_worker := signalled (w_worker s), w_stop := SUnlock\<rparr>)"
| stop_unlock: "w_stop s = SUnlock \<Longrightarrow> wake_step Stopper s (s\<lparr>w_mu := None, w_stop := SDone\<rparr>)"

inductive wake_reachable :: "wake \<Rightarrow> bool" where
  start: "wake_reachable wake_init"
| step: "wake_reachable s \<Longrightarrow> wake_step a s s' \<Longrightarrow> wake_reachable s'"

section \<open>The invariant\<close>

definition worker_holds :: "worker_pc \<Rightarrow> bool" where
  "worker_holds w = (case w of WDrain \<Rightarrow> False | WLock \<Rightarrow> False | WSleep \<Rightarrow> False | WWoken \<Rightarrow> False | WExit \<Rightarrow> False | _ \<Rightarrow> True)"

definition notify_holds :: "notify_pc \<Rightarrow> bool" where
  "notify_holds p = (p = NClaim \<or> p = NSignal \<or> p = NUnlock)"

definition stop_holds :: "stop_pc \<Rightarrow> bool" where
  "stop_holds p = (p = SDisarm \<or> p = SSignal \<or> p = SUnlock)"

definition mutex_ok :: "wake \<Rightarrow> bool" where
  "mutex_ok s \<longleftrightarrow> (w_mu s = Some Worker \<longleftrightarrow> worker_holds (w_worker s)) \<and>
     (\<forall>i. w_mu s = Some (Producer i) \<longleftrightarrow> notify_holds (w_notify s i)) \<and>
     (w_mu s = Some Stopper \<longleftrightarrow> stop_holds (w_stop s))"

text \<open>A notification is on its way: a producer will still look at, or act on, the waiting flag.\<close>

definition will_notify :: "wake \<Rightarrow> bool" where
  "will_notify s \<longleftrightarrow> (\<exists>i. w_notify s i \<in> {NProbe, NLock, NClaim})"

definition will_signal :: "wake \<Rightarrow> bool" where
  "will_signal s \<longleftrightarrow> (\<exists>i. w_notify s i = NSignal) \<or> w_stop s = SSignal"

definition sleep_ok :: "wake \<Rightarrow> bool" where
  "sleep_ok s \<longleftrightarrow>
     (w_worker s \<in> {WRecheck, WRecheckRun, WWait} \<longrightarrow> w_waiting s) \<and>
     (w_worker s = WSleep \<longrightarrow> w_waiting s \<or> will_signal s) \<and>
     (w_worker s \<in> {WRecheckRun, WWait, WSleep} \<and> w_waiting s \<and> 0 < w_avail s \<longrightarrow> will_notify s)"

definition stop_ok :: "wake \<Rightarrow> bool" where
  "stop_ok s \<longleftrightarrow> (w_running s \<longleftrightarrow> w_stop s = SIdle) \<and>
     (w_worker s \<in> {WWait, WSleep} \<longrightarrow> w_stop s \<in> {SIdle, SLock, SDisarm, SSignal}) \<and>
     (w_worker s \<in> {WUnlock True, WExit, WStopEmpty} \<longrightarrow> \<not> w_running s)"

definition wake_inv :: "wake \<Rightarrow> bool" where
  "wake_inv s \<longleftrightarrow> mutex_ok s \<and> sleep_ok s \<and> stop_ok s"

lemmas holds_defs = worker_holds_def notify_holds_def stop_holds_def signalled_def

lemma mutex_step: "wake_step a s s' \<Longrightarrow> mutex_ok s \<Longrightarrow> mutex_ok s'"
proof (induction rule: wake_step.induct)
  case (notify_unlock s i)
  then have "w_mu s = Some (Producer i)" by (simp add: mutex_ok_def notify_holds_def)
  then show ?case using notify_unlock by (auto simp: mutex_ok_def notify_holds_def)
qed (auto simp: mutex_ok_def holds_defs split: worker_pc.splits if_splits)

lemma stop_step: "wake_step a s s' \<Longrightarrow> mutex_ok s \<Longrightarrow> stop_ok s \<Longrightarrow> stop_ok s'"
  by (induction rule: wake_step.induct)
     (auto simp: mutex_ok_def stop_ok_def holds_defs split: worker_pc.splits if_splits)

lemma will_signal_keep:
  assumes "will_signal s" "w_notify s i \<noteq> NSignal" "w_stop s' = w_stop s" "w_notify s' = (w_notify s)(i := x)"
  shows "will_signal s'"
  using assms unfolding will_signal_def by (metis fun_upd_other)

lemma will_notify_keep:
  assumes "will_notify s" "w_notify s i \<notin> {NProbe, NLock, NClaim}" "w_notify s' = (w_notify s)(i := x)"
  shows "will_notify s'"
  using assms unfolding will_notify_def by (metis fun_upd_other)

lemma sleep_step: "wake_step a s s' \<Longrightarrow> mutex_ok s \<Longrightarrow> stop_ok s \<Longrightarrow> sleep_ok s \<Longrightarrow> sleep_ok s'"
proof (induction rule: wake_step.induct)
  case (publish s i k)
  let ?s = "s\<lparr>w_avail := w_avail s + k, w_notify := (w_notify s)(i := NProbe)\<rparr>"
  have "will_signal s \<Longrightarrow> will_signal ?s" by (erule will_signal_keep [where i = i]) (use publish in simp_all)
  moreover have "will_notify ?s" by (auto simp: will_notify_def)
  ultimately show ?case using publish by (auto simp: sleep_ok_def)
next
  case (probe s i)
  let ?s = "s\<lparr>w_notify := (w_notify s)(i := if w_waiting s then NLock else NIdle)\<rparr>"
  have "will_signal s \<Longrightarrow> will_signal ?s" by (erule will_signal_keep [where i = i]) (use probe in simp_all)
  moreover have "w_waiting s \<Longrightarrow> will_notify ?s" by (auto simp: will_notify_def)
  ultimately show ?case using probe by (auto simp: sleep_ok_def)
next
  case (notify_lock s i)
  let ?s = "s\<lparr>w_mu := Some (Producer i), w_notify := (w_notify s)(i := NClaim)\<rparr>"
  have "will_signal s \<Longrightarrow> will_signal ?s" by (erule will_signal_keep [where i = i]) (use notify_lock in simp_all)
  moreover have "will_notify ?s" by (auto simp: will_notify_def)
  ultimately show ?case using notify_lock by (auto simp: sleep_ok_def)
next
  case (claim s i)
  then have "w_mu s = Some (Producer i)" by (simp add: mutex_ok_def notify_holds_def)
  have "w_notify s j \<noteq> NSignal" for j
    using claim \<open>w_mu s = Some (Producer i)\<close> by (cases "j = i") (auto simp: mutex_ok_def notify_holds_def)
  then have "\<not> will_signal s" "w_worker s \<notin> {WRecheck, WRecheckRun, WWait}"
    using claim \<open>w_mu s = Some (Producer i)\<close> by (auto simp: mutex_ok_def worker_holds_def stop_holds_def will_signal_def)
  then show ?case using claim by (auto simp: sleep_ok_def will_signal_def)
next
  case (notify_signal s i)
  then have "w_mu s = Some (Producer i)" by (simp add: mutex_ok_def notify_holds_def)
  then have "w_worker s \<notin> {WRecheck, WRecheckRun, WWait}"
    using notify_signal by (auto simp: mutex_ok_def holds_defs)
  then show ?case using notify_signal by (auto simp: sleep_ok_def signalled_def)
next
  case (notify_unlock s i)
  let ?s = "s\<lparr>w_mu := None, w_notify := (w_notify s)(i := NIdle)\<rparr>"
  have "will_signal s \<Longrightarrow> will_signal ?s" by (erule will_signal_keep [where i = i]) (use notify_unlock in simp_all)
  moreover have "will_notify s \<Longrightarrow> will_notify ?s" by (erule will_notify_keep [where i = i]) (use notify_unlock in simp_all)
  ultimately show ?case using notify_unlock by (auto simp: sleep_ok_def)
next
  case (stop_disarm s)
  then have "w_worker s \<notin> {WRecheck, WRecheckRun, WWait}" by (auto simp: mutex_ok_def holds_defs)
  then show ?case using stop_disarm by (auto simp: sleep_ok_def will_signal_def)
next
  case (stop_signal s)
  then have "w_worker s \<notin> {WRecheck, WRecheckRun, WWait}" by (auto simp: mutex_ok_def holds_defs)
  then show ?case using stop_signal by (auto simp: sleep_ok_def signalled_def)
qed (auto simp: sleep_ok_def will_signal_def will_notify_def split: if_splits)

lemma wake_reachable_inv: "wake_reachable s \<Longrightarrow> wake_inv s"
proof (induction rule: wake_reachable.induct)
  case start
  show ?case
    by (simp add: wake_inv_def wake_init_def mutex_ok_def holds_defs sleep_ok_def stop_ok_def)
next
  case (step s a s')
  then show ?case using mutex_step stop_step sleep_step unfolding wake_inv_def by blast
qed

section \<open>No lost wake-up\<close>

text \<open>An actor in the middle of a notification or of a forced wake-up.\<close>

definition busy :: "wake \<Rightarrow> actor \<Rightarrow> bool" where
  "busy s a = (case a of Worker \<Rightarrow> False | Producer i \<Rightarrow> w_notify s i \<noteq> NIdle | Stopper \<Rightarrow> w_stop s \<notin> {SIdle, SDone})"

lemma sleeper_has_helper:
  assumes "wake_inv s" "w_worker s = WSleep" "0 < w_avail s \<or> \<not> w_running s"
  shows "\<exists>a. busy s a"
proof (cases "\<exists>i. w_notify s i \<noteq> NIdle")
  case True
  then obtain i where "busy s (Producer i)" by (auto simp: busy_def)
  then show ?thesis by blast
next
  case False
  then have "w_stop s \<in> {SLock, SDisarm, SSignal}"
    using assms by (auto simp: wake_inv_def sleep_ok_def stop_ok_def will_notify_def will_signal_def)
  then have "busy s Stopper" by (auto simp: busy_def)
  then show ?thesis by blast
qed

lemma free_helper_steps:
  assumes "mutex_ok s" "busy s a" "w_mu s = None \<or> w_mu s = Some a"
  shows "\<exists>s'. wake_step a s s'"
proof (cases a)
  case Worker
  then show ?thesis using assms by (simp add: busy_def)
next
  case (Producer i)
  then show ?thesis using assms
    by (cases "w_notify s i") (auto simp: busy_def mutex_ok_def holds_defs intro: wake_step.intros)
next
  case Stopper
  then show ?thesis using assms
    by (cases "w_stop s") (auto simp: busy_def mutex_ok_def holds_defs intro: wake_step.intros)
qed

lemma sleeper_is_helped:
  assumes inv: "wake_inv s" and w: "w_worker s = WSleep" and work: "0 < w_avail s \<or> \<not> w_running s"
  shows "\<exists>a s'. busy s a \<and> wake_step a s s'"
proof -
  have m: "mutex_ok s" using inv by (simp add: wake_inv_def)
  obtain a where a: "busy s a" using sleeper_has_helper [OF assms] by blast
  show ?thesis
  proof (cases "w_mu s = None")
    case True
    then show ?thesis using free_helper_steps [OF m a] a by blast
  next
    case False
    then obtain h where h: "w_mu s = Some h" by blast
    then have "busy s h"
      using m w by (cases h) (force simp: busy_def mutex_ok_def holds_defs)+
    then show ?thesis using free_helper_steps [OF m, of h] h by blast
  qed
qed

text \<open>C10. No wake-up is lost: in every reachable state in which the worker sleeps although a record is
  visible or the logger has been told to stop, a producer or the stopping thread is in the middle
  of its notification and can take its next step; in particular, once all of them have
  returned, a sleeping worker has nothing to do.\<close>

theorem no_lost_wakeup:
  assumes "wake_reachable s" "w_worker s = WSleep"
  shows "(0 < w_avail s \<or> \<not> w_running s \<longrightarrow> (\<exists>a s'. busy s a \<and> wake_step a s s')) \<and>
    ((\<forall>a. \<not> busy s a) \<longrightarrow> w_avail s = 0 \<and> w_running s \<and> w_waiting s)"
proof -
  have inv: "wake_inv s" by (rule wake_reachable_inv [OF assms(1)])
  have "w_avail s = 0 \<and> w_running s \<and> w_waiting s" if q: "\<forall>a. \<not> busy s a"
  proof -
    have "w_notify s i = NIdle" for i using q [THEN spec, of "Producer i"] by (simp add: busy_def)
    moreover have "w_stop s \<in> {SIdle, SDone}" using q [THEN spec, of Stopper] by (simp add: busy_def)
    ultimately have "\<not> will_signal s" by (auto simp: will_signal_def)
    moreover have "\<not> (0 < w_avail s \<or> \<not> w_running s)" using sleeper_is_helped [OF inv assms(2)] q by blast
    ultimately show ?thesis using inv assms(2) by (auto simp: wake_inv_def sleep_ok_def)
  qed
  then show ?thesis using sleeper_is_helped [OF inv assms(2)] by blast
qed

text \<open>A run in which the worker goes to sleep on an empty queue.\<close>

lemma reach_sleep:
  "wake_reachable (wake_init\<lparr>w_worker := WSleep, w_waiting := True\<rparr>)"
proof -
  note s = wake_reachable.step
  have "wake_reachable (wake_init\<lparr>w_worker := WLock\<rparr>)"
    using s [OF start drained] by (simp add: wake_init_def)
  then have "wake_reachable (wake_init\<lparr>w_worker := WLoop, w_mu := Some Worker\<rparr>)"
    using s [OF _ worker_lock, of "wake_init\<lparr>w_worker := WLock\<rparr>"] by (simp add: wake_init_def)
  then have "wake_reachable (wake_init\<lparr>w_worker := WLoopRun, w_mu := Some Worker\<rparr>)"
    using s [OF _ loop_test, of "wake_init\<lparr>w_worker := WLoop, w_mu := Some Worker\<rparr>"] by (simp add: wake_init_def)
  then have "wake_reachable (wake_init\<lparr>w_worker := WArm, w_mu := Some Worker\<rparr>)"
    using s [OF _ loop_running, of "wake_init\<lparr>w_worker := WLoopRun, w_mu := Some Worker\<rparr>"] by (simp add: wake_init_def)
  then have "wake_reachable (wake_init\<lparr>w_worker := WRecheck, w_mu := Some Worker, w_waiting := True\<rparr>)"
    using s [OF _ arm, of "wake_init\<lparr>w_worker := WArm, w_mu := Some Worker\<rparr>"] by (simp add: wake_init_def)
  then have "wake_reachable (wake_init\<lparr>w_worker := WRecheckRun, w_mu := Some Worker, w_waiting := True\<rparr>)"
    using s [OF _ recheck, of "wake_init\<lparr>w_worker := WRecheck, w_mu := Some Worker, w_waiting := True\<rparr>"]
    by (simp add: wake_init_def)
  then have "wake_reachable (wake_init\<lparr>w_worker := WWait, w_mu := Some Worker, w_waiting := True\<rparr>)"
    using s [OF _ recheck_running, of "wake_init\<lparr>w_worker := WRecheckRun, w_mu := Some Worker, w_waiting := True\<rparr>"]
    by (simp add: wake_init_def)
  then show ?thesis
    using s [OF _ wait, of "wake_init\<lparr>w_worker := WWait, w_mu := Some Worker, w_waiting := True\<rparr>"]
    by (simp add: wake_init_def)
qed

theorem no_lost_wakeup_witness:
  "\<exists>s. wake_reachable s \<and> w_worker s = WSleep \<and> 0 < w_avail s \<and> (\<exists>a s'. busy s a \<and> wake_step a s s')"
proof -
  let ?s = "wake_init\<lparr>w_worker := WSleep, w_waiting := True\<rparr>"
  let ?t = "?s\<lparr>w_avail := 1, w_notify := (\<lambda>_. NIdle)(0 := NProbe)\<rparr>"
  have t: "wake_reachable ?t"
    using wake_reachable.step [OF reach_sleep publish [of ?s 0 1]] by (simp add: wake_init_def)
  then have "\<exists>a s'. busy ?t a \<and> wake_step a ?t s'" using no_lost_wakeup [OF t] by simp
  then show ?thesis using t by (intro exI [of _ ?t]) simp
qed

text \<open>The worker leaves its loop only when the logger has been told to stop, and it decided so
  holding the wait mutex with no visible record left.\<close>

theorem worker_exits_when_stopped:
  assumes "wake_reachable s"
  shows "(w_worker s = WExit \<longrightarrow> \<not> w_running s) \<and>
    (\<forall>s'. wake_step Worker s s' \<and> w_worker s' = WUnlock True \<longrightarrow> w_avail s = 0 \<and> \<not> w_running s \<and> w_mu s = Some Worker)"
proof -
  have inv: "wake_inv s" by (rule wake_reachable_inv [OF assms])
  have "w_avail s = 0 \<and> \<not> w_running s \<and> w_mu s = Some Worker"
    if st: "wake_step Worker s s'" "w_worker s' = WUnlock True" for s'
  proof -
    have "w_avail s = 0 \<and> w_worker s \<in> {WStopEmpty, WUnlock True}"
      using st by (cases rule: wake_step.cases) (auto split: if_splits)
    then show ?thesis using inv by (auto simp: wake_inv_def stop_ok_def mutex_ok_def holds_defs)
  qed
  then show ?thesis using inv by (auto simp: wake_inv_def stop_ok_def)
qed

definition stopping :: "worker_pc \<Rightarrow> actor option \<Rightarrow> wake" where
  "stopping pc mu = \<lparr>w_avail = 0, w_running = False, w_waiting = False, w_mu = mu, w_worker = pc,
     w_notify = (\<lambda>_. NIdle), w_stop = SLock\<rparr>"

lemma reach_stopping: "wake_reachable (stopping WStopEmpty (Some Worker))"
proof -
  note s = wake_reachable.step
  have "wake_reachable (stopping WDrain None)"
    using s [OF start stop_store] by (simp add: wake_init_def stopping_def)
  then have "wake_reachable (stopping WLock None)"
    using s [OF _ drained, of "stopping WDrain None"] by (simp add: stopping_def)
  then have "wake_reachable (stopping WLoop (Some Worker))"
    using s [OF _ worker_lock, of "stopping WLock None"] by (simp add: stopping_def)
  then have "wake_reachable (stopping WLoopRun (Some Worker))"
    using s [OF _ loop_test, of "stopping WLoop (Some Worker)"] by (simp add: stopping_def)
  then have "wake_reachable (stopping WDisarm (Some Worker))"
    using s [OF _ loop_running, of "stopping WLoopRun (Some Worker)"] by (simp add: stopping_def)
  then have "wake_reachable (stopping WStop (Some Worker))"
    using s [OF _ disarm, of "stopping WDisarm (Some Worker)"] by (simp add: stopping_def)
  then show ?thesis
    using s [OF _ stop_running, of "stopping WStop (Some Worker)"] by (simp add: stopping_def)
qed

theorem worker_exits_when_stopped_witness:
  "wake_step Worker (stopping WStopEmpty (Some Worker)) (stopping (WUnlock True) (Some Worker)) \<and>
   w_avail (stopping WStopEmpty (Some Worker)) = 0 \<and> \<not> w_running (stopping WStopEmpty (Some Worker))"
proof -
  have "wake_step Worker (stopping WStopEmpty (Some Worker)) (stopping (WUnlock True) (Some Worker))"
    using stop_empty [of "stopping WStopEmpty (Some Worker)"] by (simp add: stopping_def)
  moreover from this have "w_avail (stopping WStopEmpty (Some Worker)) = 0 \<and> \<not> w_running (stopping WStopEmpty (Some Worker))"
    using worker_exits_when_stopped [OF reach_stopping] by (auto simp: stopping_def)
  ultimately show ?thesis by blast
qed

end
