(* ===== verification/Logger_Redact.thy ===== *)
theory Logger_Redact
  imports Logger_Prelude
begin

text \<open>
  \<^verbatim>\<open>src/logger_redact.c\<close>. Memory is one array of bytes and a pointer an index into it, so the
  value and the output buffer may overlap in any way. The sizes are natural numbers; the one
  test for an overflow of \<^verbatim>\<open>size_t\<close> is written out. Saving and restoring \<^verbatim>\<open>errno\<close> is not modelled.
\<close>

type_synonym memory = "char list"

definition memmove_at :: "memory \<Rightarrow> nat \<Rightarrow> nat \<Rightarrow> nat \<Rightarrow> memory" where
  "memmove_at mem dst src n = memcpy_at mem dst (drop src mem) n"

definition c_strlen :: "memory \<Rightarrow> nat \<Rightarrow> nat" where
  "c_strlen mem v = length (cstr (drop v mem))"

definition logger_redact :: string where
  "logger_redact = ''[REDACTED]''"

definition logger_mask_secret ::
  "memory \<Rightarrow> nat option \<Rightarrow> nat option \<Rightarrow> nat \<Rightarrow> nat \<Rightarrow> nat \<Rightarrow> int \<times> memory" where
  "logger_mask_secret mem vp outp cap pre0 suf0 =
     (case outp of None \<Rightarrow> (- EINVAL, mem)
      | Some out \<Rightarrow>
        if cap = 0 then (- EINVAL, mem)
        else case vp of
          None \<Rightarrow> if cap < 11 then (- ENOSPC, mem)
                  else (0, memcpy_at mem out (logger_redact @ [NUL]) 11)
        | Some v \<Rightarrow>
          let n = c_strlen mem v;
              pre1 = (if n < pre0 then n else pre0);
              suf1 = (if n - pre1 < suf0 then n - pre1 else suf0);
              pre = (if n \<le> pre1 + suf1 then 0 else pre1);
              suf = (if n \<le> pre1 + suf1 then 0 else suf1);
              visible = pre + suf
          in if 2 ^ 64 - 1 - 4 < visible then (- EOVERFLOW, mem)
             else let need = visible + 4 in
             if cap < need then (- ENOSPC, mem)
             else let
               mem1 = (if out \<le> v
                       then let a = (if pre \<noteq> 0 then memmove_at mem out v pre else mem)
                            in if suf \<noteq> 0 then memmove_at a (out + pre + 3) (v + n - suf) suf else a
                       else let a = (if suf \<noteq> 0 then memmove_at mem (out + pre + 3) (v + n - suf) suf else mem)
                            in if pre \<noteq> 0 then memmove_at a out v pre else a);
               mem2 = memcpy_at mem1 (out + pre) ''***'' 3
             in (0, mem2[out + need - 1 := NUL]))"

section \<open>Copies between overlapping regions\<close>

lemma memmove_length [simp]:
  "dst + n \<le> length mem \<Longrightarrow> src + n \<le> length mem \<Longrightarrow> length (memmove_at mem dst src n) = length mem"
  by (simp add: memmove_at_def)

lemma nth_memmove:
  "dst + n \<le> length mem \<Longrightarrow> src + n \<le> length mem \<Longrightarrow> i < length mem \<Longrightarrow>
   memmove_at mem dst src n ! i = (if dst \<le> i \<and> i < dst + n then mem ! (src + (i - dst)) else mem ! i)"
  by (auto simp: memmove_at_def nth_memcpy_at)

lemma memmove_zero [simp]: "memmove_at mem dst src 0 = mem"
  by (simp add: memmove_at_def memcpy_at_def)

text \<open>The bytes of the two moved pieces, whatever the overlap of source and destination.\<close>

definition moved :: "memory \<Rightarrow> nat \<Rightarrow> nat \<Rightarrow> nat \<Rightarrow> nat \<Rightarrow> nat \<Rightarrow> memory" where
  "moved mem v out n pre suf =
     (if out \<le> v
      then let a = (if pre \<noteq> 0 then memmove_at mem out v pre else mem)
           in if suf \<noteq> 0 then memmove_at a (out + pre + 3) (v + n - suf) suf else a
      else let a = (if suf \<noteq> 0 then memmove_at mem (out + pre + 3) (v + n - suf) suf else mem)
           in if pre \<noteq> 0 then memmove_at a out v pre else a)"

lemma moved_bytes:
  assumes "pre + suf \<le> n" "v + n < length mem" "out + pre + suf + 4 \<le> length mem"
  shows "length (moved mem v out n pre suf) = length mem"
    and "i < length mem \<Longrightarrow> moved mem v out n pre suf ! i =
      (if out \<le> i \<and> i < out + pre then mem ! (v + (i - out))
       else if out + pre + 3 \<le> i \<and> i < out + pre + 3 + suf then mem ! (v + n - suf + (i - (out + pre + 3)))
       else mem ! i)"
proof -
  have drop_ifs: "moved mem v out n pre suf =
     (if out \<le> v then memmove_at (memmove_at mem out v pre) (out + pre + 3) (v + n - suf) suf
      else memmove_at (memmove_at mem (out + pre + 3) (v + n - suf) suf) out v pre)"
    by (simp add: moved_def Let_def)
  have b: "out + pre \<le> length mem" "v + pre \<le> length mem" "out + pre + 3 + suf \<le> length mem" "v + n - suf + suf \<le> length mem"
    using assms by linarith+
  show "length (moved mem v out n pre suf) = length mem" unfolding drop_ifs using b by simp
  assume i: "i < length mem"
  show "moved mem v out n pre suf ! i =
      (if out \<le> i \<and> i < out + pre then mem ! (v + (i - out))
       else if out + pre + 3 \<le> i \<and> i < out + pre + 3 + suf then mem ! (v + n - suf + (i - (out + pre + 3)))
       else mem ! i)"
  proof (cases "out \<le> v")
    case True
    have "v + n - suf + (i - (out + pre + 3)) < length mem" if "i < out + pre + 3 + suf" "out + pre + 3 \<le> i"
      using that assms by linarith
    moreover have "\<not> v + n - suf + (i - (out + pre + 3)) < out + pre"
      using True assms(1) by linarith
    ultimately show ?thesis unfolding drop_ifs using True b i by (auto simp: nth_memmove)
  next
    case False
    have "v + (i - out) < length mem" if "i < out + pre" "out \<le> i" using that assms by linarith
    moreover have "\<not> out + pre + 3 \<le> v + (i - out)" if "i < out + pre" "out \<le> i" using that False by linarith
    ultimately show ?thesis unfolding drop_ifs using False b i by (auto simp: nth_memmove)
  qed
qed

section \<open>What the buffer holds afterwards\<close>

text \<open>What may be shown of a secret \<open>s\<close>, given the requested prefix and suffix lengths.\<close>

definition shown :: "nat \<Rightarrow> nat \<Rightarrow> nat \<Rightarrow> nat \<times> nat" where
  "shown n pre suf = (let p = min pre n; q = min suf (n - p) in if n \<le> p + q then (0, 0) else (p, q))"

definition masked :: "string \<Rightarrow> nat \<Rightarrow> nat \<Rightarrow> string" where
  "masked s pre suf = (case shown (length s) pre suf of (p, q) \<Rightarrow> take p s @ ''***'' @ drop (length s - q) s)"

lemma mask_secret_eq:
  "logger_mask_secret mem (Some v) (Some out) cap pre0 suf0 =
     (if cap = 0 then (- EINVAL, mem)
      else case shown (c_strlen mem v) pre0 suf0 of (pre, suf) \<Rightarrow>
        if 2 ^ 64 - 1 - 4 < pre + suf then (- EOVERFLOW, mem)
        else if cap < pre + suf + 4 then (- ENOSPC, mem)
        else (0, (memcpy_at (moved mem v out (c_strlen mem v) pre suf) (out + pre) ''***'' 3)[out + (pre + suf + 4) - 1 := NUL]))"
  by (simp add: logger_mask_secret_def shown_def moved_def Let_def min_def)

lemma shown_less: "shown n pre suf = (p, q) \<Longrightarrow> p + q \<le> n \<and> (0 < n \<longrightarrow> p + q < n)"
  by (auto simp: shown_def Let_def split: if_splits)

lemma three_stars: "i < 3 \<Longrightarrow> ''***'' ! i = CHR ''*''"
  by (cases i; simp; cases "i - 1"; simp; cases "i - 2"; simp)

lemma masked_bytes:
  assumes n: "n = c_strlen mem v" and v: "v + n < length mem" and pq: "p + q \<le> n" and o: "out + p + q + 4 \<le> length mem"
  defines "s \<equiv> take n (drop v mem)"
  defines "mem' \<equiv> (memcpy_at (moved mem v out n p q) (out + p) ''***'' 3)[out + (p + q + 4) - 1 := NUL]"
  shows "take (p + q + 4) (drop out mem') = take p s @ ''***'' @ drop (n - q) s @ [NUL]"
    and "length mem' = length mem" and "\<And>a. a < length mem \<Longrightarrow> a < out \<or> out + p + q + 4 \<le> a \<Longrightarrow> mem' ! a = mem ! a"
proof -
  note M = moved_bytes [OF pq v o]
  have len2: "length (memcpy_at (moved mem v out n p q) (out + p) ''***'' 3) = length mem" using M(1) o by simp
  then show len: "length mem' = length mem" by (simp add: mem'_def)
  have b: "mem' ! a = (if a = out + p + q + 3 then NUL
      else if out + p \<le> a \<and> a < out + p + 3 then CHR ''*'' else moved mem v out n p q ! a)" if "a < length mem" for a
    using that o len2 M(1) three_stars [of "a - (out + p)"]
    by (auto simp: mem'_def nth_list_update nth_memcpy_at)
  show "mem' ! a = mem ! a" if "a < length mem" "a < out \<or> out + p + q + 4 \<le> a" for a
    using b [OF that(1)] M(2) [OF that(1)] that by auto
  have s: "length s = n" "\<And>i. i < n \<Longrightarrow> s ! i = mem ! (v + i)" using v by (auto simp: s_def)
  show "take (p + q + 4) (drop out mem') = take p s @ ''***'' @ drop (n - q) s @ [NUL]"
  proof (rule nth_equalityI)
    show "length (take (p + q + 4) (drop out mem')) = length (take p s @ ''***'' @ drop (n - q) s @ [NUL])"
      using len o pq s by simp
    fix i assume "i < length (take (p + q + 4) (drop out mem'))"
    then have i: "i < p + q + 4" "out + i < length mem" using len o by auto
    consider "i < p" | "p \<le> i" "i < p + 3" | "p + 3 \<le> i" "i < p + 3 + q" | "i = p + q + 3" using i by linarith
    then show "take (p + q + 4) (drop out mem') ! i = (take p s @ ''***'' @ drop (n - q) s @ [NUL]) ! i"
    proof cases
      case 1
      then show ?thesis using b [OF i(2)] M(2) [OF i(2)] i s pq len by (simp add: nth_append)
    next
      case 2
      then have "(take p s @ ''***'' @ drop (n - q) s @ [NUL]) ! i = CHR ''*''"
        using s pq by (auto simp: nth_append nth_Cons')
      then show ?thesis using b [OF i(2)] i 2 len by simp
    next
      case 3
      define X where "X = take p s @ ''***''"
      have "length X = p + 3" using s pq by (simp add: X_def)
      moreover have "i - (p + 3) < q" using 3 by linarith
      ultimately have "(X @ drop (n - q) s @ [NUL]) ! i = s ! (n - q + (i - p - 3))"
        using s(1) pq 3 by (simp add: nth_append)
      then have "(take p s @ ''***'' @ drop (n - q) s @ [NUL]) ! i = s ! (n - q + (i - p - 3))"
        unfolding X_def by simp
      also have "\<dots> = mem ! (v + n - q + (i - (p + 3)))" using s(2) [of "n - q + (i - p - 3)"] 3 pq by (simp add: add.assoc)
      finally show ?thesis using b [OF i(2)] M(2) [OF i(2)] i 3 len by simp
    next
      case 4
      then show ?thesis using b [OF i(2)] i s pq len by (simp add: nth_append)
    qed
  qed
qed

section \<open>Properties\<close>

text \<open>C11. \<^verbatim>\<open>logger_mask_secret\<close> succeeds exactly when the masked text and its terminator fit. Then the
  buffer holds the first \<open>p\<close> and the last \<open>q\<close> characters of the secret around three stars, with
  \<open>p\<close> and \<open>q\<close> within the request and together less than the secret's length, for every overlap of
  value and buffer, and no byte outside the result is written. A failure writes nothing.\<close>

theorem mask_secret_correct:
  assumes "v + c_strlen mem v < length mem" "out + cap \<le> length mem" "cap < 2 ^ 64"
    and "logger_mask_secret mem (Some v) (Some out) cap pre suf = (rc, mem')"
  shows "\<exists>p q. p \<le> pre \<and> q \<le> suf \<and> p + q \<le> c_strlen mem v \<and> (0 < c_strlen mem v \<longrightarrow> p + q < c_strlen mem v) \<and>
    masked (cstr (drop v mem)) pre suf = take p (cstr (drop v mem)) @ ''***'' @ drop (c_strlen mem v - q) (cstr (drop v mem)) \<and>
    (rc = 0 \<longleftrightarrow> p + q + 4 \<le> cap) \<and> (rc \<noteq> 0 \<longrightarrow> mem' = mem) \<and>
    (rc = 0 \<longrightarrow> cstr (drop out mem') = masked (cstr (drop v mem)) pre suf \<and> length mem' = length mem \<and>
       (\<forall>a<length mem. a < out \<or> out + p + q + 4 \<le> a \<longrightarrow> mem' ! a = mem ! a))"
proof -
  let ?n = "c_strlen mem v" let ?s = "cstr (drop v mem)"
  obtain p q where sh: "shown ?n pre suf = (p, q)" by fastforce
  have le: "p + q \<le> ?n" "0 < ?n \<longrightarrow> p + q < ?n" using shown_less [OF sh] by auto
  have req: "p \<le> pre" "q \<le> suf" using sh by (auto simp: shown_def Let_def split: if_splits)
  have s: "?s = take ?n (drop v mem)" "length ?s = ?n"
    unfolding c_strlen_def cstr_def by (simp_all add: takeWhile_eq_take [symmetric])
  have m: "masked ?s pre suf = take p ?s @ ''***'' @ drop (?n - q) ?s" using sh s(2) by (simp add: masked_def)
  let ?m = "(memcpy_at (moved mem v out ?n p q) (out + p) ''***'' 3)[out + (p + q + 4) - 1 := NUL]"
  have r: "(rc, mem') = (if p + q + 4 \<le> cap then (0, ?m) else (rc, mem))" "rc = 0 \<longleftrightarrow> p + q + 4 \<le> cap"
    using assms(3,4) sh unfolding mask_secret_eq by (auto split: if_splits)
  have "cstr (drop out mem') = masked ?s pre suf \<and> length mem' = length mem \<and>
       (\<forall>a<length mem. a < out \<or> out + p + q + 4 \<le> a \<longrightarrow> mem' ! a = mem ! a)" if fits: "p + q + 4 \<le> cap"
  proof -
    have o: "out + p + q + 4 \<le> length mem" using fits assms(2) by linarith
    note B = masked_bytes [OF refl assms(1) le(1) o, folded s(1)]
    have "mem' = ?m" using r(1) fits by simp
    moreover have "cstr (drop out ?m) = take p ?s @ ''***'' @ drop (?n - q) ?s"
    proof (rule cstr_prefix_determines [of "p + q + 3"])
      show "take (Suc (p + q + 3)) (drop out ?m) = (take p ?s @ ''***'' @ drop (?n - q) ?s) @ [NUL]"
        using B(1) by (simp add: numeral_eq_Suc)
      have "nul_free (drop (?n - q) ?s)" using cstr_nul_free [of "drop v mem"] by (auto simp: nul_free_def dest: in_set_dropD)
      moreover have "nul_free ''***''" by (simp add: nul_free_def)
      ultimately show "nul_free (take p ?s @ ''***'' @ drop (?n - q) ?s)"
        by (simp only: nul_free_append nul_free_take cstr_nul_free simp_thms)
    qed
    ultimately show ?thesis using B(2,3) m by auto
  qed
  then show ?thesis using le req m r by (intro exI [of _ p] exI [of _ q]) auto
qed

theorem mask_secret_correct_witness:
  "logger_mask_secret (''topsecret'' @ [NUL, NUL, NUL]) (Some 0) (Some 0) 12 2 2 =
     (0, ''to***et'' @ [NUL] @ ''t'' @ [NUL, NUL, NUL]) \<and>
   (\<exists>p q. p \<le> 2 \<and> q \<le> 2 \<and> p + q < (9 :: nat))"
proof -
  have n: "c_strlen (''topsecret'' @ [NUL, NUL, NUL]) 0 = 9" by (simp add: c_strlen_def cstr_def)
  have e: "logger_mask_secret (''topsecret'' @ [NUL, NUL, NUL]) (Some 0) (Some 0) 12 2 2 =
     (0, ''to***et'' @ [NUL] @ ''t'' @ [NUL, NUL, NUL])"
    using n by (simp add: logger_mask_secret_def Let_def memmove_at_def memcpy_at_def)
  show ?thesis using mask_secret_correct [OF _ _ _ e] n e by auto
qed

end
