(* ===== verification/Logger_Lockdep.thy ===== *)
theory Logger_Lockdep
  imports Logger_Prelude
begin

text \<open>
  \<^verbatim>\<open>src/logger_lockdep.c\<close>: the per-thread stack of held locks and the order in which lock
  classes may be nested. The state is the list \<^verbatim>\<open>held[0..depth)\<close>; a lock is its address with 0
  for the null pointer; a violation, which aborts the process, is the value \<^const>\<open>Inl\<close> of its
  message. The last section shows that threads which pass these checks never wait for
  each other in a cycle.
\<close>

type_synonym lock_class = int
type_synonym lock_addr = nat

abbreviation LOGGER_LOCK_GLOBAL_CONTROL :: lock_class where "LOGGER_LOCK_GLOBAL_CONTROL \<equiv> 0"
abbreviation LOGGER_LOCK_GLOBAL_LIFETIME :: lock_class where "LOGGER_LOCK_GLOBAL_LIFETIME \<equiv> 1"
abbreviation LOGGER_LOCK_INSTANCE_EMIT :: lock_class where "LOGGER_LOCK_INSTANCE_EMIT \<equiv> 2"
abbreviation LOGGER_LOCK_INSTANCE_PROGRESS :: lock_class where "LOGGER_LOCK_INSTANCE_PROGRESS \<equiv> 3"
abbreviation LOGGER_LOCK_QUEUE_WAIT :: lock_class where "LOGGER_LOCK_QUEUE_WAIT \<equiv> 4"
abbreviation LOGGER_LOCK_CONSOLE :: lock_class where "LOGGER_LOCK_CONSOLE \<equiv> 5"
abbreviation LOGGER_LOCK_RUNTIME_FORMAT :: lock_class where "LOGGER_LOCK_RUNTIME_FORMAT \<equiv> 6"
abbreviation LOGGER_LOCK_RUNTIME_RESOURCE :: lock_class where "LOGGER_LOCK_RUNTIME_RESOURCE \<equiv> 7"
abbreviation LOGGER_LOCK_CLASS_NR :: lock_class where "LOGGER_LOCK_CLASS_NR \<equiv> 8"

abbreviation LOGGER_LOCKDEP_MAX_HELD :: nat where "LOGGER_LOCKDEP_MAX_HELD \<equiv> 16"

record logger_lockdep_entry =
  e_class :: lock_class
  e_lock :: lock_addr

type_synonym lockdep_state = "logger_lockdep_entry list"

section \<open>The checks\<close>

definition logger_lockdep_class_name :: "lock_class \<Rightarrow> string" where
  "logger_lockdep_class_name c =
     (if LOGGER_LOCK_CLASS_NR \<le> as_unsigned c then ''invalid''
      else [''global-control'', ''global-lifetime'', ''instance-emit'', ''instance-progress'', ''queue-wait'',
            ''console'', ''runtime-format'', ''runtime-resource''] ! nat (as_unsigned c))"

definition is_instance :: "lock_class \<Rightarrow> bool" where
  "is_instance c = (c = LOGGER_LOCK_INSTANCE_EMIT \<or> c = LOGGER_LOCK_INSTANCE_PROGRESS \<or> c = LOGGER_LOCK_QUEUE_WAIT)"

definition allowed_after :: "lock_class \<Rightarrow> lock_class \<Rightarrow> bool" where
  "allowed_after held nxt =
     (if nxt = LOGGER_LOCK_RUNTIME_RESOURCE
      then held = LOGGER_LOCK_GLOBAL_CONTROL \<or> held = LOGGER_LOCK_GLOBAL_LIFETIME \<or>
           held = LOGGER_LOCK_INSTANCE_EMIT \<or> held = LOGGER_LOCK_RUNTIME_FORMAT
      else if nxt = LOGGER_LOCK_RUNTIME_FORMAT
      then held = LOGGER_LOCK_GLOBAL_CONTROL \<or> held = LOGGER_LOCK_GLOBAL_LIFETIME \<or>
           held = LOGGER_LOCK_INSTANCE_EMIT \<or> held = LOGGER_LOCK_CONSOLE
      else if held = LOGGER_LOCK_GLOBAL_CONTROL then nxt = LOGGER_LOCK_GLOBAL_LIFETIME \<or> is_instance nxt
      else if held = LOGGER_LOCK_GLOBAL_LIFETIME then is_instance nxt
      else False)"

definition logger_lockdep_check_acquire :: "lockdep_state \<Rightarrow> lock_class \<Rightarrow> lock_addr \<Rightarrow> string + unit" where
  "logger_lockdep_check_acquire st c l =
     (if LOGGER_LOCK_CLASS_NR \<le> as_unsigned c \<or> l = 0 then Inl ''invalid acquire''
      else if list_ex (\<lambda>e. e_lock e = l) st then Inl ''recursive/reacquire''
      else if st \<noteq> [] \<and> \<not> allowed_after (e_class (last st)) c then Inl ''forbidden lock order''
      else if length st = LOGGER_LOCKDEP_MAX_HELD then Inl ''held-lock stack overflow''
      else Inr ())"

definition logger_lockdep_acquire :: "lockdep_state \<Rightarrow> lock_class \<Rightarrow> lock_addr \<Rightarrow> string + lockdep_state" where
  "logger_lockdep_acquire st c l =
     (case logger_lockdep_check_acquire st c l of Inl e \<Rightarrow> Inl e
      | Inr _ \<Rightarrow> Inr (st @ [\<lparr>e_class = c, e_lock = l\<rparr>]))"

definition logger_lockdep_check_release :: "lockdep_state \<Rightarrow> lock_class \<Rightarrow> lock_addr \<Rightarrow> string + unit" where
  "logger_lockdep_check_release st c l =
     (if st = [] then Inl ''release without acquire''
      else if e_class (last st) \<noteq> c \<or> e_lock (last st) \<noteq> l then Inl ''non-LIFO/wrong-owner release''
      else Inr ())"

definition logger_lockdep_release :: "lockdep_state \<Rightarrow> lock_class \<Rightarrow> lock_addr \<Rightarrow> string + lockdep_state" where
  "logger_lockdep_release st c l =
     (case logger_lockdep_check_release st c l of Inl e \<Rightarrow> Inl e | Inr _ \<Rightarrow> Inr (butlast st))"

fun logger_lockdep_abandon :: "lockdep_state \<Rightarrow> lock_class \<Rightarrow> lock_addr \<Rightarrow> lockdep_state" where
  "logger_lockdep_abandon [] c l = []"
| "logger_lockdep_abandon (e # es) c l =
     (if e_class e = c \<and> e_lock e = l then es else e # logger_lockdep_abandon es c l)"

definition logger_lockdep_assert_held :: "lockdep_state \<Rightarrow> lock_class \<Rightarrow> lock_addr \<Rightarrow> string + unit" where
  "logger_lockdep_assert_held st c l =
     (if list_ex (\<lambda>e. e_class e = c \<and> e_lock e = l) st then Inr () else Inl ''assert-held failed'')"

definition logger_lockdep_assert_not_held :: "lockdep_state \<Rightarrow> lock_class \<Rightarrow> lock_addr \<Rightarrow> string + unit" where
  "logger_lockdep_assert_not_held st c l =
     (if list_ex (\<lambda>e. e_class e = c \<and> e_lock e = l) st then Inl ''assert-not-held failed'' else Inr ())"

definition logger_lockdep_reset_child :: "lockdep_state \<Rightarrow> lockdep_state" where
  "logger_lockdep_reset_child st = []"

section \<open>The nesting order\<close>

text \<open>A rank for the classes that the permitted nestings respect.\<close>

definition lock_rank :: "lock_class \<Rightarrow> nat" where
  "lock_rank c =
     (if c = LOGGER_LOCK_GLOBAL_CONTROL then 0 else if c = LOGGER_LOCK_GLOBAL_LIFETIME then 1
      else if c = LOGGER_LOCK_RUNTIME_FORMAT then 3 else if c = LOGGER_LOCK_RUNTIME_RESOURCE then 4 else 2)"

lemma allowed_after_rank: "allowed_after h n \<Longrightarrow> lock_rank h < lock_rank n"
  by (auto simp: allowed_after_def lock_rank_def is_instance_def split: if_splits)

definition stack_ok :: "lockdep_state \<Rightarrow> bool" where
  "stack_ok st \<longleftrightarrow> length st \<le> LOGGER_LOCKDEP_MAX_HELD \<and> distinct (map e_lock st) \<and>
     sorted_wrt (\<lambda>a b. lock_rank (e_class a) < lock_rank (e_class b)) st"

lemma stack_ok_Nil [simp]: "stack_ok []"
  by (simp add: stack_ok_def)

lemma last_rank_max:
  assumes "stack_ok st" "e \<in> set st"
  shows "lock_rank (e_class e) \<le> lock_rank (e_class (last st))"
proof -
  obtain xs where "st = xs @ [last st]" using assms(2) by (metis append_butlast_last_id empty_iff empty_set)
  then have "e = last st \<or> e \<in> set xs \<and> (\<forall>x\<in>set xs. lock_rank (e_class x) < lock_rank (e_class (last st)))"
    using assms by (metis (mono_tags, lifting) Un_iff insert_iff list.set_intros(1) list.simps(15) set_append
        sorted_wrt_append stack_ok_def empty_iff empty_set)
  then show ?thesis by auto
qed

lemma check_acquire_rank:
  assumes "stack_ok st" "logger_lockdep_check_acquire st c l = Inr ()" "e \<in> set st"
  shows "lock_rank (e_class e) < lock_rank c"
proof -
  have "allowed_after (e_class (last st)) c"
    using assms(2,3) by (auto simp: logger_lockdep_check_acquire_def split: if_splits)
  then show ?thesis using last_rank_max [OF assms(1,3)] allowed_after_rank by fastforce
qed

lemma acquire_ok:
  assumes "stack_ok st" "logger_lockdep_acquire st c l = Inr st'"
  shows "stack_ok st'"
proof -
  have c: "logger_lockdep_check_acquire st c l = Inr ()" and st': "st' = st @ [\<lparr>e_class = c, e_lock = l\<rparr>]"
    using assms(2) by (auto simp: logger_lockdep_acquire_def split: sum.splits)
  have "length st < LOGGER_LOCKDEP_MAX_HELD" "l \<notin> set (map e_lock st)"
    using assms(1) c by (auto simp: logger_lockdep_check_acquire_def stack_ok_def list_ex_iff split: if_splits)
  then show ?thesis
    using assms(1) check_acquire_rank [OF assms(1) c] by (auto simp: st' stack_ok_def sorted_wrt_append)
qed

lemma release_ok: "stack_ok st \<Longrightarrow> logger_lockdep_release st c l = Inr st' \<Longrightarrow> stack_ok st'"
proof -
  assume s: "stack_ok st" and r: "logger_lockdep_release st c l = Inr st'"
  then have "st' = butlast st" by (auto simp: logger_lockdep_release_def split: sum.splits)
  then have "st' = take (length st - 1) st" by (simp add: butlast_conv_take)
  then show ?thesis using s by (auto simp: stack_ok_def take_map [symmetric] sorted_wrt_take)
qed

lemma set_abandon: "set (logger_lockdep_abandon st c l) \<subseteq> set st"
  by (induction st c l rule: logger_lockdep_abandon.induct) auto

lemma length_abandon: "length (logger_lockdep_abandon st c l) \<le> length st"
  by (induction st c l rule: logger_lockdep_abandon.induct) auto

lemma abandon_ok: "stack_ok st \<Longrightarrow> stack_ok (logger_lockdep_abandon st c l)"
proof -
  assume s: "stack_ok st"
  then have "distinct (map e_lock (logger_lockdep_abandon st c l)) \<and>
      sorted_wrt (\<lambda>a b. lock_rank (e_class a) < lock_rank (e_class b)) (logger_lockdep_abandon st c l)"
    unfolding stack_ok_def
    by (induction st c l rule: logger_lockdep_abandon.induct) (auto dest: set_abandon [THEN subsetD])
  then show ?thesis using s length_abandon [of st c l] by (auto simp: stack_ok_def)
qed

section \<open>Threads\<close>

inductive lockdep_step :: "lockdep_state \<Rightarrow> lockdep_state \<Rightarrow> bool" where
  "logger_lockdep_acquire st c l = Inr st' \<Longrightarrow> lockdep_step st st'"
| "logger_lockdep_release st c l = Inr st' \<Longrightarrow> lockdep_step st st'"
| "lockdep_step st (logger_lockdep_abandon st c l)"
| "lockdep_step st (logger_lockdep_reset_child st)"

lemma lockdep_step_ok: "lockdep_step st st' \<Longrightarrow> stack_ok st \<Longrightarrow> stack_ok st'"
  by (induction rule: lockdep_step.induct)
     (auto intro: acquire_ok release_ok abandon_ok simp: logger_lockdep_reset_child_def)

lemma lockdep_reachable_ok: "lockdep_step\<^sup>*\<^sup>* [] st \<Longrightarrow> stack_ok st"
  by (induction rule: rtranclp_induct) (auto intro: lockdep_step_ok)

text \<open>
  Thread \<open>t\<close> waits for thread \<open>u\<close>: it has passed the check for a lock that \<open>u\<close> holds.
\<close>

definition waits_for :: "(nat \<Rightarrow> lockdep_state) \<Rightarrow> (nat \<Rightarrow> (lock_class \<times> lock_addr) option) \<Rightarrow> nat \<Rightarrow> nat \<Rightarrow> bool" where
  "waits_for held want t u \<longleftrightarrow>
     (\<exists>c l. want t = Some (c, l) \<and> logger_lockdep_check_acquire (held t) c l = Inr () \<and> (\<exists>e\<in>set (held u). e_lock e = l))"

text \<open>C12. Threads that obey the checks never deadlock: whatever locks they hold after any sequence of
  acquisitions, releases, abandonments and resets, and whatever locks they wait for, no
  cycle of threads waiting for each other exists, provided a lock always has the same class.\<close>

theorem lockdep_no_deadlock:
  assumes "\<forall>t. lockdep_step\<^sup>*\<^sup>* [] (held t)"
    and "\<forall>t. \<forall>e\<in>set (held t). e_class e = class_of (e_lock e)"
    and "\<forall>t c l. want t = Some (c, l) \<longrightarrow> c = class_of l"
  shows "\<not> (waits_for held want)\<^sup>+\<^sup>+ t t"
proof -
  let ?r = "\<lambda>t. case want t of None \<Rightarrow> 0 | Some (c, l) \<Rightarrow> lock_rank c"
  have dec: "?r t < ?r u" if tu: "waits_for held want t u" and uv: "\<exists>v. waits_for held want u v" for t u
  proof -
    obtain c l e where w: "want t = Some (c, l)" "e \<in> set (held u)" "e_lock e = l"
      using tu by (auto simp: waits_for_def)
    obtain c' l' where w': "want u = Some (c', l')" "logger_lockdep_check_acquire (held u) c' l' = Inr ()"
      using uv by (auto simp: waits_for_def)
    have "e_class e = c" using assms(2,3) w by auto
    moreover have "stack_ok (held u)" using assms(1) by (simp add: lockdep_reachable_ok)
    ultimately show ?thesis using check_acquire_rank [OF _ w'(2) w(2)] w w' by simp
  qed
  have "?r t < ?r u" if "(waits_for held want)\<^sup>+\<^sup>+ t u" "\<exists>v. waits_for held want u v" for t u
    using that
  proof (induction rule: tranclp_induct)
    case (base y)
    then show ?case using dec by blast
  next
    case (step y z)
    then have "?r t < ?r y" "?r y < ?r z" using dec by blast+
    then show ?case by simp
  qed
  moreover have "\<exists>v. waits_for held want t v" if "(waits_for held want)\<^sup>+\<^sup>+ t t"
    using that by (meson tranclpD)
  ultimately show ?thesis by blast
qed

theorem lockdep_no_deadlock_witness:
  "\<not> (waits_for (\<lambda>t. if t = 0 then [\<lparr>e_class = 0, e_lock = 9\<rparr>] else []) (\<lambda>t. if t = 1 then Some (0, 9) else None))\<^sup>+\<^sup>+ 1 1"
proof -
  have "lockdep_step [] [\<lparr>e_class = 0, e_lock = 9\<rparr>]"
    by (rule lockdep_step.intros(1) [of _ 0 9])
       (simp add: logger_lockdep_acquire_def logger_lockdep_check_acquire_def as_unsigned_def)
  then show ?thesis by (intro lockdep_no_deadlock [where class_of = "\<lambda>_. 0"]) (auto split: if_splits)
qed

end
