(* ===== verification/Logger_Guard.thy ===== *)
theory Logger_Guard
  imports Logger_Lockdep
begin

text \<open>
  The checked lock guards of \<^verbatim>\<open>src/logger_cleanup.h\<close>: the wrappers that keep the lock order checker's stack in
  step with the pthread calls, and the guard object with its constructor, its checked release and the
  destructor that runs when the scope ends.

  The state of a thread is the checker's stack, the locks it really holds and the codes of its coming
  pthread calls (0 after the list). A violation of the lock order aborts the process and is the value
  \<^const>\<open>Inl\<close> of its message.
\<close>

record thread_locks =
  tl_stack :: lockdep_state
  tl_held :: "lock_addr list"
  tl_codes :: "nat list"

section \<open>The pthread calls\<close>

definition next_code :: "thread_locks \<Rightarrow> int \<times> thread_locks" where
  "next_code s = (case tl_codes s of [] \<Rightarrow> (0, s) | e # es \<Rightarrow> (int e, s\<lparr>tl_codes := es\<rparr>))"

definition pthread_lock :: "lock_addr \<Rightarrow> thread_locks \<Rightarrow> int \<times> thread_locks" where
  "pthread_lock l s = (case next_code s of (rc, s1) \<Rightarrow> (rc, if rc = 0 then s1\<lparr>tl_held := l # tl_held s1\<rparr> else s1))"

definition pthread_unlock :: "lock_addr \<Rightarrow> thread_locks \<Rightarrow> int \<times> thread_locks" where
  "pthread_unlock l s = (case next_code s of (rc, s1) \<Rightarrow> (rc, if rc = 0 then s1\<lparr>tl_held := remove1 l (tl_held s1)\<rparr> else s1))"

section \<open>The wrappers\<close>

definition note_acquired :: "lock_class \<Rightarrow> lock_addr \<Rightarrow> int \<times> thread_locks \<Rightarrow> string + int \<times> thread_locks" where
  "note_acquired c l r = (case r of (rc, s) \<Rightarrow>
     if rc \<noteq> 0 then Inr (rc, s)
     else case logger_lockdep_acquire (tl_stack s) c l of Inl e \<Rightarrow> Inl e | Inr st \<Rightarrow> Inr (0, s\<lparr>tl_stack := st\<rparr>))"

definition cleanup_lockdep_mutex_lock :: "lock_addr \<Rightarrow> lock_class \<Rightarrow> thread_locks \<Rightarrow> string + int \<times> thread_locks" where
  "cleanup_lockdep_mutex_lock mu c s =
     (case logger_lockdep_check_acquire (tl_stack s) c mu of
        Inl e \<Rightarrow> Inl e
      | Inr _ \<Rightarrow> note_acquired c mu (pthread_lock mu s))"

text \<open>A lock that is only tried cannot deadlock: the order is checked when it has been taken.\<close>

definition cleanup_lockdep_mutex_trylock :: "lock_addr \<Rightarrow> lock_class \<Rightarrow> thread_locks \<Rightarrow> string + int \<times> thread_locks" where
  "cleanup_lockdep_mutex_trylock mu c s = note_acquired c mu (pthread_lock mu s)"

definition cleanup_lockdep_mutex_unlock :: "lock_addr \<Rightarrow> lock_class \<Rightarrow> thread_locks \<Rightarrow> string + int \<times> thread_locks" where
  "cleanup_lockdep_mutex_unlock mu c s =
     (case logger_lockdep_check_release (tl_stack s) c mu of
        Inl e \<Rightarrow> Inl e
      | Inr _ \<Rightarrow>
        (case pthread_unlock mu s of (rc, s1) \<Rightarrow>
           if rc = 0
           then (case logger_lockdep_release (tl_stack s1) c mu of Inl e \<Rightarrow> Inl e | Inr st \<Rightarrow> Inr (0, s1\<lparr>tl_stack := st\<rparr>))
           else Inr (rc, s1\<lparr>tl_stack := logger_lockdep_abandon (tl_stack s1) c mu\<rparr>)))"

text \<open>The lifetime lock; the read and the write side differ for other threads only.\<close>

definition cleanup_lockdep_rwlock_lock :: "lock_addr \<Rightarrow> thread_locks \<Rightarrow> string + int \<times> thread_locks" where
  "cleanup_lockdep_rwlock_lock rw s =
     (case logger_lockdep_check_acquire (tl_stack s) LOGGER_LOCK_GLOBAL_LIFETIME rw of
        Inl e \<Rightarrow> Inl e
      | Inr _ \<Rightarrow> note_acquired LOGGER_LOCK_GLOBAL_LIFETIME rw (pthread_lock rw s))"

definition cleanup_lockdep_rwlock_trywrlock :: "lock_addr \<Rightarrow> thread_locks \<Rightarrow> string + int \<times> thread_locks" where
  "cleanup_lockdep_rwlock_trywrlock rw s = note_acquired LOGGER_LOCK_GLOBAL_LIFETIME rw (pthread_lock rw s)"

definition cleanup_lockdep_rwlock_unlock :: "lock_addr \<Rightarrow> thread_locks \<Rightarrow> string + int \<times> thread_locks" where
  "cleanup_lockdep_rwlock_unlock rw s =
     (case logger_lockdep_check_release (tl_stack s) LOGGER_LOCK_GLOBAL_LIFETIME rw of
        Inl e \<Rightarrow> Inl e
      | Inr _ \<Rightarrow>
        (case pthread_unlock rw s of (rc, s1) \<Rightarrow>
           if rc = 0
           then (case logger_lockdep_release (tl_stack s1) LOGGER_LOCK_GLOBAL_LIFETIME rw of
                   Inl e \<Rightarrow> Inl e | Inr st \<Rightarrow> Inr (0, s1\<lparr>tl_stack := st\<rparr>))
           else Inr (rc, s1\<lparr>tl_stack := logger_lockdep_abandon (tl_stack s1) LOGGER_LOCK_GLOBAL_LIFETIME rw\<rparr>)))"

section \<open>The guard\<close>

record lock_guard =
  gd_resource :: lock_addr
  gd_err :: int

definition cleanup_normalize_lock_error :: "int \<Rightarrow> int" where
  "cleanup_normalize_lock_error rc = (if 0 < rc then - rc else if rc < 0 then rc else - EBUSY)"

definition guard_constructor :: "lock_class \<Rightarrow> lock_addr \<Rightarrow> thread_locks \<Rightarrow> string + lock_guard \<times> thread_locks" where
  "guard_constructor c mu s =
     (case cleanup_lockdep_mutex_lock mu c s of
        Inl e \<Rightarrow> Inl e
      | Inr (rc, s1) \<Rightarrow> Inr (\<lparr>gd_resource = mu, gd_err = (if rc = 0 then 0 else cleanup_normalize_lock_error rc)\<rparr>, s1))"

definition guard_lock_err :: "lock_guard \<Rightarrow> int" where
  "guard_lock_err g = gd_err g"

definition guard_lock_acquired :: "lock_guard \<Rightarrow> bool" where
  "guard_lock_acquired g = (gd_err g = 0)"

definition guard_release :: "lock_class \<Rightarrow> lock_guard \<Rightarrow> thread_locks \<Rightarrow> string + int \<times> lock_guard \<times> thread_locks" where
  "guard_release c g s =
     (if gd_err g \<noteq> 0 then Inr (gd_err g, g, s)
      else case cleanup_lockdep_mutex_unlock (gd_resource g) c s of
        Inl e \<Rightarrow> Inl e
      | Inr (rc, s1) \<Rightarrow> Inr (if rc \<noteq> 0 then - rc else 0, g\<lparr>gd_err := - ECANCELED\<rparr>, s1))"

definition guard_destructor :: "lock_class \<Rightarrow> lock_guard \<Rightarrow> thread_locks \<Rightarrow> string + thread_locks" where
  "guard_destructor c g s =
     (if gd_err g \<noteq> 0 then Inr s
      else case cleanup_lockdep_mutex_unlock (gd_resource g) c s of Inl e \<Rightarrow> Inl e | Inr (_, s1) \<Rightarrow> Inr s1)"

section \<open>Balance\<close>

lemma code_frame [simp]:
  "tl_stack (snd (next_code s)) = tl_stack s" "tl_held (snd (next_code s)) = tl_held s"
  by (simp_all add: next_code_def split: list.splits)

lemma call_frame [simp]: "tl_stack (snd (pthread_lock l s)) = tl_stack s" "tl_stack (snd (pthread_unlock l s)) = tl_stack s"
  by (simp_all add: pthread_lock_def pthread_unlock_def case_prod_beta)

lemma abandon_last:
  assumes "l \<notin> set (map e_lock st)"
  shows "logger_lockdep_abandon (st @ [\<lparr>e_class = c, e_lock = l\<rparr>]) c l = st"
  using assms by (induction st) auto

text \<open>Taking a lock: either a violation, or the pthread call's code, with the stack grown exactly when it succeeded.\<close>

lemma mutex_lock_cases:
  assumes "cleanup_lockdep_mutex_lock mu c s = Inr (rc, s')"
  obtains (taken) "rc = 0" "tl_stack s' = tl_stack s @ [\<lparr>e_class = c, e_lock = mu\<rparr>]" "tl_held s' = mu # tl_held s"
      "mu \<notin> set (map e_lock (tl_stack s))"
  | (failed) "0 < rc" "tl_stack s' = tl_stack s" "tl_held s' = tl_held s"
proof -
  obtain rc1 s1 where c1: "next_code s = (rc1, s1)" by fastforce
  have f: "tl_stack s1 = tl_stack s" "tl_held s1 = tl_held s" "0 \<le> rc1"
    using code_frame [of s] c1 by (simp, simp, auto simp: next_code_def split: list.splits)
  have ch: "logger_lockdep_check_acquire (tl_stack s) c mu = Inr ()"
    using assms by (auto simp: cleanup_lockdep_mutex_lock_def split: sum.splits)
  have new: "mu \<notin> set (map e_lock (tl_stack s))"
    using ch by (auto simp: logger_lockdep_check_acquire_def list_ex_iff split: if_splits)
  show thesis
  proof (cases "rc1 = 0")
    case True
    then have "rc = 0" "s' = s1\<lparr>tl_held := mu # tl_held s1, tl_stack := tl_stack s @ [\<lparr>e_class = c, e_lock = mu\<rparr>]\<rparr>"
      using assms ch f by (auto simp: cleanup_lockdep_mutex_lock_def pthread_lock_def c1 note_acquired_def logger_lockdep_acquire_def)
    then show thesis using taken new f by simp
  next
    case False
    then have "rc = rc1" "s' = s1" using assms ch by (auto simp: cleanup_lockdep_mutex_lock_def pthread_lock_def c1 note_acquired_def)
    then show thesis using failed f False by simp
  qed
qed

text \<open>Releasing the lock on top of the stack is no violation and takes it off, whatever the call returns.\<close>

lemma mutex_unlock_top:
  assumes "tl_stack s = st @ [\<lparr>e_class = c, e_lock = mu\<rparr>]" "mu \<notin> set (map e_lock st)"
  shows "\<exists>rc s'. cleanup_lockdep_mutex_unlock mu c s = Inr (rc, s') \<and> tl_stack s' = st \<and> 0 \<le> rc \<and>
    tl_held s' = (if rc = 0 then remove1 mu (tl_held s) else tl_held s)"
proof -
  obtain rc1 s1 where c1: "next_code s = (rc1, s1)" by fastforce
  have f: "tl_stack s1 = tl_stack s" "tl_held s1 = tl_held s" "0 \<le> rc1"
    using code_frame [of s] c1 by (simp, simp, auto simp: next_code_def split: list.splits)
  show ?thesis
    using assms f abandon_last [OF assms(2), of c]
    by (simp add: cleanup_lockdep_mutex_unlock_def logger_lockdep_check_release_def logger_lockdep_release_def pthread_unlock_def c1)
qed

text \<open>C13. A guard is balanced. Once the constructor has returned, neither the checked release nor the destructor violates the
  lock order, and after the scope the checker's stack is what it was before it, on every path: with a checked
  release or without one, and whatever the pthread calls return. A guard that could not take the lock
  reports a negative code, never unlocks, and gives its own code on release. A guard that took it holds the lock until the
  one unlock of the scope; the destructor after a checked release does nothing.\<close>

theorem guard_balanced:
  assumes "guard_constructor c mu s = Inr (g, s1)"
  shows "(gd_err g \<noteq> 0 \<longrightarrow> gd_err g < 0 \<and> tl_held s1 = tl_held s \<and> tl_stack s1 = tl_stack s \<and>
      guard_release c g s1 = Inr (gd_err g, g, s1) \<and> guard_destructor c g s1 = Inr s1) \<and>
    (gd_err g = 0 \<longrightarrow> tl_held s1 = mu # tl_held s \<and>
      (\<exists>rc g2 s2. guard_release c g s1 = Inr (rc, g2, s2) \<and> rc \<le> 0 \<and> tl_stack s2 = tl_stack s \<and>
        tl_held s2 = (if rc = 0 then tl_held s else mu # tl_held s) \<and> guard_destructor c g2 s2 = Inr s2) \<and>
      (\<exists>s3. guard_destructor c g s1 = Inr s3 \<and> tl_stack s3 = tl_stack s \<and> tl_held s3 \<in> {tl_held s, mu # tl_held s}))"
proof -
  obtain rc where run: "cleanup_lockdep_mutex_lock mu c s = Inr (rc, s1)"
    and g: "g = \<lparr>gd_resource = mu, gd_err = (if rc = 0 then 0 else cleanup_normalize_lock_error rc)\<rparr>"
    using assms by (auto simp: guard_constructor_def split: sum.splits)
  from run show ?thesis
  proof (cases rule: mutex_lock_cases)
    case taken
    obtain rc2 s2 where u: "cleanup_lockdep_mutex_unlock mu c s1 = Inr (rc2, s2)" "tl_stack s2 = tl_stack s" "0 \<le> rc2"
        "tl_held s2 = (if rc2 = 0 then remove1 mu (tl_held s1) else tl_held s1)"
      using mutex_unlock_top [OF taken(2,4)] by blast
    then show ?thesis using taken g by (simp add: guard_release_def guard_destructor_def)
  next
    case failed
    then show ?thesis using g by (simp add: guard_release_def guard_destructor_def cleanup_normalize_lock_error_def)
  qed
qed

text \<open>The unlock of the sample scope fails: the lock stays held and the code is reported, the stack is clean.\<close>

theorem guard_balanced_witness:
  "\<exists>g s1 g2 s2. guard_constructor LOGGER_LOCK_CONSOLE 9 \<lparr>tl_stack = [], tl_held = [], tl_codes = [0, 5]\<rparr> = Inr (g, s1) \<and>
     guard_release LOGGER_LOCK_CONSOLE g s1 = Inr (- 5, g2, s2) \<and> tl_stack s2 = [] \<and> guard_destructor LOGGER_LOCK_CONSOLE g2 s2 = Inr s2"
proof -
  let ?s = "\<lparr>tl_stack = [], tl_held = [], tl_codes = [0, 5]\<rparr>" and ?g = "\<lparr>gd_resource = 9, gd_err = 0\<rparr>"
    and ?s1 = "\<lparr>tl_stack = [\<lparr>e_class = LOGGER_LOCK_CONSOLE, e_lock = 9\<rparr>], tl_held = [9], tl_codes = [5]\<rparr>"
  have c: "guard_constructor LOGGER_LOCK_CONSOLE 9 ?s = Inr (?g, ?s1)"
    by (simp add: guard_constructor_def cleanup_lockdep_mutex_lock_def logger_lockdep_check_acquire_def as_unsigned_def
        note_acquired_def pthread_lock_def next_code_def logger_lockdep_acquire_def)
  obtain rc g2 s2 where r: "guard_release LOGGER_LOCK_CONSOLE ?g ?s1 = Inr (rc, g2, s2)" "tl_stack s2 = []"
      "guard_destructor LOGGER_LOCK_CONSOLE g2 s2 = Inr s2"
    using guard_balanced [OF c] by auto
  have "rc = - 5" using r(1)
    by (auto simp: guard_release_def cleanup_lockdep_mutex_unlock_def logger_lockdep_check_release_def pthread_unlock_def next_code_def)
  then show ?thesis using c r by blast
qed

end
