(* ===== verification/Logger_Format.thy ===== *)
theory Logger_Format
  imports Logger_Record
begin

text \<open>
  \<^verbatim>\<open>src/logger_format.c\<close>: level names, the bounded line buffer, the timestamp cache with its
  strict syntax check, and the two line formatters. \<^verbatim>\<open>localtime_r\<close> with \<^verbatim>\<open>strftime\<close> (they
  depend on the time zone) and failures of \<^verbatim>\<open>vsnprintf\<close> are the argument \<open>format_env\<close>; the
  conversions the code uses (\<^verbatim>\<open>%s %-5s %d %ld %06ld\<close>) are written out. When \<^verbatim>\<open>vsnprintf\<close> fails
  the bytes behind the used part of the line are left as they were.
\<close>

section \<open>Numbers as text\<close>

definition digit :: "nat \<Rightarrow> char" where
  "digit d = char_of (48 + d)"

fun dec_nat :: "nat \<Rightarrow> string" where
  "dec_nat n = (if n < 10 then [digit n] else dec_nat (n div 10) @ [digit (n mod 10)])"

declare dec_nat.simps [simp del]

definition dec_int :: "int \<Rightarrow> string" where
  "dec_int x = (if x < 0 then CHR ''-'' # dec_nat (nat (- x)) else dec_nat (nat x))"

definition zero_padded :: "nat \<Rightarrow> int \<Rightarrow> string" where
  "zero_padded w x =
     (if x < 0 then CHR ''-'' # replicate (w - 1 - length (dec_nat (nat (- x)))) (CHR ''0'') @ dec_nat (nat (- x))
      else replicate (w - length (dec_nat (nat x))) (CHR ''0'') @ dec_nat (nat x))"

definition left_justified :: "nat \<Rightarrow> string \<Rightarrow> string" where
  "left_justified w s = s @ replicate (w - length s) (CHR '' '')"

text \<open>Division of signed C integers truncates towards zero.\<close>

definition c_div :: "int \<Rightarrow> int \<Rightarrow> int" where
  "c_div a b = (if a < 0 then - ((- a) div b) else a div b)"

definition logger_level_name :: "logger_level_t \<Rightarrow> string" where
  "logger_level_name level =
     (if as_unsigned level \<le> LOGGER_OFF
      then [''TRACE'', ''DEBUG'', ''INFO'', ''WARN'', ''ERROR'', ''FATAL'', ''OFF''] ! nat (as_unsigned level)
      else ''UNKNOWN'')"

section \<open>The line buffer\<close>

record line_buffer =
  lb_out :: "char list"
  lb_cap :: nat
  lb_used :: nat
  lb_strict :: bool
  lb_truncated :: bool

definition append_overflow :: "line_buffer \<Rightarrow> int \<times> line_buffer" where
  "append_overflow line = (if lb_strict line then (- EOVERFLOW, line) else (0, line\<lparr>lb_truncated := True\<rparr>))"

text \<open>\<open>fail\<close> is the \<^verbatim>\<open>errno\<close> of a failing \<^verbatim>\<open>vsnprintf\<close>, \<open>s\<close> the expansion of a successful one.\<close>

definition append :: "line_buffer \<Rightarrow> errno option \<Rightarrow> string \<Rightarrow> int \<times> line_buffer" where
  "append line fail s =
     (if lb_cap line - 1 \<le> lb_used line then append_overflow line
      else case fail of
        Some e \<Rightarrow> (let rc = - errno_or e EILSEQ in if rc \<noteq> - EOVERFLOW then (rc, line) else append_overflow line)
      | None \<Rightarrow>
        let room = lb_cap line - lb_used line;
            stored = take (room - 1) s @ [NUL];
            line1 = line\<lparr>lb_out := memcpy_at (lb_out line) (lb_used line) stored (length stored)\<rparr>
        in if room \<le> length s then append_overflow (line1\<lparr>lb_used := lb_used line + (room - 1)\<rparr>)
           else (0, line1\<lparr>lb_used := lb_used line + length s\<rparr>))"

text \<open>A sequence of appends, left at the first error.\<close>

fun append_all :: "(nat \<Rightarrow> errno option) \<Rightarrow> nat \<Rightarrow> line_buffer \<Rightarrow> string list \<Rightarrow> int \<times> line_buffer" where
  "append_all fails k line [] = (0, line)"
| "append_all fails k line (s # ss) =
     (case append line (fails k) s of (rc, line') \<Rightarrow>
        if rc \<noteq> 0 then (rc, line') else append_all fails (Suc k) line' ss)"

section \<open>The timestamp\<close>

record timestamp_cache =
  tc_sec :: int
  tc_valid :: bool
  tc_date :: string
  tc_zone :: string

definition dec_digit :: "char \<Rightarrow> bool" where
  "dec_digit c = (48 \<le> (of_char c :: nat) \<and> of_char c \<le> (57 :: nat))"

definition digit_value :: "char \<Rightarrow> nat" where
  "digit_value c = of_char c - 48"

definition two_digits :: "string \<Rightarrow> nat \<Rightarrow> nat" where
  "two_digits s i = digit_value (s ! i) * 10 + digit_value (s ! (i + 1))"

definition date_delimiter :: "nat \<Rightarrow> char option" where
  "date_delimiter i = (if i = 4 \<or> i = 7 then Some (CHR ''-'') else if i = 10 then Some (CHR ''T'')
     else if i = 13 \<or> i = 16 then Some (CHR '':'') else None)"

definition month_days :: "nat list" where
  "month_days = [31, 28, 31, 30, 31, 30, 31, 31, 30, 31, 30, 31]"

definition leap_year :: "nat \<Rightarrow> bool" where
  "leap_year year = (year mod 4 = 0 \<and> (year mod 100 \<noteq> 0 \<or> year mod 400 = 0))"

definition canonical_time :: "timestamp_cache \<Rightarrow> bool" where
  "canonical_time cache =
     (let d = tc_date cache; z = tc_zone cache in
      if \<not> tc_valid cache \<or> length d \<noteq> 19 \<or> length z \<noteq> 5 then False
      else if list_ex (\<lambda>i. case date_delimiter i of Some c \<Rightarrow> d ! i \<noteq> c | None \<Rightarrow> \<not> dec_digit (d ! i)) [0..<19] then False
      else if z ! 0 \<noteq> CHR ''+'' \<and> z ! 0 \<noteq> CHR ''-'' then False
      else if list_ex (\<lambda>i. \<not> dec_digit (z ! i)) [1..<5] then False
      else
        let year = digit_value (d ! 0) * 1000 + digit_value (d ! 1) * 100 + digit_value (d ! 2) * 10 + digit_value (d ! 3);
            month = two_digits d 5; day = two_digits d 8; hour = two_digits d 11;
            minute = two_digits d 14; second = two_digits d 17;
            zone_hour = two_digits z 1; zone_minute = two_digits z 3
        in if year = 0 \<or> month = 0 \<or> 12 < month \<or> day = 0 \<or> 23 < hour \<or> 59 < minute \<or> 60 < second \<or>
              23 < zone_hour \<or> 59 < zone_minute then False
           else day \<le> month_days ! (month - 1) + (if month = 2 \<and> leap_year year then 1 else 0))"

text \<open>
  \<open>fe_localtime\<close>: the date and zone texts \<^verbatim>\<open>strftime\<close> produces for a second, if \<^verbatim>\<open>localtime_r\<close>
  succeeds; \<^verbatim>\<open>strftime\<close> returns 0 for a text that is empty or does not fit its array.
\<close>

record format_env =
  fe_localtime :: "int \<Rightarrow> (string \<times> string) option"
  fe_vsnprintf :: "nat \<Rightarrow> errno option"

definition refresh_time :: "format_env \<Rightarrow> timestamp_cache \<Rightarrow> int \<Rightarrow> timestamp_cache" where
  "refresh_time env cache sec =
     (if \<not> tc_valid cache \<or> tc_sec cache \<noteq> sec
      then let c1 = cache\<lparr>tc_valid := False\<rparr> in
        case fe_localtime env sec of
          Some (date, zone) \<Rightarrow>
            if date \<noteq> [] \<and> length date < 32 \<and> zone \<noteq> [] \<and> length zone < 16
            then c1\<lparr>tc_date := date, tc_zone := zone, tc_sec := sec, tc_valid := True\<rparr>
            else c1\<lparr>tc_date := ''time-unavailable'', tc_zone := []\<rparr>
        | None \<Rightarrow> c1\<lparr>tc_date := ''time-unavailable'', tc_zone := []\<rparr>
      else cache)"

section \<open>The line\<close>

text \<open>The parts of the logger the formatter reads.\<close>

record line_config =
  fc_detail :: logger_detail_t
  fc_include_pid :: bool
  fc_include_tid :: bool
  fc_include_source :: bool

text \<open>The expansions of the \<^verbatim>\<open>append\<close> calls of \<^verbatim>\<open>format_line\<close>, in order.\<close>

definition line_pieces :: "timestamp_cache \<Rightarrow> line_config \<Rightarrow> logger_message \<Rightarrow> string list" where
  "line_pieces t l m =
     [tc_date t @ ''.'' @ zero_padded 6 (c_div (tv_nsec (m_ts m)) 1000) @ tc_zone t @ '' '' @
        left_justified 5 (logger_level_name (m_level m))] @
     (if LOGGER_DETAIL_VERBOSE \<le> fc_detail l
      then (if fc_include_pid l then ['' pid='' @ dec_int (m_pid m)] else []) @
           (if fc_include_tid l then ['' tid='' @ dec_int (m_tid m)] else [])
      else []) @
     (if LOGGER_DETAIL_NORMAL \<le> fc_detail l then ['' ['' @ str_or (m_module m) ''app'' @ '']''] else []) @
     (if LOGGER_DETAIL_DEBUG \<le> fc_detail l
      then (if m_request_id m ! 0 \<noteq> NUL then ['' request='' @ cstr (m_request_id m)] else []) @
           (if m_session_id m ! 0 \<noteq> NUL then ['' session='' @ cstr (m_session_id m)] else []) @
           (if m_trace_id m ! 0 \<noteq> NUL then ['' trace='' @ cstr (m_trace_id m)] else []) @
           (if fc_include_source l
            then ['' '' @ logger_basename (m_file m) @ '':'' @ dec_int (m_line m) @ '' '' @ str_or (m_func m) ''?'' @ ''()'']
            else [])
      else []) @
     ['' '' @ cstr (m_text m)]"

text \<open>Result: the code, the length if it was written, the buffer and the cache.\<close>

definition format_line ::
  "format_env \<Rightarrow> timestamp_cache \<Rightarrow> line_config option \<Rightarrow> logger_message option \<Rightarrow> char list option \<Rightarrow> nat \<Rightarrow> bool \<Rightarrow>
   int \<times> nat option \<times> char list option \<times> timestamp_cache" where
  "format_line env cache lp mp outp cap strict =
     (if cap = 0 then (if strict then - EOVERFLOW else 0, None, outp, cache)
      else case (outp, lp, mp) of
        (Some out0, Some l, Some m) \<Rightarrow>
          (let out = out0[0 := NUL] in
           if cap = 1 then (if strict then - EOVERFLOW else 0, None, Some out, cache)
           else if strict \<and> (tv_nsec (m_ts m) < 0 \<or> 1000000000 \<le> tv_nsec (m_ts m)) then (- EINVAL, None, Some out, cache)
           else let cache' = refresh_time env cache (tv_sec (m_ts m)) in
           if strict \<and> \<not> canonical_time cache' then (- EOVERFLOW, None, Some out, cache')
           else case append_all (fe_vsnprintf env) 0
                       \<lparr>lb_out = out, lb_cap = cap - 1, lb_used = 0, lb_strict = strict, lb_truncated = False\<rparr>
                       (line_pieces cache' l m) of
             (rc, line) \<Rightarrow>
               if rc \<noteq> 0 then (rc, None, Some (lb_out line), cache')
               else let o1 = (if lb_truncated line then logger_text_mark_truncated (lb_out line) (cap - 1) else lb_out line);
                        o2 = (o1[lb_used line := CHR ''\<newline>''])[lb_used line + 1 := NUL]
                    in (0, Some (lb_used line + 1), Some o2, cache'))
      | _ \<Rightarrow> (- EINVAL, None, outp, cache))"

definition clear_first :: "char list option \<Rightarrow> nat \<Rightarrow> char list option" where
  "clear_first outp cap = (case outp of Some out \<Rightarrow> if cap \<noteq> 0 then Some (out[0 := NUL]) else outp | None \<Rightarrow> outp)"

text \<open>The length, the \<^verbatim>\<open>errno\<close> the call sets (0 when it leaves it alone), the buffer and the cache.\<close>

definition logger_format_line ::
  "format_env \<Rightarrow> timestamp_cache \<Rightarrow> line_config option \<Rightarrow> logger_message option \<Rightarrow> char list option \<Rightarrow> nat \<Rightarrow>
   nat \<times> errno \<times> char list option \<times> timestamp_cache" where
  "logger_format_line env cache lp mp outp cap =
     (case format_line env cache lp mp outp cap False of (rc, len, out, cache') \<Rightarrow>
        (case len of None \<Rightarrow> 0 | Some n \<Rightarrow> n, if rc \<noteq> 0 then - rc else 0,
         if rc \<noteq> 0 then clear_first out cap else out, cache'))"

definition logger_format_line_checked ::
  "format_env \<Rightarrow> timestamp_cache \<Rightarrow> line_config option \<Rightarrow> logger_message option \<Rightarrow> char list option \<Rightarrow> nat \<Rightarrow> bool \<Rightarrow>
   int \<times> nat \<times> char list option \<times> timestamp_cache" where
  "logger_format_line_checked env cache lp mp outp cap has_length =
     (if \<not> has_length then (- EINVAL, 0, outp, cache)
      else case format_line env cache lp mp outp cap True of (rc, len, out, cache') \<Rightarrow>
        (rc, case len of None \<Rightarrow> 0 | Some n \<Rightarrow> n, if rc \<noteq> 0 then clear_first out cap else out, cache'))"

definition logger_format_reset_child :: "timestamp_cache \<Rightarrow> timestamp_cache" where
  "logger_format_reset_child cache = cache\<lparr>tc_valid := False\<rparr>"

end
