(* ===== verification/Logger_Format_Props.thy ===== *)
theory Logger_Format_Props
  imports Logger_Format
begin

text \<open>
  What the line formatters produce. A plain line is the concatenation of its pieces and a
  line feed, or a visibly truncated prefix that exactly fills the buffer; a strict line is
  never shortened. The strict timestamp check accepts exactly the calendar times.
\<close>

section \<open>The pieces\<close>

lemma nul_free_digit: "d < 10 \<Longrightarrow> digit d \<noteq> NUL"
proof
  assume "d < 10" "digit d = NUL"
  then have "of_char (digit d) = (0 :: nat)" by simp
  then show False using \<open>d < 10\<close> by (simp add: digit_def)
qed

lemma nul_free_dec_nat [simp]: "nul_free (dec_nat n)"
proof (induction n rule: dec_nat.induct)
  case (1 n)
  then show ?case
    using nul_free_digit [of n] nul_free_digit [of "n mod 10"]
    by (subst dec_nat.simps) (auto simp: nul_free_def)
qed

lemma nul_free_Cons [simp]: "nul_free (c # s) \<longleftrightarrow> c \<noteq> NUL \<and> nul_free s"
  by (auto simp: nul_free_def)

lemma nul_free_Nil [simp]: "nul_free []"
  by (simp add: nul_free_def)

lemma nul_free_replicate [simp]: "c \<noteq> NUL \<Longrightarrow> nul_free (replicate n c)"
  by (auto simp: nul_free_def)

lemma nul_free_dec_int [simp]: "nul_free (dec_int x)"
  by (simp add: dec_int_def)

lemma nul_free_zero_padded [simp]: "nul_free (zero_padded w x)"
  by (simp add: zero_padded_def)

lemma nul_free_level_name [simp]: "nul_free (logger_level_name l)"
proof (cases "as_unsigned l \<le> LOGGER_OFF")
  case True
  then have "nat (as_unsigned l) < length [''TRACE'', ''DEBUG'', ''INFO'', ''WARN'', ''ERROR'', ''FATAL'', ''OFF'']"
    by simp
  then have "logger_level_name l \<in> set [''TRACE'', ''DEBUG'', ''INFO'', ''WARN'', ''ERROR'', ''FATAL'', ''OFF'']"
    using True unfolding logger_level_name_def by (metis nth_mem)
  then show ?thesis by auto
next
  case False
  then show ?thesis by (simp add: logger_level_name_def)
qed

definition line_ok :: "timestamp_cache \<Rightarrow> logger_message \<Rightarrow> bool" where
  "line_ok t m \<longleftrightarrow> nul_free (tc_date t) \<and> nul_free (tc_zone t) \<and>
     list_all (\<lambda>p. case p of None \<Rightarrow> True | Some s \<Rightarrow> nul_free s) [m_module m, m_file m, m_func m]"

lemma pieces_nul_free:
  assumes "line_ok t m"
  shows "nul_free (concat (line_pieces t l m))"
proof -
  have "nul_free (str_or (m_module m) ''app'')" "nul_free (logger_basename (m_file m))" "nul_free (str_or (m_func m) ''?'')"
    using assms by (auto simp: line_ok_def intro!: nul_free_str_or nul_free_basename split: option.splits)
  then show ?thesis using assms
    by (simp add: line_pieces_def line_ok_def left_justified_def)
qed

lemma pieces_nonempty: "s \<in> set (line_pieces t l m) \<Longrightarrow> s \<noteq> []"
  by (auto simp: line_pieces_def split: if_splits)

section \<open>The buffer after a sequence of appends\<close>

text \<open>The used part of the buffer is the text so far, cut at \<open>cap - 1\<close> bytes.\<close>

definition holds_text :: "line_buffer \<Rightarrow> string \<Rightarrow> bool" where
  "holds_text line s \<longleftrightarrow> 1 \<le> lb_cap line \<and> lb_cap line \<le> length (lb_out line) \<and>
     lb_used line = min (lb_cap line - 1) (length s) \<and> take (lb_used line) (lb_out line) = take (lb_cap line - 1) s \<and>
     (lb_truncated line \<longleftrightarrow> lb_cap line - 1 < length s)"

lemma take_front:
  assumes "take n xs = a @ b" "length a \<le> n"
  shows "take (length a) xs = a"
proof -
  have "take (length a) xs = take (length a) (take n xs)" using assms(2) by (simp add: min_absorb1)
  then show ?thesis using assms(1) by simp
qed

lemma append_ok:
  assumes h: "holds_text line t" and s: "s \<noteq> []" and r: "append line None s = (rc, line')"
  shows "if lb_strict line \<and> lb_cap line - 1 < length (t @ s) then rc = - EOVERFLOW
         else rc = 0 \<and> holds_text line' (t @ s) \<and> lb_cap line' = lb_cap line \<and> lb_strict line' = lb_strict line \<and>
              length (lb_out line') = length (lb_out line)"
proof (cases "lb_cap line - 1 \<le> lb_used line")
  case True
  then have long: "lb_cap line - 1 \<le> length t" "lb_cap line - 1 < length (t @ s)"
    using h s by (auto simp: holds_text_def)
  then show ?thesis using True h r
    by (auto simp: append_def append_overflow_def holds_text_def)
next
  case False
  let ?c = "lb_cap line" let ?u = "lb_used line"
  have u: "?u = length t" "?u < ?c - 1" using False h by (auto simp: holds_text_def)
  then have t: "take ?u (lb_out line) = t" using h by (auto simp: holds_text_def)
  let ?st = "take (?c - ?u - 1) s @ [NUL]"
  let ?o = "memcpy_at (lb_out line) ?u ?st (length ?st)"
  have fit: "?u + length ?st \<le> length (lb_out line)" using u h by (auto simp: holds_text_def)
  have pre: "take (?u + length ?st) ?o = t @ ?st" using take_memcpy_at [OF fit order_refl] unfolding t by (simp only: take_all order_refl)
  have len: "length ?o = length (lb_out line)" using fit by simp
  show ?thesis
  proof (cases "?c - ?u \<le> length s")
    case True
    have "take (?c - 1) ?o = t @ take (?c - ?u - 1) s"
    proof -
      have "length (t @ take (?c - ?u - 1) s) = ?c - 1" "length (t @ take (?c - ?u - 1) s) \<le> ?u + length ?st"
        using True u by auto
      then show ?thesis using take_front [of "?u + length ?st" ?o "t @ take (?c - ?u - 1) s" "[NUL]"] pre by simp
    qed
    then show ?thesis using r u True False h len
      by (auto simp: append_def append_overflow_def Let_def holds_text_def)
  next
    case short: False
    have "take (?u + length s) ?o = t @ s"
    proof -
      have "take (?c - ?u - 1) s = s" using short by simp
      then have "take (?u + length ?st) ?o = (t @ s) @ [NUL]" "length (t @ s) \<le> ?u + length ?st" "length (t @ s) = ?u + length s"
        using pre u by auto
      then show ?thesis using take_front [of "?u + length ?st" ?o "t @ s" "[NUL]"] by simp
    qed
    then show ?thesis using r u short False h len
      by (auto simp: append_def Let_def holds_text_def)
  qed
qed

lemma append_strict_fail: "append line (Some e) s = (rc, line') \<Longrightarrow> lb_strict line \<Longrightarrow> rc \<noteq> 0"
  by (auto simp: append_def append_overflow_def errno_or_def Let_def split: if_splits)

lemma append_all_plain:
  assumes "holds_text line t" "\<not> lb_strict line" "\<forall>s\<in>set ss. s \<noteq> []" "\<forall>k. fails k = None"
    and "append_all fails k line ss = (rc, line')"
  shows "rc = 0 \<and> holds_text line' (t @ concat ss) \<and> lb_cap line' = lb_cap line \<and> length (lb_out line') = length (lb_out line)"
  using assms
proof (induction fails k line ss arbitrary: t rule: append_all.induct)
  case (1 fails k line)
  then show ?case by simp
next
  case (2 fails k line s ss)
  obtain rc1 line1 where a: "append line None s = (rc1, line1)" by fastforce
  have A: "rc1 = 0" "holds_text line1 (t @ s)" "lb_cap line1 = lb_cap line" "\<not> lb_strict line1"
    "length (lb_out line1) = length (lb_out line)"
    using append_ok [OF "2.prems"(1) _ a] "2.prems" by auto
  then show ?case using "2.IH" [of rc1 line1 "t @ s"] "2.prems" a by simp
qed

lemma append_all_strict:
  assumes "holds_text line t" "lb_strict line" "\<forall>s\<in>set ss. s \<noteq> []" "\<not> lb_truncated line"
    and "append_all fails k line ss = (0, line')"
  shows "holds_text line' (t @ concat ss) \<and> \<not> lb_truncated line' \<and> lb_cap line' = lb_cap line \<and>
    length (lb_out line') = length (lb_out line)"
  using assms
proof (induction fails k line ss arbitrary: t rule: append_all.induct)
  case (1 fails k line)
  then show ?case by simp
next
  case (2 fails k line s ss)
  obtain rc1 line1 where a: "append line (fails k) s = (rc1, line1)" by fastforce
  then have z: "rc1 = 0" using "2.prems" by (auto split: if_splits)
  then have n: "fails k = None" using append_strict_fail [of line _ s rc1 line1] a "2.prems"(2) by (cases "fails k") auto
  have A: "holds_text line1 (t @ s)" "lb_cap line1 = lb_cap line" "lb_strict line1" "length (lb_out line1) = length (lb_out line)"
    "\<not> lb_truncated line1"
    using append_ok [OF "2.prems"(1) _ a [unfolded n]] "2.prems" z
    by (auto simp: holds_text_def split: if_splits)
  then show ?case using "2.IH" [of rc1 line1 "t @ s"] "2.prems" a z by simp
qed

lemma append_all_strict_fits:
  assumes "holds_text line t" "lb_strict line" "\<forall>s\<in>set ss. s \<noteq> []" "\<forall>k. fails k = None"
  shows "fst (append_all fails k line ss) = 0 \<longleftrightarrow> length (t @ concat ss) \<le> lb_cap line - 1 \<or> ss = []"
  using assms
proof (induction fails k line ss arbitrary: t rule: append_all.induct)
  case (1 fails k line)
  then show ?case by simp
next
  case (2 fails k line s ss)
  obtain rc1 line1 where a: "append line None s = (rc1, line1)" by fastforce
  note A = append_ok [OF "2.prems"(1) _ a]
  have n: "fails k = None" using "2.prems"(4) by blast
  show ?case
  proof (cases "lb_cap line - 1 < length (t @ s)")
    case True
    then show ?thesis using A "2.prems" a by auto
  next
    case False
    then have B: "rc1 = 0" "holds_text line1 (t @ s)" "lb_cap line1 = lb_cap line" "lb_strict line1"
      using A "2.prems" by auto
    then have "fst (append_all fails (Suc k) line1 ss) = 0 \<longleftrightarrow> length ((t @ s) @ concat ss) \<le> lb_cap line1 - 1 \<or> ss = []"
      using "2.IH" [of rc1 line1 "t @ s", OF _ _ B(2,4) _ "2.prems"(4)] "2.prems"(3) a n B(1) by simp
    then show ?thesis using B(1,3) False a n by auto
  qed
qed

section \<open>The finished line\<close>

lemma take_two_updates:
  "n + 2 \<le> length xs \<Longrightarrow> take (Suc (Suc n)) ((xs[n := a])[Suc n := b]) = take n xs @ [a, b]"
  by (simp add: take_Suc_conv_app_nth)

lemma mark_truncated_text:
  assumes "13 \<le> c" "c \<le> length out"
  shows "take (c - 1) (logger_text_mark_truncated out c) = take (c - 13) out @ '' [truncated]''"
proof -
  let ?a = "take (c - 13) out @ '' [truncated]''"
  have "logger_text_mark_truncated out c = take (c - 13) out @ truncation_marker @ drop c out"
    using assms by (simp add: logger_text_mark_truncated_def memcpy_at_def)
  then have "?a @ (NUL # drop c out) = logger_text_mark_truncated out c" by (simp add: truncation_marker_def)
  then have "?a = take (length ?a) (logger_text_mark_truncated out c)" unfolding append_eq_conv_conj by (rule conjunct1)
  moreover have "length ?a = c - 1" using assms by simp
  ultimately show ?thesis by metis
qed

definition finish_line :: "char list \<Rightarrow> nat \<Rightarrow> char list" where
  "finish_line out used = (out[used := CHR ''\<newline>''])[used + 1 := NUL]"

lemma finish_line_text:
  assumes "used + 2 \<le> length out" "nul_free (take used out)"
  shows "cstr (finish_line out used) = take used out @ ''\<newline>''"
proof (rule cstr_prefix_determines [of "Suc used"])
  show "take (Suc (Suc used)) (finish_line out used) = (take used out @ ''\<newline>'') @ [NUL]"
    using take_two_updates [OF assms(1)] by (simp add: finish_line_def)
  show "nul_free (take used out @ ''\<newline>'')" using assms(2) by simp
qed

text \<open>The text a plain line shows: everything, or a prefix with the marker.\<close>

definition shown_line :: "nat \<Rightarrow> string \<Rightarrow> string" where
  "shown_line cap full =
     (if length full \<le> cap - 2 then full @ ''\<newline>'' else take (cap - 14) full @ '' [truncated]'' @ ''\<newline>'')"

lemma finished_plain:
  assumes h: "holds_text line full" and c: "lb_cap line = cap - 1" "14 \<le> cap" "cap \<le> length (lb_out line)" and nf: "nul_free full"
  defines "o1 \<equiv> (if lb_truncated line then logger_text_mark_truncated (lb_out line) (cap - 1) else lb_out line)"
  shows "cstr (finish_line o1 (lb_used line)) = shown_line cap full" "lb_used line + 1 = length (shown_line cap full)"
    "length (finish_line o1 (lb_used line)) = length (lb_out line)"
proof -
  have len: "length o1 = length (lb_out line)" using c by (simp add: o1_def)
  then show "length (finish_line o1 (lb_used line)) = length (lb_out line)" by (simp add: finish_line_def)
  have u: "lb_used line = min (cap - 2) (length full)" "take (lb_used line) (lb_out line) = take (cap - 2) full"
    "lb_truncated line \<longleftrightarrow> cap - 2 < length full"
    using h unfolding holds_text_def c(1) diff_diff_left one_add_one by auto
  have front: "take (lb_used line) o1 = (if length full \<le> cap - 2 then full else take (cap - 14) full @ '' [truncated]'')"
  proof (cases "length full \<le> cap - 2")
    case True
    then show ?thesis using u by (simp add: o1_def)
  next
    case False
    then have ul: "lb_used line = cap - 2" using u by simp
    have "take (cap - 14) (take (cap - 2) (lb_out line)) = take (cap - 14) (take (cap - 2) full)" using u(2) ul by simp
    then have "take (cap - 14) (lb_out line) = take (cap - 14) full" by (simp add: min_absorb1)
    moreover have "cap - 1 - 1 = cap - 2" "cap - 1 - 13 = cap - 14" by simp_all
    ultimately have "take (cap - 2) (logger_text_mark_truncated (lb_out line) (cap - 1)) = take (cap - 14) full @ '' [truncated]''"
      using mark_truncated_text [of "cap - 1" "lb_out line"] c by auto
    then show ?thesis using False u(3) ul by (auto simp: o1_def)
  qed
  have "nul_free (take (lb_used line) o1)" unfolding front using nf by simp
  then show "cstr (finish_line o1 (lb_used line)) = shown_line cap full"
    using finish_line_text [of "lb_used line" o1] front u len c by (simp add: shown_line_def)
  show "lb_used line + 1 = length (shown_line cap full)" using u c by (auto simp: shown_line_def)
qed

lemma start_holds: "2 \<le> cap \<Longrightarrow> cap \<le> length out \<Longrightarrow>
  holds_text \<lparr>lb_out = out, lb_cap = cap - 1, lb_used = 0, lb_strict = strict, lb_truncated = False\<rparr> []"
  by (auto simp: holds_text_def)

section \<open>The two formatters\<close>

definition line_start :: "char list \<Rightarrow> nat \<Rightarrow> bool \<Rightarrow> line_buffer" where
  "line_start out cap strict = \<lparr>lb_out = out[0 := NUL], lb_cap = cap - 1, lb_used = 0, lb_strict = strict, lb_truncated = False\<rparr>"

lemma line_start_holds: "2 \<le> cap \<Longrightarrow> cap \<le> length out \<Longrightarrow> holds_text (line_start out cap strict) []"
  unfolding line_start_def by (rule start_holds) simp_all

lemma format_line_plain:
  assumes "2 \<le> cap" "append_all (fe_vsnprintf env) 0 (line_start out cap False) (line_pieces (refresh_time env cache (tv_sec (m_ts m))) l m) = (0, line)"
  shows "format_line env cache (Some l) (Some m) (Some out) cap False =
    (0, Some (lb_used line + 1),
     Some (finish_line (if lb_truncated line then logger_text_mark_truncated (lb_out line) (cap - 1) else lb_out line) (lb_used line)),
     refresh_time env cache (tv_sec (m_ts m)))"
  using assms by (simp add: format_line_def line_start_def finish_line_def Let_def)

text \<open>C14. \<^verbatim>\<open>logger_format_line\<close>, when \<^verbatim>\<open>vsnprintf\<close> does not fail and the buffer has at least 14 bytes, stores
  the concatenated pieces and a line feed if they fit, and otherwise their longest prefix that leaves
  room for the truncation marker and the line feed; the stored C string has the returned length,
  is shorter than the buffer, and the buffer keeps its size.\<close>

theorem plain_line_correct:
  assumes "14 \<le> cap" "cap \<le> length out" "\<forall>k. fe_vsnprintf env k = None"
    and "line_ok (refresh_time env cache (tv_sec (m_ts m))) m"
    and "logger_format_line env cache (Some l) (Some m) (Some out) cap = (n, e, outp, cache')"
  shows "\<exists>out'. outp = Some out' \<and> cstr out' = shown_line cap (concat (line_pieces cache' l m)) \<and>
    n = length (cstr out') \<and> n < cap \<and> e = 0 \<and> length out' = length out \<and> cache' = refresh_time env cache (tv_sec (m_ts m))"
proof -
  let ?t = "refresh_time env cache (tv_sec (m_ts m))" let ?full = "concat (line_pieces ?t l m)"
  obtain rc line where a: "append_all (fe_vsnprintf env) 0 (line_start out cap False) (line_pieces ?t l m) = (rc, line)" by fastforce
  have "2 \<le> cap" using assms(1) by simp
  have A: "rc = 0" "holds_text line ?full" "lb_cap line = cap - 1" "length (lb_out line) = length out"
    using append_all_plain [OF line_start_holds [OF \<open>2 \<le> cap\<close> assms(2), of False] _ _ assms(3) a] pieces_nonempty
    by (auto simp: line_start_def)
  have r: "cache' = ?t" "n = lb_used line + 1" "e = 0"
    "outp = Some (finish_line (if lb_truncated line then logger_text_mark_truncated (lb_out line) (cap - 1) else lb_out line) (lb_used line))"
    using assms(5) format_line_plain [OF \<open>2 \<le> cap\<close> a [unfolded A(1)]] by (auto simp: logger_format_line_def)
  note F = finished_plain [OF A(2,3) assms(1) _ pieces_nul_free [OF assms(4)]]
  have "lb_used line \<le> cap - 2" using A(2,3) by (simp add: holds_text_def)
  then show ?thesis using F r A(4) assms(1,2) by simp
qed

definition sample_format_env :: format_env where
  "sample_format_env = \<lparr>fe_localtime = (\<lambda>_. Some (''2024-02-29T12:00:00'', ''+0000'')), fe_vsnprintf = (\<lambda>_. None)\<rparr>"

definition sample_cache :: timestamp_cache where
  "sample_cache = \<lparr>tc_sec = 0, tc_valid = False, tc_date = [], tc_zone = []\<rparr>"

definition sample_config :: line_config where
  "sample_config = \<lparr>fc_detail = LOGGER_DETAIL_NORMAL, fc_include_pid = False, fc_include_tid = False, fc_include_source = False\<rparr>"

definition sample_record :: logger_message where
  "sample_record = \<lparr>m_level = LOGGER_INFO, m_ts = \<lparr>tv_sec = 5, tv_nsec = 7000\<rparr>, m_pid = 7, m_tid = 7,
     m_file = None, m_func = None, m_module = Some ''net'', m_line = 12, m_metadata_mask = 1,
     m_request_id = [NUL], m_session_id = [NUL], m_trace_id = [NUL], m_text_len = 2,
     m_text = ''up'' @ [NUL], m_module_storage = [], m_file_storage = [], m_function_storage = []\<rparr>"

lemma sample_pieces:
  "concat (line_pieces (refresh_time sample_format_env sample_cache 5) sample_config sample_record)
     = ''2024-02-29T12:00:00.000007+0000 INFO  [net] up''"
  by (simp add: sample_format_env_def sample_cache_def sample_config_def sample_record_def refresh_time_def line_pieces_def
      left_justified_def logger_level_name_def as_unsigned_def zero_padded_def c_div_def dec_nat.simps [of 7] digit_def
      str_or_def cstr_def) code_simp

lemma sample_line_ok: "line_ok (refresh_time sample_format_env sample_cache 5) sample_record"
  by (simp add: line_ok_def sample_format_env_def sample_cache_def sample_record_def refresh_time_def)

theorem plain_line_correct_witness:
  "\<exists>n e out' c. logger_format_line sample_format_env sample_cache (Some sample_config) (Some sample_record)
      (Some (replicate 40 NUL)) 40 = (n, e, Some out', c) \<and>
     cstr out' = ''2024-02-29T12:00:00.000007 [truncated]'' @ ''\<newline>'' \<and> n = 39"
proof -
  obtain n e outp c where r: "logger_format_line sample_format_env sample_cache (Some sample_config) (Some sample_record)
      (Some (replicate 40 NUL)) 40 = (n, e, outp, c)" by (metis prod_cases4)
  have "tv_sec (m_ts sample_record) = 5" "\<forall>k. fe_vsnprintf sample_format_env k = None"
    by (simp_all add: sample_record_def sample_format_env_def)
  then obtain out' where "outp = Some out'" "n = length (cstr out')"
    "cstr out' = shown_line 40 (concat (line_pieces (refresh_time sample_format_env sample_cache 5) sample_config sample_record))"
    using plain_line_correct [OF _ _ _ _ r] sample_line_ok by auto
  then show ?thesis using r unfolding sample_pieces by (auto simp: shown_line_def)
qed

text \<open>C15. \<^verbatim>\<open>logger_format_line_checked\<close> never shortens a record: success means the buffer holds exactly the
  concatenated pieces and a line feed, its length is returned and the timestamp is canonical; on any
  failure the length is 0 and the buffer an empty string. It fails only for a non-canonical time, a line that
  does not fit, or a failing \<^verbatim>\<open>vsnprintf\<close>.\<close>

theorem strict_line_correct:
  assumes "0 < cap" "cap \<le> length out" "line_ok (refresh_time env cache (tv_sec (m_ts m))) m"
    and "logger_format_line_checked env cache (Some l) (Some m) (Some out) cap True = (rc, n, Some out', cache')"
  shows "(rc = 0 \<longrightarrow> cstr out' = concat (line_pieces cache' l m) @ ''\<newline>'' \<and> n = length (cstr out') \<and> n < cap \<and>
            canonical_time cache' \<and> 0 \<le> tv_nsec (m_ts m) \<and> tv_nsec (m_ts m) < 1000000000) \<and>
    (rc \<noteq> 0 \<longrightarrow> n = 0 \<and> cstr out' = []) \<and>
    ((\<forall>k. fe_vsnprintf env k = None) \<and> 2 \<le> cap \<and> 0 \<le> tv_nsec (m_ts m) \<and> tv_nsec (m_ts m) < 1000000000 \<and>
       canonical_time (refresh_time env cache (tv_sec (m_ts m))) \<and>
       length (concat (line_pieces (refresh_time env cache (tv_sec (m_ts m))) l m)) \<le> cap - 2 \<longrightarrow> rc = 0)"
proof -
  let ?t = "refresh_time env cache (tv_sec (m_ts m))" let ?ps = "line_pieces ?t l m"
  obtain arc line where a: "append_all (fe_vsnprintf env) 0 (line_start out cap True) ?ps = (arc, line)" by fastforce
  have fl: "format_line env cache (Some l) (Some m) (Some out) cap True =
     (if cap = 1 then (- EOVERFLOW, None, Some (out[0 := NUL]), cache)
      else if tv_nsec (m_ts m) < 0 \<or> 1000000000 \<le> tv_nsec (m_ts m) then (- EINVAL, None, Some (out[0 := NUL]), cache)
      else if \<not> canonical_time ?t then (- EOVERFLOW, None, Some (out[0 := NUL]), ?t)
      else if arc \<noteq> 0 then (arc, None, Some (lb_out line), ?t)
      else (0, Some (lb_used line + 1),
            Some (finish_line (if lb_truncated line then logger_text_mark_truncated (lb_out line) (cap - 1) else lb_out line) (lb_used line)), ?t))"
    using assms(1) a by (simp add: format_line_def line_start_def finish_line_def Let_def)
  have fail: "n = 0 \<and> cstr out' = []" if "rc \<noteq> 0"
  proof -
    have "cstr (xs[0 := NUL]) = []" for xs by (cases xs) (simp_all add: cstr_def)
    then show ?thesis using that assms(1,4) fl
      by (auto simp: logger_format_line_checked_def clear_first_def split: if_splits)
  qed
  have good: "cstr out' = concat ?ps @ ''\<newline>'' \<and> n = length (cstr out') \<and> n < cap \<and> cache' = ?t \<and> canonical_time ?t \<and>
      0 \<le> tv_nsec (m_ts m) \<and> tv_nsec (m_ts m) < 1000000000" if z: "rc = 0"
  proof -
    have c2: "2 \<le> cap" and ok: "canonical_time ?t" "0 \<le> tv_nsec (m_ts m)" "tv_nsec (m_ts m) < 1000000000" "arc = 0"
      using z assms(1,4) fl by (auto simp: logger_format_line_checked_def split: if_splits)
    have A: "holds_text line (concat ?ps)" "\<not> lb_truncated line" "lb_cap line = cap - 1" "length (lb_out line) = length out"
      using append_all_strict [OF line_start_holds [OF c2 assms(2), of True] _ _ _ a [unfolded ok(4)]] pieces_nonempty
      by (auto simp: line_start_def)
    have out: "out' = finish_line (lb_out line) (lb_used line)" "n = lb_used line + 1" "cache' = ?t"
      using z assms(1,4) fl A(2) by (auto simp: logger_format_line_checked_def split: if_splits)
    have u: "lb_used line = length (concat ?ps)" "lb_used line \<le> cap - 2" "take (lb_used line) (lb_out line) = concat ?ps"
      using A by (auto simp: holds_text_def)
    then have "cstr out' = concat ?ps @ ''\<newline>''"
      unfolding out(1) using finish_line_text [of "lb_used line" "lb_out line"] pieces_nul_free [OF assms(3)] A(4) c2 assms(2) by simp
    then show ?thesis using out u ok c2 by simp
  qed
  have "rc = 0" if h: "\<forall>k. fe_vsnprintf env k = None" "2 \<le> cap" "0 \<le> tv_nsec (m_ts m)" "tv_nsec (m_ts m) < 1000000000"
    "canonical_time ?t" "length (concat ?ps) \<le> cap - 2"
  proof -
    have "fst (append_all (fe_vsnprintf env) 0 (line_start out cap True) ?ps) = 0 \<longleftrightarrow>
        length ([] @ concat ?ps) \<le> lb_cap (line_start out cap True) - 1 \<or> ?ps = []"
      by (rule append_all_strict_fits [OF line_start_holds [OF h(2) assms(2)] _ _ h(1)])
         (auto simp: line_start_def dest: pieces_nonempty)
    then have "arc = 0" using a h(6) by (simp add: line_start_def numeral_2_eq_2)
    then show ?thesis using h assms(4) fl by (auto simp: logger_format_line_checked_def split: if_splits)
  qed
  then show ?thesis using fail good by blast
qed

lemma sample_canonical: "canonical_time (refresh_time sample_format_env sample_cache 5)"
  by (simp add: sample_format_env_def sample_cache_def refresh_time_def) code_simp

theorem strict_line_correct_witness:
  "\<exists>out' c. logger_format_line_checked sample_format_env sample_cache (Some sample_config) (Some sample_record)
      (Some (replicate 64 NUL)) 64 True = (0, 47, Some out', c) \<and>
     cstr out' = ''2024-02-29T12:00:00.000007+0000 INFO  [net] up'' @ ''\<newline>''"
proof -
  let ?r = "logger_format_line_checked sample_format_env sample_cache (Some sample_config) (Some sample_record)
      (Some (replicate 64 NUL)) 64 True"
  have s: "tv_sec (m_ts sample_record) = 5" "\<forall>k. fe_vsnprintf sample_format_env k = None"
    "0 \<le> tv_nsec (m_ts sample_record)" "tv_nsec (m_ts sample_record) < 1000000000"
    by (simp_all add: sample_record_def sample_format_env_def)
  obtain rc n out' c where r: "?r = (rc, n, Some out', c)"
  proof -
    obtain rc n outp c where r: "?r = (rc, n, outp, c)" by (metis prod_cases4)
    then have "outp \<noteq> None"
      by (auto simp: logger_format_line_checked_def format_line_def Let_def clear_first_def split: prod.splits if_splits)
    then show ?thesis using that r by blast
  qed
  have c: "c = refresh_time sample_format_env sample_cache 5"
    using r s(1,3,4) sample_canonical
    by (auto simp: logger_format_line_checked_def format_line_def Let_def split: prod.splits if_splits)
  show ?thesis
    using strict_line_correct [OF _ _ _ r] sample_line_ok sample_canonical s r c sample_pieces by auto
qed

end
