(* ===== verification/Logger_Timestamp.thy ===== *)
theory Logger_Timestamp
  imports Logger_Format
begin

text \<open>
  The strict timestamp check of \<^verbatim>\<open>src/logger_format.c\<close> accepts exactly the texts of
  calendar times: every month has its days, leap years included, and the zone is a signed
  offset.
\<close>

lemma upt19: "[0..<19] = [0, 1, 2, 3, 4, 5, 6, 7, 8, 9, 10, 11, 12, 13, 14, 15, 16, 17, 18 :: nat]" "[1..<5] = [1, 2, 3, 4 :: nat]"
  "[0..<5] = [0, 1, 2, 3, 4 :: nat]"
  by code_simp+

section \<open>The canonical timestamp\<close>

definition digits2 :: "nat \<Rightarrow> string" where
  "digits2 n = [digit (n div 10), digit (n mod 10)]"

definition digits4 :: "nat \<Rightarrow> string" where
  "digits4 n = digits2 (n div 100) @ digits2 (n mod 100)"

text \<open>A calendar time with a zone offset, and how it is written.\<close>

record calendar =
  k_year :: nat
  k_month :: nat
  k_day :: nat
  k_hour :: nat
  k_minute :: nat
  k_second :: nat
  k_sign :: char
  k_zone_hour :: nat
  k_zone_minute :: nat

definition calendar_ok :: "calendar \<Rightarrow> bool" where
  "calendar_ok k \<longleftrightarrow> 1 \<le> k_year k \<and> k_year k \<le> 9999 \<and> 1 \<le> k_month k \<and> k_month k \<le> 12 \<and> 1 \<le> k_day k \<and>
     k_day k \<le> month_days ! (k_month k - 1) + (if k_month k = 2 \<and> leap_year (k_year k) then 1 else 0) \<and>
     k_hour k \<le> 23 \<and> k_minute k \<le> 59 \<and> k_second k \<le> 60 \<and> k_sign k \<in> {CHR ''+'', CHR ''-''} \<and>
     k_zone_hour k \<le> 23 \<and> k_zone_minute k \<le> 59"

definition calendar_date :: "calendar \<Rightarrow> string" where
  "calendar_date k = digits4 (k_year k) @ ''-'' @ digits2 (k_month k) @ ''-'' @ digits2 (k_day k) @ ''T'' @
     digits2 (k_hour k) @ '':'' @ digits2 (k_minute k) @ '':'' @ digits2 (k_second k)"

definition calendar_zone :: "calendar \<Rightarrow> string" where
  "calendar_zone k = k_sign k # digits2 (k_zone_hour k) @ digits2 (k_zone_minute k)"

lemma digit_facts [simp]: "d < 10 \<Longrightarrow> dec_digit (digit d)" "d < 10 \<Longrightarrow> digit_value (digit d) = d"
  by (simp_all add: dec_digit_def digit_value_def digit_def)

lemma digit_of_value: "dec_digit c \<Longrightarrow> digit (digit_value c) = c \<and> digit_value c < 10"
proof -
  assume d: "dec_digit c"
  then have "48 + (of_char c - 48) = (of_char c :: nat)" by (simp add: dec_digit_def)
  then have "digit (digit_value c) = char_of (of_char c :: nat)" unfolding digit_def digit_value_def by simp
  moreover have "digit_value c < 10" using d unfolding dec_digit_def digit_value_def by linarith
  ultimately show ?thesis by simp
qed

lemma month_days_bound: "1 \<le> m \<Longrightarrow> m \<le> 12 \<Longrightarrow> month_days ! (m - 1) \<le> 31"
proof -
  assume "1 \<le> m" "m \<le> 12"
  then have "month_days ! (m - 1) \<in> set month_days" by (intro nth_mem) (simp add: month_days_def)
  then show ?thesis by (auto simp: month_days_def)
qed

lemma digits2_of: "dec_digit a \<Longrightarrow> dec_digit b \<Longrightarrow> digits2 (digit_value a * 10 + digit_value b) = [a, b]"
  using digit_of_value [of a] digit_of_value [of b] by (simp add: digits2_def)

lemma div_mod_split: "r < b \<Longrightarrow> (q * b + r) div b = q \<and> (q * b + r) mod b = r" for b :: nat
  by simp

lemma digits4_of:
  assumes "dec_digit a" "dec_digit b" "dec_digit c" "dec_digit d"
  shows "digits4 (digit_value a * 1000 + digit_value b * 100 + digit_value c * 10 + digit_value d) = [a, b, c, d]"
proof -
  let ?q = "digit_value a * 10 + digit_value b" let ?r = "digit_value c * 10 + digit_value d"
  have "digit_value c < 10" "digit_value d < 10" using assms digit_of_value by blast+
  then have "?r < 100" by linarith
  from div_mod_split [OF this, of ?q] show ?thesis
    using digits2_of assms by (simp add: digits4_def algebra_simps)
qed

definition parsed :: "char list \<Rightarrow> char list \<Rightarrow> calendar" where
  "parsed d z = \<lparr>k_year = digit_value (d ! 0) * 1000 + digit_value (d ! 1) * 100 + digit_value (d ! 2) * 10 + digit_value (d ! 3),
     k_month = two_digits d 5, k_day = two_digits d 8, k_hour = two_digits d 11, k_minute = two_digits d 14,
     k_second = two_digits d 17, k_sign = z ! 0, k_zone_hour = two_digits z 1, k_zone_minute = two_digits z 3\<rparr>"

definition date_syntax :: "char list \<Rightarrow> char list \<Rightarrow> bool" where
  "date_syntax d z \<longleftrightarrow> length d = 19 \<and> length z = 5 \<and>
     list_all (\<lambda>i. case date_delimiter i of Some c \<Rightarrow> d ! i = c | None \<Rightarrow> dec_digit (d ! i)) [0..<19] \<and>
     list_all (\<lambda>i. dec_digit (z ! i)) [1..<5]"

lemma canonical_parts: "canonical_time c \<longleftrightarrow>
  tc_valid c \<and> date_syntax (tc_date c) (tc_zone c) \<and> calendar_ok (parsed (tc_date c) (tc_zone c))"
proof -
  have y: "k_year (parsed d z) \<le> 9999" if "date_syntax d z" for d z
  proof -
    have "dec_digit (d ! 0)" "dec_digit (d ! 1)" "dec_digit (d ! 2)" "dec_digit (d ! 3)"
      using that by (simp_all add: date_syntax_def date_delimiter_def upt19)
    then have "digit_value (d ! 0) < 10" "digit_value (d ! 1) < 10" "digit_value (d ! 2) < 10" "digit_value (d ! 3) < 10"
      using digit_of_value by blast+
    then show ?thesis unfolding parsed_def calendar.simps by linarith
  qed
  have n: "\<not> list_ex (\<lambda>i. case date_delimiter i of Some c \<Rightarrow> d ! i \<noteq> c | None \<Rightarrow> \<not> dec_digit (d ! i)) [0..<19] \<longleftrightarrow>
      list_all (\<lambda>i. case date_delimiter i of Some c \<Rightarrow> d ! i = c | None \<Rightarrow> dec_digit (d ! i)) [0..<19]" for d :: "char list"
    by (auto simp: list_ex_iff list_all_iff split: option.splits)
  have m: "\<not> list_ex (\<lambda>i. \<not> dec_digit (z ! i)) [1..<5] \<longleftrightarrow> list_all (\<lambda>i. dec_digit (z ! i)) [1..<5]" for z :: "char list"
    by (auto simp: list_ex_iff list_all_iff)
  show ?thesis
    using y [of "tc_date c" "tc_zone c"] n [of "tc_date c"] m [of "tc_zone c"]
    unfolding canonical_time_def Let_def date_syntax_def calendar_ok_def parsed_def calendar.simps by auto
qed

lemma digits2_chars:
  assumes "n \<le> 99"
  obtains a b where "digits2 n = [a, b]" "dec_digit a" "dec_digit b" "digit_value a * 10 + digit_value b = n"
proof (rule that [of "digit (n div 10)" "digit (n mod 10)"])
  have d: "n div 10 < 10" using assms by simp
  show "digits2 n = [digit (n div 10), digit (n mod 10)]" by (simp add: digits2_def)
  show "dec_digit (digit (n div 10))" "dec_digit (digit (n mod 10))" using d by simp_all
  show "digit_value (digit (n div 10)) * 10 + digit_value (digit (n mod 10)) = n" using d by simp
qed

lemma digits4_chars:
  assumes "n \<le> 9999"
  obtains a b c d where "digits4 n = [a, b, c, d]" "list_all dec_digit [a, b, c, d]"
    "digit_value a * 1000 + digit_value b * 100 + digit_value c * 10 + digit_value d = n"
proof -
  have h: "n div 100 \<le> 99" "n mod 100 \<le> 99" using assms by simp_all
  obtain a b where ab: "digits2 (n div 100) = [a, b]" "dec_digit a" "dec_digit b" "digit_value a * 10 + digit_value b = n div 100"
    by (rule digits2_chars [OF h(1)])
  obtain c d where cd: "digits2 (n mod 100) = [c, d]" "dec_digit c" "dec_digit d" "digit_value c * 10 + digit_value d = n mod 100"
    by (rule digits2_chars [OF h(2)])
  show ?thesis
  proof (rule that [of a b c d])
    show "digits4 n = [a, b, c, d]" using ab cd by (simp add: digits4_def)
    show "list_all dec_digit [a, b, c, d]" using ab cd by simp
    show "digit_value a * 1000 + digit_value b * 100 + digit_value c * 10 + digit_value d = n"
      using div_mult_mod_eq [of n 100] ab(4) cd(4) by linarith
  qed
qed

lemma parsed_written:
  assumes "calendar_ok k"
  shows "date_syntax (calendar_date k) (calendar_zone k) \<and> parsed (calendar_date k) (calendar_zone k) = k"
proof -
  have b: "k_year k \<le> 9999" "k_month k \<le> 99" "k_day k \<le> 99" "k_hour k \<le> 99" "k_minute k \<le> 99" "k_second k \<le> 99"
    "k_zone_hour k \<le> 99" "k_zone_minute k \<le> 99"
    using assms month_days_bound [of "k_month k"] by (auto simp: calendar_ok_def split: if_splits)
  obtain y1 y2 y3 y4 where y: "digits4 (k_year k) = [y1, y2, y3, y4]" "list_all dec_digit [y1, y2, y3, y4]"
    "digit_value y1 * 1000 + digit_value y2 * 100 + digit_value y3 * 10 + digit_value y4 = k_year k" by (rule digits4_chars [OF b(1)])
  obtain m1 m2 where m: "digits2 (k_month k) = [m1, m2]" "dec_digit m1" "dec_digit m2" "digit_value m1 * 10 + digit_value m2 = k_month k"
    by (rule digits2_chars [OF b(2)])
  obtain d1 d2 where d: "digits2 (k_day k) = [d1, d2]" "dec_digit d1" "dec_digit d2" "digit_value d1 * 10 + digit_value d2 = k_day k"
    by (rule digits2_chars [OF b(3)])
  obtain h1 h2 where h: "digits2 (k_hour k) = [h1, h2]" "dec_digit h1" "dec_digit h2" "digit_value h1 * 10 + digit_value h2 = k_hour k"
    by (rule digits2_chars [OF b(4)])
  obtain n1 n2 where n: "digits2 (k_minute k) = [n1, n2]" "dec_digit n1" "dec_digit n2" "digit_value n1 * 10 + digit_value n2 = k_minute k"
    by (rule digits2_chars [OF b(5)])
  obtain s1 s2 where s: "digits2 (k_second k) = [s1, s2]" "dec_digit s1" "dec_digit s2" "digit_value s1 * 10 + digit_value s2 = k_second k"
    by (rule digits2_chars [OF b(6)])
  obtain z1 z2 where z: "digits2 (k_zone_hour k) = [z1, z2]" "dec_digit z1" "dec_digit z2" "digit_value z1 * 10 + digit_value z2 = k_zone_hour k"
    by (rule digits2_chars [OF b(7)])
  obtain w1 w2 where w: "digits2 (k_zone_minute k) = [w1, w2]" "dec_digit w1" "dec_digit w2" "digit_value w1 * 10 + digit_value w2 = k_zone_minute k"
    by (rule digits2_chars [OF b(8)])
  have date: "calendar_date k = [y1, y2, y3, y4, CHR ''-'', m1, m2, CHR ''-'', d1, d2, CHR ''T'', h1, h2, CHR '':'', n1, n2, CHR '':'', s1, s2]"
    by (simp add: calendar_date_def y(1) m(1) d(1) h(1) n(1) s(1))
  have zone: "calendar_zone k = [k_sign k, z1, z2, w1, w2]" by (simp add: calendar_zone_def z(1) w(1))
  have "date_syntax (calendar_date k) (calendar_zone k)"
    unfolding date zone date_syntax_def upt19 using y(2) m(2,3) d(2,3) h(2,3) n(2,3) s(2,3) z(2,3) w(2,3)
    by (simp add: date_delimiter_def)
  moreover have "parsed (calendar_date k) (calendar_zone k) = k"
    unfolding date zone parsed_def two_digits_def using y(3) m(4) d(4) h(4) n(4) s(4) z(4) w(4) by simp
  ultimately show ?thesis by blast
qed

lemma written_parsed:
  assumes "date_syntax d z"
  shows "calendar_date (parsed d z) = d" "calendar_zone (parsed d z) = z"
proof -
  have len: "length d = 19" "length z = 5" using assms by (auto simp: date_syntax_def)
  have ex: "map ((!) d) [0..<19] = d" "map ((!) z) [0..<5] = z"
    using map_nth [of d] map_nth [of z] unfolding len by blast+
  have dd: "dec_digit (d ! i)" if "i \<in> {0, 1, 2, 3, 5, 6, 8, 9, 11, 12, 14, 15, 17, 18}" for i
    using assms that unfolding date_syntax_def upt19 by (auto simp: date_delimiter_def)
  have de: "d ! 4 = CHR ''-''" "d ! 7 = CHR ''-''" "d ! 10 = CHR ''T''" "d ! 13 = CHR '':''" "d ! 16 = CHR '':''"
    using assms unfolding date_syntax_def upt19 by (simp_all add: date_delimiter_def)
  have zd: "dec_digit (z ! i)" if "i \<in> {1, 2, 3, 4}" for i
    using assms that unfolding date_syntax_def upt19 by auto
  show "calendar_date (parsed d z) = d"
  proof -
    have "calendar_date (parsed d z) = map ((!) d) [0..<19]"
      unfolding upt19 by (simp add: calendar_date_def parsed_def two_digits_def digits2_of digits4_of [simplified] dd de)
    then show ?thesis using ex(1) by simp
  qed
  show "calendar_zone (parsed d z) = z"
  proof -
    have "calendar_zone (parsed d z) = map ((!) z) [0..<5]"
      unfolding upt19 by (simp add: calendar_zone_def parsed_def two_digits_def digits2_of zd numeral_2_eq_2)
    then show ?thesis using ex(2) by simp
  qed
qed

text \<open>C16. The strict timestamp check accepts a filled cache exactly when its date and zone are the text of
  a calendar time: year 1 to 9999, a day that exists in its month (29 February in leap years only), a
  time of day with an optional leap second, and a signed offset of hours and minutes.\<close>

theorem canonical_time_iff:
  "canonical_time c \<longleftrightarrow> tc_valid c \<and> (\<exists>k. calendar_ok k \<and> tc_date c = calendar_date k \<and> tc_zone c = calendar_zone k)"
  using canonical_parts [of c] parsed_written written_parsed by metis

end
