(* ===== verification/Logger_Os.thy ===== *)
theory Logger_Os
  imports Logger_Record
begin

text \<open>
  The operating system as the file, socket and fork code sees it: descriptors, the directory a
  log file is bound to, inodes, \<^verbatim>\<open>flock\<close> owners, clocks, and the outcome of every call.

  \<open>k_calls\<close> schedules the outcomes of the coming system calls: an error (\<^verbatim>\<open>EINTR\<close> included), a
  transfer limited to some bytes, or normal completion; after the schedule every call completes
  normally. \<open>k_locks\<close> does the same for the \<^verbatim>\<open>pthread\<close> calls. So a state ranges over all the
  failures a run can meet, and a loop that repeats an interrupted call ends because a run meets
  finitely many interruptions. A call also fails the way POSIX documents for the state it finds
  (a closed descriptor, a missing or existing name, a symbolic link, a foreign lock).
\<close>

section \<open>State\<close>

datatype outcome = Done | Fail errno | Short nat

datatype file_kind = Regular | CharDevice | Directory | Symlink | Fifo

record inode =
  i_kind :: file_kind
  i_dev :: int
  i_nlink :: nat
  i_data :: string
  i_mtime :: int

datatype fd_object = Node nat | Socket "string option"

datatype lock_holder = HeldBy nat | HeldElsewhere

record tm =
  tm_year :: int
  tm_mon :: int
  tm_mday :: int
  tm_hour :: int
  tm_min :: int
  tm_sec :: int

text \<open>
  \<open>k_table\<close> is indexed by descriptor. \<open>k_dir\<close> holds the entries of the one directory in which
  names are looked up, inode 0. \<open>k_sent\<close> collects the datagrams delivered to the log socket. The
  last fields concern \<^verbatim>\<open>SIGPIPE\<close> in the calling thread: whether it is blocked, whether it is
  pending, and how often it has been delivered.
\<close>

record kernel =
  k_calls :: "outcome list"
  k_locks :: "nat list"
  k_table :: "fd_object option list"
  k_dir :: "(string \<times> nat) list"
  k_inodes :: "inode list"
  k_flocks :: "(nat \<times> lock_holder) list"
  k_tick :: nat
  k_realtime :: "nat \<Rightarrow> timespec"
  k_monotonic :: "nat \<Rightarrow> timespec"
  k_localtime :: "int \<Rightarrow> errno + tm"
  k_gmtime :: "int \<Rightarrow> errno + tm"
  k_name_max :: int
  k_iov_max :: int
  k_pid :: int
  k_stderr :: string
  k_sent :: "string list"
  k_cwd :: string
  k_sig_blocked :: bool
  k_sig_pending :: bool
  k_sig_raised :: nat

record file_stat =
  st_kind :: file_kind
  st_nlink :: nat
  st_size :: int
  st_dev :: int
  st_ino :: nat
  st_mtime :: int

section \<open>Outcomes\<close>

text \<open>A failing call sets a positive \<^verbatim>\<open>errno\<close>.\<close>

definition effective :: "outcome \<Rightarrow> outcome" where
  "effective c = (case c of Fail e \<Rightarrow> Fail (if 0 < e then e else EIO) | _ \<Rightarrow> c)"

definition next_call :: "'a kernel_scheme \<Rightarrow> outcome \<times> 'a kernel_scheme" where
  "next_call k = (case k_calls k of [] \<Rightarrow> (Done, k) | c # cs \<Rightarrow> (effective c, k\<lparr>k_calls := cs\<rparr>))"

definition syscall ::
  "('a kernel_scheme \<Rightarrow> (errno + 'b) \<times> 'a kernel_scheme) \<Rightarrow> 'a kernel_scheme \<Rightarrow> (errno + 'b) \<times> 'a kernel_scheme" where
  "syscall op k = (case next_call k of (Fail e, k') \<Rightarrow> (Inl e, k') | (_, k') \<Rightarrow> op k')"

text \<open>A \<^verbatim>\<open>pthread\<close> call: 0 or an error number.\<close>

definition pthread_call :: "'a kernel_scheme \<Rightarrow> errno \<times> 'a kernel_scheme" where
  "pthread_call k = (case k_locks k of [] \<Rightarrow> (0, k) | e # es \<Rightarrow> (int e, k\<lparr>k_locks := es\<rparr>))"

definition fd_obj :: "'a kernel_scheme \<Rightarrow> int \<Rightarrow> fd_object option" where
  "fd_obj k fd = (if 0 \<le> fd \<and> nat fd < length (k_table k) then k_table k ! nat fd else None)"

section \<open>Descriptors\<close>

text \<open>The lowest free descriptor, as \<^verbatim>\<open>open\<close> and \<^verbatim>\<open>socket\<close> allocate it.\<close>

definition free_fd :: "fd_object option list \<Rightarrow> nat" where
  "free_fd t = length (takeWhile (\<lambda>x. x \<noteq> None) t)"

definition install_obj :: "fd_object \<Rightarrow> 'a kernel_scheme \<Rightarrow> (errno + int) \<times> 'a kernel_scheme" where
  "install_obj x k =
     (let t = k_table k; n = free_fd t in
      (Inr (int n), k\<lparr>k_table := (if n < length t then t[n := Some x] else t @ [Some x])\<rparr>))"

text \<open>
  Linux \<^verbatim>\<open>close\<close> releases the descriptor whatever it returns; a \<^verbatim>\<open>flock\<close> of this description
  ends with it.
\<close>

definition release_fd :: "int \<Rightarrow> 'a kernel_scheme \<Rightarrow> 'a kernel_scheme" where
  "release_fd fd k = k\<lparr>k_table := (k_table k)[nat fd := None],
     k_flocks := filter (\<lambda>(i, h). h \<noteq> HeldBy (nat fd)) (k_flocks k)\<rparr>"

definition sys_close :: "int \<Rightarrow> 'a kernel_scheme \<Rightarrow> (errno + unit) \<times> 'a kernel_scheme" where
  "sys_close fd k =
     (case next_call k of (c, k1) \<Rightarrow>
        if fd_obj k1 fd = None then (Inl EBADF, k1)
        else (case c of Fail e \<Rightarrow> Inl e | _ \<Rightarrow> Inr (), release_fd fd k1))"

section \<open>Names and inodes\<close>

definition dir_lookup :: "'a kernel_scheme \<Rightarrow> string \<Rightarrow> nat option" where
  "dir_lookup k name = (if name = ''.'' then Some 0 else map_of (k_dir k) name)"

definition dir_remove :: "string \<Rightarrow> (string \<times> nat) list \<Rightarrow> (string \<times> nat) list" where
  "dir_remove name d = filter (\<lambda>(n, i). n \<noteq> name) d"

definition is_dir_fd :: "'a kernel_scheme \<Rightarrow> int \<Rightarrow> bool" where
  "is_dir_fd k fd = (case fd_obj k fd of
     Some (Node i) \<Rightarrow> i < length (k_inodes k) \<and> i_kind (k_inodes k ! i) = Directory | _ \<Rightarrow> False)"

definition node_of :: "'a kernel_scheme \<Rightarrow> nat \<Rightarrow> inode option" where
  "node_of k i = (if i < length (k_inodes k) then Some (k_inodes k ! i) else None)"

datatype open_flag = O_RDONLY | O_WRONLY | O_RDWR | O_CREAT | O_EXCL | O_APPEND | O_CLOEXEC | O_NOFOLLOW | O_NONBLOCK | O_DIRECTORY

abbreviation ENXIO :: errno where "ENXIO \<equiv> 6"
abbreviation ENOTDIR :: errno where "ENOTDIR \<equiv> 20"
abbreviation EISDIR :: errno where "EISDIR \<equiv> 21"

definition open_existing :: "open_flag list \<Rightarrow> nat \<Rightarrow> 'a kernel_scheme \<Rightarrow> (errno + int) \<times> 'a kernel_scheme" where
  "open_existing flags i k =
     (case node_of k i of
        None \<Rightarrow> (Inl ENOENT, k)
      | Some n \<Rightarrow>
        if O_CREAT \<in> set flags \<and> O_EXCL \<in> set flags then (Inl EEXIST, k)
        else if i_kind n = Symlink then (Inl ELOOP, k)
        else if O_DIRECTORY \<in> set flags \<and> i_kind n \<noteq> Directory then (Inl ENOTDIR, k)
        else if i_kind n = Directory \<and> (O_WRONLY \<in> set flags \<or> O_RDWR \<in> set flags) then (Inl EISDIR, k)
        else if i_kind n = Fifo \<and> O_WRONLY \<in> set flags then (Inl ENXIO, k)
        else install_obj (Node i) k)"

definition new_inode :: "'a kernel_scheme \<Rightarrow> inode" where
  "new_inode k = \<lparr>i_kind = Regular, i_dev = (case node_of k 0 of Some d \<Rightarrow> i_dev d | None \<Rightarrow> 0),
     i_nlink = 1, i_data = [], i_mtime = tv_sec (k_realtime k (k_tick k))\<rparr>"

definition create_file :: "string \<Rightarrow> 'a kernel_scheme \<Rightarrow> 'a kernel_scheme" where
  "create_file name k = k\<lparr>k_dir := k_dir k @ [(name, length (k_inodes k))], k_inodes := k_inodes k @ [new_inode k]\<rparr>"

definition sys_openat :: "int \<Rightarrow> string \<Rightarrow> open_flag list \<Rightarrow> 'a kernel_scheme \<Rightarrow> (errno + int) \<times> 'a kernel_scheme" where
  "sys_openat dirfd name flags = syscall (\<lambda>k.
     if fd_obj k dirfd = None then (Inl EBADF, k)
     else if \<not> is_dir_fd k dirfd then (Inl ENOTDIR, k)
     else case dir_lookup k name of
        Some i \<Rightarrow> open_existing flags i k
      | None \<Rightarrow> if O_CREAT \<in> set flags then install_obj (Node (length (k_inodes k))) (create_file name k)
                else (Inl ENOENT, k))"

text \<open>Opening the directory part of a path; the other ways a path can fail are in the schedule.\<close>

definition sys_open_dir :: "string \<Rightarrow> 'a kernel_scheme \<Rightarrow> (errno + int) \<times> 'a kernel_scheme" where
  "sys_open_dir path = syscall (open_existing [O_RDONLY, O_DIRECTORY, O_CLOEXEC] 0)"

definition stat_of :: "nat \<Rightarrow> inode \<Rightarrow> file_stat" where
  "stat_of i n = \<lparr>st_kind = i_kind n, st_nlink = i_nlink n, st_size = int (length (i_data n)),
     st_dev = i_dev n, st_ino = i, st_mtime = i_mtime n\<rparr>"

definition sys_fstat :: "int \<Rightarrow> 'a kernel_scheme \<Rightarrow> (errno + file_stat) \<times> 'a kernel_scheme" where
  "sys_fstat fd = syscall (\<lambda>k. case fd_obj k fd of
      Some (Node i) \<Rightarrow> (case node_of k i of Some n \<Rightarrow> (Inr (stat_of i n), k) | None \<Rightarrow> (Inl EBADF, k))
    | _ \<Rightarrow> (Inl EBADF, k))"

text \<open>\<^verbatim>\<open>fstatat\<close> with \<^verbatim>\<open>AT_SYMLINK_NOFOLLOW\<close>.\<close>

definition sys_fstatat :: "int \<Rightarrow> string \<Rightarrow> 'a kernel_scheme \<Rightarrow> (errno + file_stat) \<times> 'a kernel_scheme" where
  "sys_fstatat dirfd name = syscall (\<lambda>k.
     if fd_obj k dirfd = None then (Inl EBADF, k)
     else if \<not> is_dir_fd k dirfd then (Inl ENOTDIR, k)
     else case dir_lookup k name of
       None \<Rightarrow> (Inl ENOENT, k)
     | Some i \<Rightarrow> (case node_of k i of Some n \<Rightarrow> (Inr (stat_of i n), k) | None \<Rightarrow> (Inl ENOENT, k)))"

definition sys_fpathconf :: "int \<Rightarrow> 'a kernel_scheme \<Rightarrow> (errno + int) \<times> 'a kernel_scheme" where
  "sys_fpathconf fd = syscall (\<lambda>k. if fd_obj k fd = None then (Inl EBADF, k) else (Inr (k_name_max k), k))"

definition sys_fsync :: "int \<Rightarrow> 'a kernel_scheme \<Rightarrow> (errno + unit) \<times> 'a kernel_scheme" where
  "sys_fsync fd = syscall (\<lambda>k. if fd_obj k fd = None then (Inl EBADF, k) else (Inr (), k))"

text \<open>\<^verbatim>\<open>flock(fd, LOCK_EX | LOCK_NB)\<close>.\<close>

definition sys_flock :: "int \<Rightarrow> 'a kernel_scheme \<Rightarrow> (errno + unit) \<times> 'a kernel_scheme" where
  "sys_flock fd = syscall (\<lambda>k. case fd_obj k fd of
      Some (Node i) \<Rightarrow>
        (case map_of (k_flocks k) i of
           Some h \<Rightarrow> if h = HeldBy (nat fd) then (Inr (), k) else (Inl EWOULDBLOCK, k)
         | None \<Rightarrow> (Inr (), k\<lparr>k_flocks := (i, HeldBy (nat fd)) # k_flocks k\<rparr>))
    | _ \<Rightarrow> (Inl EBADF, k))"

section \<open>Changing the directory\<close>

text \<open>\<^verbatim>\<open>renameat2(dirfd, from, dirfd, to, RENAME_NOREPLACE)\<close>: the target must not exist.\<close>

definition sys_renameat2_noreplace :: "int \<Rightarrow> string \<Rightarrow> string \<Rightarrow> 'a kernel_scheme \<Rightarrow> (errno + unit) \<times> 'a kernel_scheme" where
  "sys_renameat2_noreplace dirfd from to = syscall (\<lambda>k.
     if fd_obj k dirfd = None then (Inl EBADF, k)
     else if \<not> is_dir_fd k dirfd then (Inl ENOTDIR, k)
     else case (dir_lookup k from, dir_lookup k to) of
       (None, _) \<Rightarrow> (Inl ENOENT, k)
     | (Some i, Some j) \<Rightarrow> (Inl EEXIST, k)
     | (Some i, None) \<Rightarrow> (Inr (), k\<lparr>k_dir := dir_remove from (k_dir k) @ [(to, i)]\<rparr>))"

definition sys_unlinkat :: "int \<Rightarrow> string \<Rightarrow> 'a kernel_scheme \<Rightarrow> (errno + unit) \<times> 'a kernel_scheme" where
  "sys_unlinkat dirfd name = syscall (\<lambda>k.
     if fd_obj k dirfd = None then (Inl EBADF, k)
     else if \<not> is_dir_fd k dirfd then (Inl ENOTDIR, k)
     else case dir_lookup k name of
       None \<Rightarrow> (Inl ENOENT, k)
     | Some i \<Rightarrow>
       (case node_of k i of
          None \<Rightarrow> (Inl ENOENT, k)
        | Some n \<Rightarrow> if i_kind n = Directory then (Inl EISDIR, k)
            else (Inr (), k\<lparr>k_dir := dir_remove name (k_dir k),
                            k_inodes := (k_inodes k)[i := n\<lparr>i_nlink := i_nlink n - 1\<rparr>]\<rparr>)))"

section \<open>Writing\<close>

text \<open>
  The bytes a transfer of \<open>p\<close> moves under the scheduled outcome. Data appended to an inode
  changes its modification time; data for a device or \<^verbatim>\<open>stderr\<close> goes to the stream.
\<close>

definition transfer :: "outcome \<Rightarrow> string \<Rightarrow> errno + nat" where
  "transfer c p = (case c of Fail e \<Rightarrow> Inl e | Done \<Rightarrow> Inr (length p) | Short n \<Rightarrow> Inr (min n (length p)))"

definition append_data :: "nat \<Rightarrow> string \<Rightarrow> 'a kernel_scheme \<Rightarrow> 'a kernel_scheme" where
  "append_data i p k = (case node_of k i of
      Some n \<Rightarrow> if i_kind n = Regular
        then k\<lparr>k_inodes := (k_inodes k)[i := n\<lparr>i_data := i_data n @ p, i_mtime := tv_sec (k_realtime k (k_tick k))\<rparr>]\<rparr>
        else k
    | None \<Rightarrow> k)"

definition sys_write :: "int \<Rightarrow> string \<Rightarrow> 'a kernel_scheme \<Rightarrow> (errno + nat) \<times> 'a kernel_scheme" where
  "sys_write fd p k =
     (case next_call k of (c, k1) \<Rightarrow>
        case fd_obj k1 fd of
          Some (Node i) \<Rightarrow> (case transfer c p of Inl e \<Rightarrow> (Inl e, k1) | Inr n \<Rightarrow> (Inr n, append_data i (take n p) k1))
        | _ \<Rightarrow> (Inl EBADF, k1))"

text \<open>Writing to a broken pipe raises \<^verbatim>\<open>SIGPIPE\<close>: it stays pending while it is blocked.\<close>

definition raise_sigpipe :: "'a kernel_scheme \<Rightarrow> 'a kernel_scheme" where
  "raise_sigpipe k = (if k_sig_blocked k then k\<lparr>k_sig_pending := True\<rparr> else k\<lparr>k_sig_raised := Suc (k_sig_raised k)\<rparr>)"

lemma raise_sigpipe_calls [simp]: "k_calls (raise_sigpipe k) = k_calls k"
  by (simp add: raise_sigpipe_def)

definition sys_write_stderr :: "string \<Rightarrow> 'a kernel_scheme \<Rightarrow> (errno + nat) \<times> 'a kernel_scheme" where
  "sys_write_stderr p k =
     (case next_call k of (c, k1) \<Rightarrow>
        case transfer c p of
          Inl e \<Rightarrow> (Inl e, if e = EPIPE then raise_sigpipe k1 else k1)
        | Inr n \<Rightarrow> (Inr n, k1\<lparr>k_stderr := k_stderr k1 @ take n p\<rparr>))"

section \<open>Sockets\<close>

definition sys_socket :: "'a kernel_scheme \<Rightarrow> (errno + int) \<times> 'a kernel_scheme" where
  "sys_socket = syscall (install_obj (Socket None))"

definition sys_connect :: "int \<Rightarrow> string \<Rightarrow> 'a kernel_scheme \<Rightarrow> (errno + unit) \<times> 'a kernel_scheme" where
  "sys_connect fd path = syscall (\<lambda>k. case fd_obj k fd of
      Some (Socket _) \<Rightarrow> (Inr (), k\<lparr>k_table := (k_table k)[nat fd := Some (Socket (Some path))]\<rparr>)
    | _ \<Rightarrow> (Inl EBADF, k))"

text \<open>A datagram arrives whole; a short count is an anomaly the caller must not continue.\<close>

definition sys_send :: "int \<Rightarrow> string \<Rightarrow> 'a kernel_scheme \<Rightarrow> (errno + nat) \<times> 'a kernel_scheme" where
  "sys_send fd p k =
     (case next_call k of (c, k1) \<Rightarrow>
        case fd_obj k1 fd of
          Some (Socket (Some _)) \<Rightarrow>
            (case transfer c p of Inl e \<Rightarrow> (Inl e, k1) | Inr n \<Rightarrow> (Inr n, k1\<lparr>k_sent := k_sent k1 @ [take n p]\<rparr>))
        | Some (Socket None) \<Rightarrow> (Inl ENOTCONN, k1)
        | _ \<Rightarrow> (Inl EBADF, k1))"

section \<open>Working directory and signals\<close>

text \<open>\<^verbatim>\<open>getcwd\<close> into a buffer of \<open>cap\<close> bytes.\<close>

definition sys_getcwd :: "nat \<Rightarrow> 'a kernel_scheme \<Rightarrow> (errno + string) \<times> 'a kernel_scheme" where
  "sys_getcwd cap = syscall (\<lambda>k. if cap \<le> length (k_cwd k) then (Inl ERANGE, k) else (Inr (k_cwd k), k))"

text \<open>
  The signal calls take their outcome from the schedule of the thread calls. Unblocking delivers a
  pending signal.
\<close>

definition sys_block_sigpipe :: "'a kernel_scheme \<Rightarrow> errno \<times> bool \<times> 'a kernel_scheme" where
  "sys_block_sigpipe k = (case pthread_call k of (rc, k1) \<Rightarrow>
     (rc, k_sig_blocked k1, if rc = 0 then k1\<lparr>k_sig_blocked := True\<rparr> else k1))"

definition set_sigmask :: "bool \<Rightarrow> 'a kernel_scheme \<Rightarrow> 'a kernel_scheme" where
  "set_sigmask b k =
     (if \<not> b \<and> k_sig_pending k
      then k\<lparr>k_sig_blocked := b, k_sig_pending := False, k_sig_raised := Suc (k_sig_raised k)\<rparr>
      else k\<lparr>k_sig_blocked := b\<rparr>)"

definition sys_restore_sigmask :: "bool \<Rightarrow> 'a kernel_scheme \<Rightarrow> errno \<times> 'a kernel_scheme" where
  "sys_restore_sigmask b k = (case pthread_call k of (rc, k1) \<Rightarrow> (rc, if rc = 0 then set_sigmask b k1 else k1))"

definition sys_sigpending :: "'a kernel_scheme \<Rightarrow> (errno + bool) \<times> 'a kernel_scheme" where
  "sys_sigpending k = (case pthread_call k of (rc, k1) \<Rightarrow> (if rc \<noteq> 0 then Inl rc else Inr (k_sig_pending k1), k1))"

text \<open>\<^verbatim>\<open>sigtimedwait\<close> with a zero timeout takes a pending \<^verbatim>\<open>SIGPIPE\<close>.\<close>

definition sys_sigtimedwait :: "'a kernel_scheme \<Rightarrow> (errno + unit) \<times> 'a kernel_scheme" where
  "sys_sigtimedwait k = (case pthread_call k of (rc, k1) \<Rightarrow>
     if rc \<noteq> 0 then (Inl rc, k1)
     else if k_sig_pending k1 then (Inr (), k1\<lparr>k_sig_pending := False\<rparr>) else (Inl EAGAIN, k1))"

section \<open>Clocks\<close>

definition tick :: "'a kernel_scheme \<Rightarrow> 'a kernel_scheme" where
  "tick k = k\<lparr>k_tick := Suc (k_tick k)\<rparr>"

definition sys_realtime :: "'a kernel_scheme \<Rightarrow> (errno + timespec) \<times> 'a kernel_scheme" where
  "sys_realtime = syscall (\<lambda>k. (Inr (k_realtime k (k_tick k)), tick k))"

definition sys_monotonic :: "'a kernel_scheme \<Rightarrow> (errno + timespec) \<times> 'a kernel_scheme" where
  "sys_monotonic = syscall (\<lambda>k. (Inr (k_monotonic k (k_tick k)), tick k))"

definition sys_time :: "'a kernel_scheme \<Rightarrow> int \<times> 'a kernel_scheme" where
  "sys_time k = (tv_sec (k_realtime k (k_tick k)), tick k)"

section \<open>Interrupted calls\<close>

lemma next_call_Fail: "next_call k = (Fail e, k') \<Longrightarrow> 0 < e \<and> length (k_calls k') < length (k_calls k)"
  by (auto simp: next_call_def effective_def split: list.splits outcome.splits if_splits)

lemma next_call_shorter: "next_call k = (c, k') \<Longrightarrow> length (k_calls k') \<le> length (k_calls k)"
  by (auto simp: next_call_def split: list.splits)

text \<open>A call that is interrupted only when the schedule says so uses up the schedule.\<close>

lemma syscall_interrupted:
  assumes "syscall op k = (Inl EINTR, k')" and "\<And>k1 k2. op k1 \<noteq> (Inl EINTR, k2)"
  shows "length (k_calls k') < length (k_calls k)"
  using assms by (auto simp: syscall_def dest: next_call_Fail split: prod.splits outcome.splits)

lemma sys_fsync_interrupted: "sys_fsync fd k = (Inl EINTR, k') \<Longrightarrow> length (k_calls k') < length (k_calls k)"
  unfolding sys_fsync_def by (erule syscall_interrupted) auto

lemma sys_flock_interrupted: "sys_flock fd k = (Inl EINTR, k') \<Longrightarrow> length (k_calls k') < length (k_calls k)"
  unfolding sys_flock_def by (erule syscall_interrupted) (auto split: option.splits fd_object.splits)

lemma append_data_calls [simp]: "k_calls (append_data i p k) = k_calls k"
  by (simp add: append_data_def split: option.splits)

lemma sys_write_progress:
  assumes "sys_write fd p k = (r, k')"
  shows "(\<forall>e. r = Inl e \<longrightarrow> e = EBADF \<or> length (k_calls k') < length (k_calls k)) \<and>
    (\<forall>n. r = Inr n \<longrightarrow> n \<le> length p) \<and> length (k_calls k') \<le> length (k_calls k)"
  using assms
  by (auto simp: sys_write_def transfer_def dest: next_call_Fail next_call_shorter
      split: prod.splits option.splits fd_object.splits outcome.splits sum.splits)

lemma sys_write_stderr_progress:
  assumes "sys_write_stderr p k = (r, k')"
  shows "(\<forall>e. r = Inl e \<longrightarrow> length (k_calls k') < length (k_calls k)) \<and>
    (\<forall>n. r = Inr n \<longrightarrow> n \<le> length p) \<and> length (k_calls k') \<le> length (k_calls k)"
  using assms
  by (auto simp: sys_write_stderr_def transfer_def dest: next_call_Fail next_call_shorter
      split: prod.splits outcome.splits sum.splits)

end
