(* ===== verification/Logger_Domain.thy ===== *)
theory Logger_Domain
  imports Logger_Os
begin

text \<open>
  The process domain of \<^verbatim>\<open>src/logger_runtime.h\<close> together with the file-scope and thread-local
  variables of \<^verbatim>\<open>src/logger_process.c\<close>, \<^verbatim>\<open>src/logger_fork_fd.c\<close>, \<^verbatim>\<open>src/logger_libc.c\<close> and
  \<^verbatim>\<open>src/logger_scope.c\<close>, as one record over the kernel; then process admission, the call scope
  and the resource gate. The thread-local variables are those of the calling thread.

  \<open>owned_fds\<close> is the descriptor bitmap, 64 descriptors a word, the empty list for the null
  pointer; \<open>owned_bytes\<close> of the code is eight times its length. \<open>current\<close> is the published domain;
  \<open>directory_lease\<close> is the descriptor inside the leased \<^verbatim>\<open>DIR\<close>.
\<close>

record logger_runtime =
  initialized :: nat
  resource_error :: errno
  owned_fds :: "u64 list"
  owned_count :: size_t
  allocations :: "(nat \<times> nat) list"
  allocation_count :: size_t
  live_objects :: u32
  global_logger :: "nat option"
  global_ticket :: u64
  global_lock_error :: errno
  console_config :: u32
  console_lock_error :: errno

record domain = kernel +
  owner_pid :: int
  forked_child :: bool
  process_ticket :: int
  initializing :: bool
  handlers_registered :: bool
  current :: "logger_runtime option"
  retained_bootstrap :: "logger_runtime option"
  in_gate :: bool
  prepared :: bool
  prepare_error :: errno
  child_error :: errno
  child_valid :: bool
  snapshot_fds :: "u64 list"
  fork_depth :: u32
  directory_lease :: "int option"
  child_bitmap :: "u64 list"
  entered :: bool
  libc_prepared :: bool
  in_runtime :: bool
  in_global :: bool
  next_address :: nat
  poisons :: "errno list"

abbreviation PROCESS_IDLE :: int where "PROCESS_IDLE \<equiv> 0"
abbreviation PROCESS_STARTING :: int where "PROCESS_STARTING \<equiv> - 1"
abbreviation PROCESS_READY :: int where "PROCESS_READY \<equiv> - 2"

definition logger_runtime_current :: "domain \<Rightarrow> logger_runtime" where
  "logger_runtime_current d = the (current d)"

definition update_runtime :: "(logger_runtime \<Rightarrow> logger_runtime) \<Rightarrow> domain \<Rightarrow> domain" where
  "update_runtime f d = d\<lparr>current := map_option f (current d)\<rparr>"

section \<open>Process admission\<close>

definition logger_process_is_child :: "domain \<Rightarrow> bool" where
  "logger_process_is_child d = (if forked_child d then True else owner_pid d \<noteq> 0 \<and> owner_pid d \<noteq> k_pid d)"

definition logger_process_ready :: "domain \<Rightarrow> bool" where
  "logger_process_ready d = (process_ticket d = PROCESS_READY)"

definition logger_process_require :: "domain \<Rightarrow> int" where
  "logger_process_require d =
     (if logger_process_is_child d then - ECHILD
      else if initializing d then - EDEADLK
      else if process_ticket d = PROCESS_READY then 0
      else if process_ticket d = PROCESS_STARTING then - EAGAIN
      else if 0 < process_ticket d then - process_ticket d else - ENODEV)"

text \<open>The counters of live instances; the compare-and-exchange loops end with the count they read.\<close>

definition logger_process_object_acquire :: "domain \<Rightarrow> int \<times> domain" where
  "logger_process_object_acquire d =
     (let n = live_objects (logger_runtime_current d) in
      if n = - 1 then (- EOVERFLOW, d) else (0, update_runtime (live_objects_update (\<lambda>_. n + 1)) d))"

definition logger_process_object_release :: "domain \<Rightarrow> int \<times> domain" where
  "logger_process_object_release d =
     (let n = live_objects (logger_runtime_current d) in
      if n = 0 then (- EUCLEAN, d) else (0, update_runtime (live_objects_update (\<lambda>_. n - 1)) d))"

definition logger_process_object_count :: "domain \<Rightarrow> u32" where
  "logger_process_object_count d =
     (if logger_process_is_child d \<or> \<not> logger_process_ready d then 0 else live_objects (logger_runtime_current d))"

section \<open>The call scope\<close>

definition logger_fork_fd_preparing :: "domain \<Rightarrow> bool" where
  "logger_fork_fd_preparing d = (fork_depth d \<noteq> 0)"

definition logger_scope_busy :: "domain \<Rightarrow> bool" where
  "logger_scope_busy d = (in_runtime d \<or> logger_fork_fd_preparing d)"

definition logger_scope_begin :: "domain \<Rightarrow> int \<times> domain" where
  "logger_scope_begin d =
     (if logger_process_is_child d then (- ECHILD, d)
      else if logger_scope_busy d then (- EDEADLK, d)
      else let rc = logger_process_require d in
        if rc \<noteq> 0 then (rc, d)
        else case pthread_call d of (cancel, d1) \<Rightarrow>
          if cancel \<noteq> 0 then (- cancel, d1) else (0, d1\<lparr>in_runtime := True\<rparr>))"

text \<open>The result and the \<^verbatim>\<open>errno\<close> the caller sees, \<open>saved\<close> being its value at entry.\<close>

definition logger_scope_end :: "errno \<Rightarrow> int \<Rightarrow> domain \<Rightarrow> int \<times> errno \<times> domain" where
  "logger_scope_end saved rc d =
     (case pthread_call (d\<lparr>in_runtime := False\<rparr>) of (restore, d1) \<Rightarrow>
        let rc' = (if rc = 0 \<and> restore \<noteq> 0 then - restore else rc) in
        (rc', if rc' < 0 then - rc' else saved, d1))"

definition logger_scope_worker_enter :: "domain \<Rightarrow> domain" where
  "logger_scope_worker_enter d = d\<lparr>in_runtime := True\<rparr>"

definition logger_scope_worker_leave :: "domain \<Rightarrow> domain" where
  "logger_scope_worker_leave d = d\<lparr>in_runtime := False\<rparr>"

definition logger_scope_reset_child :: "domain \<Rightarrow> domain" where
  "logger_scope_reset_child d = d\<lparr>in_runtime := False\<rparr>"

section \<open>The resource gate\<close>

definition logger_fork_resource_poison :: "errno \<Rightarrow> domain \<Rightarrow> domain" where
  "logger_fork_resource_poison e = update_runtime (resource_error_update (\<lambda>_. e))"

text \<open>
  While a thread waits for a lock another one may publish an error; \<open>poisons\<close> lists what happens at
  the coming waits (0 for nothing). The code reads \<open>resource_error\<close> again once it holds the lock.
\<close>

definition waited :: "domain \<Rightarrow> domain" where
  "waited d = (case poisons d of
     [] \<Rightarrow> d
   | e # es \<Rightarrow> (let d1 = d\<lparr>poisons := es\<rparr> in if e \<noteq> 0 then logger_fork_resource_poison e d1 else d1))"

definition logger_fork_resource_enter :: "domain \<Rightarrow> errno \<times> domain" where
  "logger_fork_resource_enter d =
     (let rc = logger_process_require d in
      if rc \<noteq> 0 then (- rc, d)
      else if in_gate d then (EDEADLK, d)
      else let e = resource_error (logger_runtime_current d) in
        if e \<noteq> 0 then (e, d)
        else case pthread_call d of (locked, d1) \<Rightarrow>
          if locked \<noteq> 0 then (locked, logger_fork_resource_poison locked d1)
          else let d2 = (waited d1)\<lparr>in_gate := True\<rparr>;
                   e2 = resource_error (logger_runtime_current d2)
               in if e2 = 0 then (0, d2)
                  else case pthread_call d2 of (unlocked, d3) \<Rightarrow>
                    let d4 = d3\<lparr>in_gate := False\<rparr>
                    in (e2, if unlocked \<noteq> 0 then logger_fork_resource_poison unlocked d4 else d4))"

definition logger_fork_resource_leave :: "errno \<Rightarrow> domain \<Rightarrow> errno \<times> domain" where
  "logger_fork_resource_leave e d =
     (case pthread_call d of (rc, d1) \<Rightarrow>
        let d2 = d1\<lparr>in_gate := False\<rparr>;
            d3 = (if rc \<noteq> 0 then logger_fork_resource_poison rc d2 else d2)
        in (if e \<noteq> 0 then e else rc, d3))"

end
