(* ===== verification/Logger_Fork_Fd.thy ===== *)
theory Logger_Fork_Fd
  imports Logger_Domain
begin

text \<open>
  \<^verbatim>\<open>src/logger_fork_fd.c\<close>, \<^verbatim>\<open>src/logger_libc.c\<close> and \<^verbatim>\<open>src/logger_fd.h\<close>: the bitmap of owned
  descriptors, descriptor acquisition and release inside the resource gate, the fork handlers,
  the format gate around libc calls, and the single owner of a descriptor.
\<close>

section \<open>The bitmap\<close>

abbreviation owned_words :: "domain \<Rightarrow> u64 list" where
  "owned_words d \<equiv> owned_fds (logger_runtime_current d)"

abbreviation gate_error :: "domain \<Rightarrow> errno" where
  "gate_error d \<equiv> resource_error (logger_runtime_current d)"

text \<open>Doubling the mapping until it holds \<open>required\<close> bytes; \<^const>\<open>None\<close> is \<^verbatim>\<open>EOVERFLOW\<close>.\<close>

function grow_loop :: "nat \<Rightarrow> nat \<Rightarrow> nat option" where
  "grow_loop bytes required =
     (if required \<le> bytes \<or> bytes = 0 then Some bytes
      else if (2 ^ 64 - 1) div 2 < bytes then None
      else grow_loop (bytes * 2) required)"
  by pat_completeness auto
termination by (relation "measure (\<lambda>(bytes, required). required - bytes)") auto

declare grow_loop.simps [simp del]

definition fd_word :: "int \<Rightarrow> nat" where "fd_word fd = nat fd div 64"
definition fd_bit :: "int \<Rightarrow> nat" where "fd_bit fd = nat fd mod 64"

definition grow_for :: "int \<Rightarrow> domain \<Rightarrow> errno \<times> domain" where
  "grow_for fd d =
     (let required = (fd_word fd + 1) * 8; owned_bytes = length (owned_words d) * 8 in
      if required \<le> owned_bytes then (0, d)
      else case grow_loop (if owned_bytes \<noteq> 0 then owned_bytes else 4096) required of
        None \<Rightarrow> (EOVERFLOW, d)
      | Some bytes \<Rightarrow>
        (case syscall (\<lambda>k. (Inr (), k)) d of
           (Inl e, d1) \<Rightarrow> (e, d1)
         | (Inr _, d1) \<Rightarrow> (0, update_runtime (owned_fds_update
             (\<lambda>ws. ws @ replicate (bytes div 8 - length ws) 0)) d1)))"

definition is_owned :: "domain \<Rightarrow> int \<Rightarrow> bool" where
  "is_owned d fd = (0 \<le> fd \<and> fd_word fd < length (owned_words d) \<and> (owned_words d ! fd_word fd) AND push_bit (fd_bit fd) 1 \<noteq> 0)"

definition register_fd :: "int \<Rightarrow> domain \<Rightarrow> errno \<times> domain" where
  "register_fd fd d =
     (case grow_for fd d of (rc, d1) \<Rightarrow>
        if rc \<noteq> 0 then (rc, d1)
        else if is_owned d1 fd then (EUCLEAN, logger_fork_resource_poison EUCLEAN d1)
        else (0, update_runtime (\<lambda>r. r\<lparr>
          owned_fds := (owned_fds r)[fd_word fd := owned_fds r ! fd_word fd OR push_bit (fd_bit fd) 1],
          owned_count := owned_count r + 1\<rparr>) d1))"

definition unregister_fd :: "int \<Rightarrow> domain \<Rightarrow> domain" where
  "unregister_fd fd = update_runtime (\<lambda>r. r\<lparr>
     owned_fds := (owned_fds r)[fd_word fd := owned_fds r ! fd_word fd AND NOT (push_bit (fd_bit fd) 1)],
     owned_count := owned_count r - 1\<rparr>)"

definition release_empty :: "domain \<Rightarrow> errno \<times> domain" where
  "release_empty d =
     (if owned_count (logger_runtime_current d) \<noteq> 0 \<or> owned_words d = [] then (0, d)
      else case syscall (\<lambda>k. (Inr (), k)) d of
        (Inl e, d1) \<Rightarrow> (e, logger_fork_resource_poison e d1)
      | (Inr _, d1) \<Rightarrow> (0, update_runtime (owned_fds_update (\<lambda>_. [])) d1))"

section \<open>Acquisition and release\<close>

text \<open>\<^verbatim>\<open>errno\<close> of the failed call, or the descriptor it hands out.\<close>

definition acquired :: "errno + int \<Rightarrow> domain \<Rightarrow> (errno + int) \<times> domain" where
  "acquired r d =
     (case r of
        Inl e \<Rightarrow>
          (case logger_fork_resource_leave e d of (e', d1) \<Rightarrow> (Inl e', d1))
      | Inr fd \<Rightarrow>
          (case register_fd fd d of (e, d1) \<Rightarrow>
             let d2 = (if e \<noteq> 0 then snd (sys_close fd d1) else d1)
             in case logger_fork_resource_leave e d2 of (e', d3) \<Rightarrow>
                  (if e' \<noteq> 0 then Inl e' else Inr fd, d3)))"

definition logger_fork_open :: "string \<Rightarrow> domain \<Rightarrow> (errno + int) \<times> domain" where
  "logger_fork_open path d =
     (case logger_fork_resource_enter d of (e, d1) \<Rightarrow>
        if e \<noteq> 0 then (Inl e, d1) else case sys_open_dir path d1 of (r, d2) \<Rightarrow> acquired r d2)"

definition logger_fork_openat :: "int \<Rightarrow> string \<Rightarrow> open_flag list \<Rightarrow> domain \<Rightarrow> (errno + int) \<times> domain" where
  "logger_fork_openat dir path flags d =
     (case logger_fork_resource_enter d of (e, d1) \<Rightarrow>
        if e \<noteq> 0 then (Inl e, d1) else case sys_openat dir path flags d1 of (r, d2) \<Rightarrow> acquired r d2)"

definition logger_fork_socket :: "domain \<Rightarrow> (errno + int) \<times> domain" where
  "logger_fork_socket d =
     (case logger_fork_resource_enter d of (e, d1) \<Rightarrow>
        if e \<noteq> 0 then (Inl e, d1) else case sys_socket d1 of (r, d2) \<Rightarrow> acquired r d2)"

definition logger_fork_close :: "int \<Rightarrow> domain \<Rightarrow> (errno + unit) \<times> domain" where
  "logger_fork_close fd d =
     (case logger_fork_resource_enter d of (e, d1) \<Rightarrow>
        if e \<noteq> 0 then (Inl e, d1)
        else case
          (if \<not> is_owned d1 fd then (EBADF, d1)
           else case sys_close fd (unregister_fd fd d1) of (r, d2) \<Rightarrow>
             let closed = (case r of Inl e1 \<Rightarrow> e1 | Inr _ \<Rightarrow> 0) in
             case release_empty d2 of (released, d3) \<Rightarrow> (if closed = 0 then released else closed, d3))
        of (e1, d4) \<Rightarrow>
          (case logger_fork_resource_leave e1 d4 of (e2, d5) \<Rightarrow> (if e2 \<noteq> 0 then Inl e2 else Inr (), d5)))"

text \<open>
  A successful \<^verbatim>\<open>fdopendir\<close> keeps the gate until \<^verbatim>\<open>closedir\<close>. The \<^verbatim>\<open>DIR\<close> is the list of names
  it will return.
\<close>

definition logger_fork_fdopendir :: "int \<Rightarrow> domain \<Rightarrow> (errno + string list) \<times> domain" where
  "logger_fork_fdopendir fd d =
     (case logger_fork_resource_enter d of (e, d1) \<Rightarrow>
        if e \<noteq> 0 then (Inl e, d1)
        else case
          (if \<not> is_owned d1 fd then (Inl EBADF, d1)
           else syscall (\<lambda>k. if is_dir_fd k fd then (Inr (map fst (k_dir k)), k) else (Inl ENOTDIR, k)) d1)
        of (r, d2) \<Rightarrow>
          (case r of
             Inr names \<Rightarrow> (Inr names, d2\<lparr>directory_lease := Some fd\<rparr>)
           | Inl e1 \<Rightarrow> (case logger_fork_resource_leave e1 d2 of (e2, d3) \<Rightarrow> (Inl e2, d3))))"

text \<open>\<open>dir\<close> is the descriptor inside the \<^verbatim>\<open>DIR\<close> the caller passes.\<close>

definition logger_fork_closedir :: "int \<Rightarrow> domain \<Rightarrow> (errno + unit) \<times> domain" where
  "logger_fork_closedir dir d =
     (if directory_lease d \<noteq> Some dir \<or> \<not> in_gate d then (Inl EINVAL, d)
      else case
        (if \<not> is_owned d dir then (EUCLEAN, logger_fork_resource_poison EUCLEAN d)
         else case sys_close dir (unregister_fd dir d) of (r, d1) \<Rightarrow>
           let closed = (case r of Inl e1 \<Rightarrow> e1 | Inr _ \<Rightarrow> 0) in
           case release_empty d1 of (released, d2) \<Rightarrow> (if closed = 0 then released else closed, d2))
      of (e, d3) \<Rightarrow>
        (case logger_fork_resource_leave e (d3\<lparr>directory_lease := None\<rparr>) of (e', d4) \<Rightarrow>
           (if e' \<noteq> 0 then Inl e' else Inr (), d4)))"

section \<open>The format gate\<close>

definition logger_libc_busy :: "domain \<Rightarrow> bool" where
  "logger_libc_busy d = entered d"

definition libc_begin :: "domain \<Rightarrow> errno \<times> domain" where
  "libc_begin d =
     (let rc = logger_process_require d in
      if rc \<noteq> 0 then (- rc, d)
      else if entered d then (EDEADLK, d)
      else if gate_error d \<noteq> 0 then (gate_error d, d)
      else case pthread_call d of (locked, d1) \<Rightarrow>
        if locked \<noteq> 0 then (locked, d1)
        else let d2 = waited d1 in
          if gate_error d2 \<noteq> 0
          then (case pthread_call d2 of (released, d3) \<Rightarrow>
                  (gate_error d2, if released \<noteq> 0 then logger_fork_resource_poison released d3 else d3))
          else (0, d2\<lparr>entered := True\<rparr>))"

definition libc_end :: "errno \<Rightarrow> domain \<Rightarrow> errno \<times> domain" where
  "libc_end e d =
     (case pthread_call d of (rc, d1) \<Rightarrow>
        let d2 = d1\<lparr>entered := False\<rparr>
        in (if e \<noteq> 0 then e else rc, if rc \<noteq> 0 then logger_fork_resource_poison rc d2 else d2))"

text \<open>A libc call inside the gate; \<open>op\<close> gives the \<^verbatim>\<open>errno\<close> of a failed call or its result.\<close>

definition libc_call :: "(domain \<Rightarrow> (errno + 'b) \<times> domain) \<Rightarrow> errno \<Rightarrow> domain \<Rightarrow> (errno + 'b) \<times> domain" where
  "libc_call op fallback d =
     (case libc_begin d of (e, d1) \<Rightarrow>
        if e \<noteq> 0 then (Inl e, d1)
        else case op d1 of (r, d2) \<Rightarrow>
          case libc_end (case r of Inl e1 \<Rightarrow> errno_or e1 fallback | Inr _ \<Rightarrow> 0) d2 of (e2, d3) \<Rightarrow>
            (if e2 \<noteq> 0 then Inl e2 else r, d3))"

text \<open>\<open>expansion\<close> is what the format and arguments produce; the call itself can fail.\<close>

definition logger_libc_vsnprintf :: "string \<Rightarrow> domain \<Rightarrow> (errno + string) \<times> domain" where
  "logger_libc_vsnprintf expansion = libc_call (syscall (\<lambda>k. (Inr expansion, k))) EILSEQ"

definition logger_libc_snprintf :: "string \<Rightarrow> domain \<Rightarrow> (errno + string) \<times> domain" where
  "logger_libc_snprintf expansion = logger_libc_vsnprintf expansion"

definition logger_libc_localtime_r :: "int \<Rightarrow> domain \<Rightarrow> (errno + tm) \<times> domain" where
  "logger_libc_localtime_r sec = libc_call (\<lambda>d. (k_localtime d sec, d)) EOVERFLOW"

definition logger_libc_gmtime_r :: "int \<Rightarrow> domain \<Rightarrow> (errno + tm) \<times> domain" where
  "logger_libc_gmtime_r sec = libc_call (\<lambda>d. (k_gmtime d sec, d)) EOVERFLOW"

text \<open>\<^verbatim>\<open>strftime\<close> may return 0 without an error; the result is the text, empty for 0.\<close>

definition logger_libc_strftime :: "nat \<Rightarrow> string \<Rightarrow> domain \<Rightarrow> string \<times> domain" where
  "logger_libc_strftime cap expansion d =
     (case libc_begin d of (e, d1) \<Rightarrow>
        if e \<noteq> 0 then ([], d1)
        else let result = (if length expansion < cap then expansion else []) in
          case libc_end 0 d1 of (e2, d2) \<Rightarrow> (if e2 \<noteq> 0 then [] else result, d2))"

definition logger_libc_fork_prepare :: "domain \<Rightarrow> errno \<times> domain" where
  "logger_libc_fork_prepare d =
     (case libc_begin (d\<lparr>libc_prepared := False\<rparr>) of (rc, d1) \<Rightarrow>
        (rc, if rc = 0 then d1\<lparr>libc_prepared := True\<rparr> else d1))"

definition logger_libc_fork_parent :: "domain \<Rightarrow> domain" where
  "logger_libc_fork_parent d =
     (if libc_prepared d then snd (libc_end 0 d) else d)\<lparr>libc_prepared := False\<rparr>"

definition logger_libc_fork_child :: "domain \<Rightarrow> domain" where
  "logger_libc_fork_child d = d\<lparr>libc_prepared := False, entered := False\<rparr>"

section \<open>The fork handlers\<close>

definition logger_fork_fd_prepare :: "domain \<Rightarrow> domain" where
  "logger_fork_fd_prepare d0 =
     (let busy = (logger_scope_busy d0 \<or> in_global d0 \<or> logger_libc_busy d0);
          d1 = d0\<lparr>fork_depth := fork_depth d0 + 1\<rparr>
      in if fork_depth d0 \<noteq> 0 then d1
      else let d2 = d1\<lparr>prepared := False, prepare_error := 0, snapshot_fds := []\<rparr> in
        if logger_process_is_child d2 \<or> \<not> logger_process_ready d2 then d2\<lparr>prepare_error := ECHILD\<rparr>
        else if in_gate d2 \<or> busy then d2\<lparr>prepare_error := EDEADLK\<rparr>
        else if gate_error d2 \<noteq> 0 then d2\<lparr>prepare_error := gate_error d2\<rparr>
        else case logger_libc_fork_prepare d2 of (e, d3) \<Rightarrow>
          if e \<noteq> 0 then d3\<lparr>prepare_error := e\<rparr>
          else case pthread_call d3 of (e1, d4) \<Rightarrow>
            if e1 \<noteq> 0 then d4\<lparr>prepare_error := e1\<rparr>
            else let d5 = (waited d4)\<lparr>prepared := True, in_gate := True\<rparr>
                 in d5\<lparr>prepare_error := gate_error d5, snapshot_fds := owned_words d5\<rparr>)"

definition logger_fork_fd_parent :: "domain \<Rightarrow> domain" where
  "logger_fork_fd_parent d =
     (if 1 < fork_depth d then d\<lparr>fork_depth := fork_depth d - 1\<rparr>
      else let d1 = (if prepared d
             then case pthread_call d of (rc, d') \<Rightarrow>
               (if rc \<noteq> 0 then logger_fork_resource_poison rc d' else d')\<lparr>in_gate := False\<rparr>
             else d)
        in (logger_libc_fork_parent d1)\<lparr>prepared := False, fork_depth := 0\<rparr>)"

lemma and_minus_one_less: "b \<noteq> 0 \<Longrightarrow> b AND (b - 1) < (b :: 'a::len word)"
proof -
  assume "b \<noteq> 0"
  then have "b - 1 < b" by (metis measure_unat word_less_nat_alt)
  moreover have "b AND (b - 1) \<le> b - 1" by (rule word_and_le1)
  ultimately show ?thesis by simp
qed

text \<open>Close the descriptors of one bitmap word, lowest bit first; the first error is kept.\<close>

function close_bits :: "nat \<Rightarrow> u64 \<Rightarrow> domain \<Rightarrow> domain" where
  "close_bits word bits d =
     (if bits = 0 then d
      else case sys_close (int (word * 64 + ctz bits)) d of (r, d1) \<Rightarrow>
        close_bits word (bits AND (bits - 1))
          (case r of Inl e \<Rightarrow> (if child_error d1 = 0 then d1\<lparr>child_error := e\<rparr> else d1) | Inr _ \<Rightarrow> d1))"
  by pat_completeness auto
termination
  by (relation "measure (\<lambda>(word, bits, d). unat bits)") (auto simp: and_minus_one_less word_less_nat_alt [symmetric])

declare close_bits.simps [simp del]

fun close_words :: "nat \<Rightarrow> u64 list \<Rightarrow> domain \<Rightarrow> domain" where
  "close_words word [] d = d"
| "close_words word (bits # ws) d = close_words (Suc word) ws (close_bits word bits d)"

definition logger_fork_fd_child :: "domain \<Rightarrow> domain" where
  "logger_fork_fd_child d =
     (let valid = (prepared d \<and> prepare_error d = 0 \<and> fork_depth d = 1);
          d1 = d\<lparr>child_valid := valid, child_error := (if valid then 0 else if prepare_error d \<noteq> 0 then prepare_error d else ECHILD)\<rparr>;
          d2 = (if valid
                then (close_words 0 (snapshot_fds d1) d1)
                       \<lparr>child_bitmap := replicate (length (snapshot_fds d1)) 0,
                        snapshot_fds := replicate (length (snapshot_fds d1)) 0\<rparr>
                else d1)
      in logger_libc_fork_child (d2\<lparr>prepared := False, fork_depth := 0, in_gate := False, directory_lease := None\<rparr>))"

definition logger_fork_fd_child_reinit :: "domain \<Rightarrow> int \<times> domain" where
  "logger_fork_fd_child_reinit d =
     (if \<not> child_valid d then (- ECHILD, d)
      else if child_error d \<noteq> 0 then (- child_error d, d)
      else if child_bitmap d = [] then (0, d)
      else case syscall (\<lambda>k. (Inr (), k)) d of
        (Inl e, d1) \<Rightarrow> (- e, d1)
      | (Inr _, d1) \<Rightarrow> (0, d1\<lparr>child_bitmap := []\<rparr>))"

definition logger_fork_fd_child_error :: "domain \<Rightarrow> errno" where
  "logger_fork_fd_child_error d = child_error d"

definition logger_fork_fd_child_valid :: "domain \<Rightarrow> bool" where
  "logger_fork_fd_child_valid d = child_valid d"

section \<open>Descriptor owners\<close>

text \<open>
  An owner is the descriptor number, \<open>- 1\<close> when it owns nothing. The functions that take the
  owner's address return its new value.
\<close>

record logger_owned_fd =
  fd_value :: int

definition logger_fd_own :: "int \<Rightarrow> logger_owned_fd" where
  "logger_fd_own fd = \<lparr>fd_value = fd\<rparr>"

definition logger_fd_number :: "logger_owned_fd \<Rightarrow> int" where
  "logger_fd_number owner = fd_value owner"

definition logger_fd_valid :: "logger_owned_fd \<Rightarrow> bool" where
  "logger_fd_valid owner = (0 \<le> fd_value owner)"

definition logger_fd_take :: "logger_owned_fd \<Rightarrow> int \<times> logger_owned_fd" where
  "logger_fd_take owner = (fd_value owner, \<lparr>fd_value = - 1\<rparr>)"

definition logger_fd_move :: "logger_owned_fd \<Rightarrow> logger_owned_fd \<times> logger_owned_fd" where
  "logger_fd_move owner = (case logger_fd_take owner of (fd, spent) \<Rightarrow> (logger_fd_own fd, spent))"

definition logger_fd_close_status :: "logger_owned_fd \<Rightarrow> domain \<Rightarrow> int \<times> logger_owned_fd \<times> domain" where
  "logger_fd_close_status owner d =
     (case logger_fd_take owner of (fd, spent) \<Rightarrow>
        if fd < 0 then (0, spent, d)
        else case logger_fork_close fd d of
          (Inl e, d1) \<Rightarrow> (- e, spent, d1)
        | (Inr _, d1) \<Rightarrow> (0, spent, d1))"

definition logger_fd_cleanup :: "logger_owned_fd \<Rightarrow> domain \<Rightarrow> domain" where
  "logger_fd_cleanup owner d = snd (snd (logger_fd_close_status owner d))"

definition logger_fd_fdopendir :: "logger_owned_fd \<Rightarrow> domain \<Rightarrow> (errno + string list) \<times> logger_owned_fd \<times> domain" where
  "logger_fd_fdopendir owner d =
     (if \<not> logger_fd_valid owner then (Inl EBADF, owner, d)
      else case logger_fork_fdopendir (fd_value owner) d of
        (Inl e, d1) \<Rightarrow> (Inl e, owner, d1)
      | (Inr names, d1) \<Rightarrow> (Inr names, owner\<lparr>fd_value := - 1\<rparr>, d1))"

end
