(* ===== verification/Logger_File.thy ===== *)
theory Logger_File
  imports Logger_Format Logger_Fork_Fd
begin

text \<open>
  \<^verbatim>\<open>src/logger_file.c\<close>: the file backend. Binding a path to a directory descriptor and a lock
  file, opening, synchronising, reopening, rotation with collision-free archive names and
  retention, and the complete write loops with their accounting.

  A function that changes \<^verbatim>\<open>*f\<close> returns the new record, and every call threads the process domain
  with the kernel state; the structure pointer itself is never null here (it is the address of a
  member of the instance). The character arrays of the structure hold C strings and are strings
  here. \<^verbatim>\<open>fd\<close> variables with a cleanup attribute are closed explicitly on each way out.
\<close>

abbreviation LOGGER_PATH_MAX :: nat where "LOGGER_PATH_MAX \<equiv> 4096"
abbreviation LOGGER_FILENAME_MAX :: nat where "LOGGER_FILENAME_MAX \<equiv> 255"
abbreviation LOGGER_ARCHIVE_ATTEMPTS :: nat where "LOGGER_ARCHIVE_ATTEMPTS \<equiv> 1024"
abbreviation SSIZE_MAX :: size_t where "SSIZE_MAX \<equiv> 0x7FFFFFFFFFFFFFFF"
abbreviation INTMAX_MAX :: int where "INTMAX_MAX \<equiv> 0x7FFFFFFFFFFFFFFF"

abbreviation LOGGER_ROTATE_NONE :: int where "LOGGER_ROTATE_NONE \<equiv> 0"
abbreviation LOGGER_ROTATE_SIZE :: int where "LOGGER_ROTATE_SIZE \<equiv> 1"
abbreviation LOGGER_ROTATE_DAILY :: int where "LOGGER_ROTATE_DAILY \<equiv> 2"
abbreviation LOGGER_ROTATE_SIZE_DAILY :: int where "LOGGER_ROTATE_SIZE_DAILY \<equiv> 3"
abbreviation LOGGER_ROTATE_EXTERNAL :: int where "LOGGER_ROTATE_EXTERNAL \<equiv> 4"

section \<open>State\<close>

record logger_rotation_config_t =
  rot_mode :: int
  max_file_size :: size_t
  retention_days :: u32

record logger_file_metrics_t =
  write_operations :: u64
  failed_write_operations :: u64
  write_syscalls :: u64
  interrupted_write_syscalls :: u64
  failed_write_syscalls :: u64
  bytes_written :: u64
  data_sync_attempts :: u64
  data_sync_failures :: u64
  directory_sync_attempts :: u64
  directory_sync_failures :: u64
  rotation_attempts :: u64
  rotation_successes :: u64
  rotation_failures :: u64
  reopen_attempts :: u64
  reopen_successes :: u64
  reopen_failures :: u64
  retention_deletions :: u64
  fm_current_size :: u64
  fm_detached :: bool
  fm_last_error :: errno
  last_write_error :: errno
  last_sync_error :: errno
  last_rotation_error :: errno
  last_reopen_error :: errno

definition zero_file_metrics :: logger_file_metrics_t where
  "zero_file_metrics = \<lparr>write_operations = 0, failed_write_operations = 0, write_syscalls = 0,
     interrupted_write_syscalls = 0, failed_write_syscalls = 0, bytes_written = 0,
     data_sync_attempts = 0, data_sync_failures = 0, directory_sync_attempts = 0, directory_sync_failures = 0,
     rotation_attempts = 0, rotation_successes = 0, rotation_failures = 0,
     reopen_attempts = 0, reopen_successes = 0, reopen_failures = 0, retention_deletions = 0,
     fm_current_size = 0, fm_detached = False, fm_last_error = 0, last_write_error = 0,
     last_sync_error = 0, last_rotation_error = 0, last_reopen_error = 0\<rparr>"

record logger_file =
  f_path :: string
  f_name :: string
  f_lock_name :: string
  f_stem :: string
  f_ext :: string
  f_rotation :: logger_rotation_config_t
  f_mode :: u32
  f_fd :: logger_owned_fd
  f_dir_fd :: logger_owned_fd
  f_lock_fd :: logger_owned_fd
  f_managed :: bool
  f_detached :: bool
  f_switch_error :: errno
  f_current_size :: size_t
  f_current_day :: int
  f_dir_dirty :: bool
  f_device :: int
  f_inode :: nat
  f_archive_time :: timespec
  f_archive_time_valid :: bool
  f_iov_max :: int
  f_metrics :: logger_file_metrics_t

definition LOGGER_FILE_EMPTY :: logger_file where
  "LOGGER_FILE_EMPTY = \<lparr>f_path = [], f_name = [], f_lock_name = [], f_stem = [], f_ext = [],
     f_rotation = \<lparr>rot_mode = 0, max_file_size = 0, retention_days = 0\<rparr>, f_mode = 0,
     f_fd = \<lparr>fd_value = - 1\<rparr>, f_dir_fd = \<lparr>fd_value = - 1\<rparr>, f_lock_fd = \<lparr>fd_value = - 1\<rparr>,
     f_managed = False, f_detached = False, f_switch_error = 0, f_current_size = 0, f_current_day = 0,
     f_dir_dirty = False, f_device = 0, f_inode = 0, f_archive_time = \<lparr>tv_sec = 0, tv_nsec = 0\<rparr>,
     f_archive_time_valid = False, f_iov_max = 0, f_metrics = zero_file_metrics\<rparr>"

definition upd_metrics :: "(logger_file_metrics_t \<Rightarrow> logger_file_metrics_t) \<Rightarrow> logger_file \<Rightarrow> logger_file" where
  "upd_metrics g f = f\<lparr>f_metrics := g (f_metrics f)\<rparr>"

definition file_data_fd :: "logger_file \<Rightarrow> int" where
  "file_data_fd f = logger_fd_number (f_fd f)"

definition file_dir_fd :: "logger_file \<Rightarrow> int" where
  "file_dir_fd f = logger_fd_number (f_dir_fd f)"

definition file_lock_fd :: "logger_file \<Rightarrow> int" where
  "file_lock_fd f = logger_fd_number (f_lock_fd f)"

definition internal_rotation :: "logger_file \<Rightarrow> bool" where
  "internal_rotation f = (rot_mode (f_rotation f) = LOGGER_ROTATE_SIZE \<or>
     rot_mode (f_rotation f) = LOGGER_ROTATE_DAILY \<or> rot_mode (f_rotation f) = LOGGER_ROTATE_SIZE_DAILY)"

section \<open>Days and synchronisation\<close>

text \<open>The result code and, when it is 0, the day.\<close>

definition wall_day :: "int \<Rightarrow> domain \<Rightarrow> (int + int) \<times> domain" where
  "wall_day sec d =
     (case logger_libc_localtime_r sec d of
        (Inl e, d1) \<Rightarrow> (Inl (- errno_or e EOVERFLOW), d1)
      | (Inr t, d1) \<Rightarrow>
        if tm_year t < - 1900 \<or> 8099 < tm_year t then (Inl (- EOVERFLOW), d1)
        else (Inr ((tm_year t + 1900) * 10000 + (tm_mon t + 1) * 100 + tm_mday t), d1))"

text \<open>\<^verbatim>\<open>fsync\<close> repeated while it is interrupted.\<close>

function fsync_retry :: "int \<Rightarrow> domain \<Rightarrow> (errno + unit) \<times> domain" where
  "fsync_retry fd d =
     (case sys_fsync fd d of (r, d1) \<Rightarrow> if r = Inl EINTR then fsync_retry fd d1 else (r, d1))"
  by pat_completeness auto
termination
  by (relation "measure (\<lambda>(fd, d). length (k_calls d))") (auto dest: sys_fsync_interrupted [OF sym])

declare fsync_retry.simps [simp del]

definition sync_data :: "logger_file \<Rightarrow> int \<Rightarrow> domain \<Rightarrow> int \<times> logger_file \<times> domain" where
  "sync_data f fd d =
     (let f1 = upd_metrics (\<lambda>m. m\<lparr>data_sync_attempts := data_sync_attempts m + 1\<rparr>) f in
      case fsync_retry fd d of
        (Inl e, d1) \<Rightarrow> (let error = errno_or e EIO in
          (- error, upd_metrics (\<lambda>m. m\<lparr>data_sync_failures := data_sync_failures m + 1, last_sync_error := error\<rparr>) f1, d1))
      | (Inr _, d1) \<Rightarrow> (0, f1, d1))"

definition sync_directory :: "logger_file \<Rightarrow> domain \<Rightarrow> int \<times> logger_file \<times> domain" where
  "sync_directory f d =
     (let f1 = upd_metrics (\<lambda>m. m\<lparr>directory_sync_attempts := directory_sync_attempts m + 1\<rparr>) f in
      case fsync_retry (file_dir_fd f) d of
        (Inl e, d1) \<Rightarrow> (let error = errno_or e EIO in
          (- error, upd_metrics (\<lambda>m. m\<lparr>directory_sync_failures := directory_sync_failures m + 1, last_sync_error := error\<rparr>) f1, d1))
      | (Inr _, d1) \<Rightarrow> (0, f1\<lparr>f_dir_dirty := False\<rparr>, d1))"

section \<open>Closing\<close>

text \<open>The data, lock and directory owners in this order; the first error is kept.\<close>

definition logger_file_close_status :: "logger_file option \<Rightarrow> domain \<Rightarrow> int \<times> logger_file option \<times> domain" where
  "logger_file_close_status fp d =
     (case fp of
        None \<Rightarrow> (- EINVAL, None, d)
      | Some f \<Rightarrow>
        (case logger_fd_close_status (f_fd f) d of (rc1, o1, d1) \<Rightarrow>
         case logger_fd_close_status (f_lock_fd f) d1 of (rc2, o2, d2) \<Rightarrow>
         case logger_fd_close_status (f_dir_fd f) d2 of (rc3, o3, d3) \<Rightarrow>
           (first_rc rc1 (first_rc rc2 rc3), Some (f\<lparr>f_fd := o1, f_lock_fd := o2, f_dir_fd := o3\<rparr>), d3)))"

definition logger_file_close :: "logger_file \<Rightarrow> domain \<Rightarrow> logger_file \<times> domain" where
  "logger_file_close f d =
     (case logger_file_close_status (Some f) d of (_, fp, d1) \<Rightarrow> (case fp of Some f1 \<Rightarrow> f1 | None \<Rightarrow> f, d1))"

section \<open>Identity checks\<close>

definition same_file :: "file_stat \<Rightarrow> file_stat \<Rightarrow> bool" where
  "same_file a b = (st_dev a = st_dev b \<and> st_ino a = st_ino b)"

definition regular_single_link :: "file_stat \<Rightarrow> int" where
  "regular_single_link st =
     (if st_kind st \<noteq> Regular then - EINVAL
      else if st_nlink st \<noteq> 1 then - EMLINK
      else if st_size st < 0 \<or> 2 ^ 64 - 1 < st_size st then - EOVERFLOW
      else 0)"

definition lock_suffix :: string where
  "lock_suffix = ''.logger.lock''"

definition reserved_basename :: "string \<Rightarrow> bool" where
  "reserved_basename name =
     (length lock_suffix \<le> length name \<and> drop (length name - length lock_suffix) name = lock_suffix)"

definition check_named_fd :: "int \<Rightarrow> string \<Rightarrow> int \<Rightarrow> domain \<Rightarrow> (int + file_stat) \<times> domain" where
  "check_named_fd dirfd name fd d =
     (case sys_fstat fd d of
        (Inl e, d1) \<Rightarrow> (Inl (- e), d1)
      | (Inr st, d1) \<Rightarrow>
        (case sys_fstatat dirfd name d1 of
           (Inl e, d2) \<Rightarrow> (Inl (- e), d2)
         | (Inr named, d2) \<Rightarrow>
           if st_kind named = Symlink then (Inl (- ELOOP), d2)
           else if same_file st named then (Inr st, d2) else (Inl (- ESTALE), d2)))"

definition check_owner :: "logger_file \<Rightarrow> domain \<Rightarrow> int \<times> domain" where
  "check_owner f d =
     (if \<not> f_managed f then (0, d)
      else case check_named_fd (file_dir_fd f) (f_lock_name f) (file_lock_fd f) d of
        (Inl rc, d1) \<Rightarrow> (rc, d1)
      | (Inr st, d1) \<Rightarrow> (regular_single_link st, d1))"

section \<open>Binding a path\<close>

text \<open>\<open>base\<close> is the part after the last slash, \<open>dir\<close> the part before it.\<close>

definition split_path :: "string \<Rightarrow> string \<times> string" where
  "split_path path =
     (case after_last (CHR ''/'') path of
        None \<Rightarrow> (''.'', path)
      | Some base \<Rightarrow>
        (let dlen = length path - length base - 1 in (take (if dlen = 0 then 1 else dlen) path, base)))"

text \<open>\<open>stem\<close> and \<open>ext\<close>: the extension starts at the last dot that is not the first character.\<close>

definition split_ext :: "string \<Rightarrow> string \<times> string" where
  "split_ext base =
     (case after_last (CHR ''.'') base of
        None \<Rightarrow> (base, [])
      | Some e \<Rightarrow>
        (let stem = length base - length e - 1 in
         if stem = 0 then (base, []) else (take stem base, CHR ''.'' # e)))"

definition bind_path :: "logger_file \<Rightarrow> cptr \<Rightarrow> domain \<Rightarrow> int \<times> logger_file \<times> domain" where
  "bind_path f0 pathp d0 =
     (case pathp of
        None \<Rightarrow> (- EINVAL, f0, d0)
      | Some path \<Rightarrow>
        if path = [] then (- EINVAL, f0, d0)
        else if LOGGER_PATH_MAX \<le> length path then (- ENAMETOOLONG, f0, d0)
        else case split_path path of (dir, base) \<Rightarrow>
          let f1 = f0\<lparr>f_path := path\<rparr>; n = length base in
          if n = 0 \<or> base = ''.'' \<or> base = ''..'' then (- EINVAL, f1, d0)
          else if LOGGER_FILENAME_MAX < n then (- ENAMETOOLONG, f1, d0)
          else if reserved_basename base then (- EINVAL, f1, d0)
          else let f2 = f1\<lparr>f_name := base\<rparr> in
          case logger_fork_open dir d0 of
            (Inl e, d1) \<Rightarrow> (- e, f2\<lparr>f_dir_fd := logger_fd_own (- 1)\<rparr>, d1)
          | (Inr fd, d1) \<Rightarrow>
            let f3 = f2\<lparr>f_dir_fd := logger_fd_own fd\<rparr> in
            case sys_fpathconf (file_dir_fd f3) d1 of
              (Inl e, d2) \<Rightarrow> (- e, f3, d2)
            | (Inr reported, d2) \<Rightarrow>
              let maximum = (if reported < 0 \<or> int LOGGER_FILENAME_MAX < reported then LOGGER_FILENAME_MAX else nat reported) in
              if maximum < n then (- ENAMETOOLONG, f3, d2)
              else case sys_fstatat (file_dir_fd f3) (f_name f3) d2 of (r, d3) \<Rightarrow>
                case
                  (case r of
                     Inr st \<Rightarrow>
                       if st_kind st = Symlink then Inl (- ELOOP)
                       else if st_kind st = CharDevice \<and> rot_mode (f_rotation f3) = LOGGER_ROTATE_NONE then Inl 0
                       else if regular_single_link st \<noteq> 0 then Inl (regular_single_link st)
                       else Inr ()
                   | Inl e \<Rightarrow> if e \<noteq> ENOENT then Inl (- e) else Inr ())
                of
                  Inl rc \<Rightarrow> (rc, if rc = 0 then f3\<lparr>f_managed := False\<rparr> else f3, d3)
                | Inr _ \<Rightarrow>
                  let f4 = f3\<lparr>f_managed := True\<rparr> in
                  if maximum < n + length lock_suffix then (- ENAMETOOLONG, f4, d3)
                  else if internal_rotation f4 \<and> maximum < n + 24 then (- ENAMETOOLONG, f4, d3)
                  else case split_ext base of (stem, ext) \<Rightarrow>
                    (0, f4\<lparr>f_lock_name := f_name f4 @ lock_suffix, f_stem := stem,
                           f_ext := (if ext = [] then f_ext f4 else ext)\<rparr>, d3))"

section \<open>Reserving and opening\<close>

function flock_retry :: "int \<Rightarrow> domain \<Rightarrow> (errno + unit) \<times> domain" where
  "flock_retry fd d =
     (case sys_flock fd d of (r, d1) \<Rightarrow> if r = Inl EINTR then flock_retry fd d1 else (r, d1))"
  by pat_completeness auto
termination
  by (relation "measure (\<lambda>(fd, d). length (k_calls d))") (auto dest: sys_flock_interrupted [OF sym])

declare flock_retry.simps [simp del]

text \<open>The lock part of \<^verbatim>\<open>logger_file_reserve\<close>: open the lock file, check it, lock it, check it again.\<close>

definition reserve_lock :: "logger_file \<Rightarrow> domain \<Rightarrow> int \<times> logger_file \<times> domain" where
  "reserve_lock f d =
     (case logger_fork_openat (file_dir_fd f) (f_lock_name f) [O_RDWR, O_CREAT, O_CLOEXEC, O_NOFOLLOW, O_NONBLOCK] d of
        (Inl e, d1) \<Rightarrow> (- e, f\<lparr>f_lock_fd := logger_fd_own (- 1)\<rparr>, d1)
      | (Inr fd, d1) \<Rightarrow>
        let f1 = f\<lparr>f_lock_fd := logger_fd_own fd\<rparr> in
        case check_owner f1 d1 of (rc, d2) \<Rightarrow>
          if rc \<noteq> 0 then (rc, f1, d2)
          else case flock_retry (file_lock_fd f1) d2 of
            (Inl e, d3) \<Rightarrow> (if e = EAGAIN \<or> e = EWOULDBLOCK then - EBUSY else - e, f1, d3)
          | (Inr _, d3) \<Rightarrow> (case check_owner f1 d3 of (rc2, d4) \<Rightarrow> (rc2, f1, d4)))"

text \<open>0, or the \<^verbatim>\<open>errno\<close> beside \<open>- 1\<close>.\<close>

definition logger_file_reserve ::
  "cptr \<Rightarrow> logger_rotation_config_t \<Rightarrow> u32 \<Rightarrow> domain \<Rightarrow> errno \<times> logger_file \<times> domain" where
  "logger_file_reserve path rotation mode d =
     (if LOGGER_ROTATE_EXTERNAL < as_unsigned (rot_mode rotation) \<or> mode AND NOT 0x1FF \<noteq> 0
      then (EINVAL, LOGGER_FILE_EMPTY, d)
      else let f0 = LOGGER_FILE_EMPTY\<lparr>f_rotation := rotation, f_mode := (if mode \<noteq> 0 then mode else 0x1A0),
                      f_iov_max := (if 0 < k_iov_max d \<and> k_iov_max d \<le> 0x7FFFFFFF then k_iov_max d else 16)\<rparr> in
      case bind_path f0 path d of (rc, f1, d1) \<Rightarrow>
        case (if rc = 0 \<and> f_managed f1 then reserve_lock f1 d1 else (rc, f1, d1)) of (rc2, f2, d2) \<Rightarrow>
          if rc2 \<noteq> 0 then (case logger_file_close f2 d2 of (f3, d3) \<Rightarrow> (- rc2, f3, d3))
          else (0, f2, d2))"

text \<open>A verified candidate for the active file; \<open>f\<close> remembers that the directory may have changed.\<close>

definition open_candidate ::
  "logger_file \<Rightarrow> bool \<Rightarrow> domain \<Rightarrow> (int + logger_owned_fd \<times> file_stat) \<times> logger_file \<times> domain" where
  "open_candidate f exclusive d =
     (case check_owner f d of (rc, d1) \<Rightarrow>
        if rc \<noteq> 0 then (Inl rc, f, d1)
        else let flags = [O_WRONLY, O_APPEND, O_CLOEXEC, O_NOFOLLOW, O_NONBLOCK] @
                   (if f_managed f then [O_CREAT] else []) @ (if exclusive then [O_EXCL] else []) in
        case logger_fork_openat (file_dir_fd f) (f_name f) flags d1 of
          (Inl e, d2) \<Rightarrow> (Inl (- e), f, d2)
        | (Inr candidate, d2) \<Rightarrow>
          let fd = logger_fd_own candidate in
          case check_named_fd (file_dir_fd f) (f_name f) (logger_fd_number fd) d2 of
            (Inl rc1, d3) \<Rightarrow> (Inl rc1, f, logger_fd_cleanup fd d3)
          | (Inr st, d3) \<Rightarrow>
            let rc2 = (if f_managed f then regular_single_link st else if st_kind st = CharDevice then 0 else - EINVAL) in
            if rc2 \<noteq> 0 then (Inl rc2, f, logger_fd_cleanup fd d3)
            else (Inr (fd, st), if f_managed f then f\<lparr>f_dir_dirty := True\<rparr> else f, d3))"

definition install_fd :: "logger_file \<Rightarrow> logger_owned_fd \<Rightarrow> file_stat \<Rightarrow> int \<Rightarrow> logger_file" where
  "install_fd f fd st day = f\<lparr>f_fd := fst (logger_fd_move fd), f_device := st_dev st, f_inode := st_ino st,
     f_current_size := (if f_managed f then word_of_int (st_size st) else 0), f_current_day := day,
     f_detached := False, f_switch_error := 0\<rparr>"

definition logger_file_open_reserved :: "logger_file \<Rightarrow> domain \<Rightarrow> errno \<times> logger_file \<times> domain" where
  "logger_file_open_reserved f d =
     (if \<not> logger_fd_valid (f_dir_fd f) \<or> logger_fd_valid (f_fd f) then (EINVAL, f, d)
      else case sys_time d of (now, d1) \<Rightarrow>
        case wall_day now d1 of
          (Inl rc, d2) \<Rightarrow> (- rc, f, d2)
        | (Inr day, d2) \<Rightarrow>
          (case open_candidate f False d2 of
             (Inl rc, f1, d3) \<Rightarrow> (- rc, f1, d3)
           | (Inr (fd, st), f1, d3) \<Rightarrow> (0, install_fd f1 fd st day, d3)))"

definition logger_file_init ::
  "cptr \<Rightarrow> logger_rotation_config_t \<Rightarrow> u32 \<Rightarrow> domain \<Rightarrow> errno \<times> logger_file \<times> domain" where
  "logger_file_init path rotation mode d =
     (case logger_file_reserve path rotation mode d of (e, f, d1) \<Rightarrow>
        if e \<noteq> 0 then (e, f, d1)
        else case logger_file_open_reserved f d1 of (e2, f2, d2) \<Rightarrow>
          if e2 = 0 then (0, f2, d2)
          else case logger_file_close f2 d2 of (f3, d3) \<Rightarrow> (e2, f3, d3))"

section \<open>Synchronising and reopening\<close>

definition switch_rc :: "logger_file \<Rightarrow> int" where
  "switch_rc f = - errno_or (f_switch_error f) EIO"

definition logger_file_sync :: "logger_file \<Rightarrow> domain \<Rightarrow> int \<times> logger_file \<times> domain" where
  "logger_file_sync f d =
     (if \<not> logger_fd_valid (f_fd f) then (- EBADF, f, d)
      else case sync_data f (file_data_fd f) d of (rc, f1, d1) \<Rightarrow>
        case (if rc = 0 \<and> f_dir_dirty f1 then sync_directory f1 d1 else (rc, f1, d1)) of (rc2, f2, d2) \<Rightarrow>
          let rc3 = (if rc2 = 0 \<and> f_detached f2 then switch_rc f2 else rc2) in
          (rc3, upd_metrics (\<lambda>m. m\<lparr>fm_last_error := (if rc3 < 0 then - rc3 else 0)\<rparr>) f2, d2))"

text \<open>0, or the \<^verbatim>\<open>errno\<close> beside \<open>- 1\<close>.\<close>

definition file_reopen_impl :: "logger_file \<Rightarrow> domain \<Rightarrow> errno \<times> logger_file \<times> domain" where
  "file_reopen_impl f d =
     (case sys_time d of (now, d1) \<Rightarrow>
      case wall_day now d1 of
        (Inl rc, d2) \<Rightarrow> (- rc, f, d2)
      | (Inr day, d2) \<Rightarrow>
        (case open_candidate f False d2 of
           (Inl rc, f1, d3) \<Rightarrow> (- rc, f1, d3)
         | (Inr (candidate, st), f1, d3) \<Rightarrow>
           (case (if f_managed f1 then sync_data f1 (file_data_fd f1) d3 else (0, f1, d3)) of (rc, f2, d4) \<Rightarrow>
            case (if rc = 0 \<and> f_dir_dirty f2 then sync_directory f2 d4 else (rc, f2, d4)) of (rc2, f3, d5) \<Rightarrow>
              if rc2 \<noteq> 0 then (- rc2, f3, logger_fd_cleanup candidate d5)
              else case logger_fd_move (f_fd f3) of (retiring, spent) \<Rightarrow>
                case logger_fd_close_status retiring d5 of (close_rc, _, d6) \<Rightarrow>
                  (if close_rc \<noteq> 0 then - close_rc else 0, install_fd (f3\<lparr>f_fd := spent\<rparr>) candidate st day, d6))))"

definition logger_file_reopen :: "logger_file \<Rightarrow> domain \<Rightarrow> errno \<times> logger_file \<times> domain" where
  "logger_file_reopen f d =
     (if \<not> logger_fd_valid (f_fd f) then (EBADF, f, d)
      else case file_reopen_impl (upd_metrics (\<lambda>m. m\<lparr>reopen_attempts := reopen_attempts m + 1\<rparr>) f) d of (e, f1, d1) \<Rightarrow>
        if e \<noteq> 0
        then (e, upd_metrics (\<lambda>m. m\<lparr>reopen_failures := reopen_failures m + 1, last_reopen_error := e, fm_last_error := e\<rparr>) f1, d1)
        else (0, upd_metrics (\<lambda>m. m\<lparr>reopen_successes := reopen_successes m + 1, fm_last_error := 0\<rparr>) f1, d1))"

end
