(* ===== verification/Logger_Rotate.thy ===== *)
theory Logger_Rotate
  imports Logger_File
begin

text \<open>
  The second half of \<^verbatim>\<open>src/logger_file.c\<close>: archive names, rotation, retention, and the write
  operations. \<^verbatim>\<open>difftime\<close> of two times is their difference. The hooks of \<^verbatim>\<open>logger_fault.h\<close> do nothing
  in a production build, which is what is modelled.
\<close>

section \<open>Archive names\<close>

definition check_active :: "logger_file \<Rightarrow> domain \<Rightarrow> int \<times> domain" where
  "check_active f d =
     (case check_owner f d of (rc, d1) \<Rightarrow>
        if rc \<noteq> 0 then (rc, d1)
        else case check_named_fd (file_dir_fd f) (f_name f) (file_data_fd f) d1 of
          (Inl rc1, d2) \<Rightarrow> (rc1, d2)
        | (Inr st, d2) \<Rightarrow>
          (if st_dev st \<noteq> f_device f \<or> st_ino st \<noteq> f_inode f then - ESTALE else regular_single_link st, d2))"

definition timestamp_valid :: "timespec \<Rightarrow> domain \<Rightarrow> bool \<times> domain" where
  "timestamp_valid t d =
     (if \<not> (0 \<le> tv_nsec t \<and> tv_nsec t < 1000000000) then (False, d)
      else case logger_libc_gmtime_r (tv_sec t) d of
        (Inl _, d1) \<Rightarrow> (False, d1)
      | (Inr tm, d1) \<Rightarrow> (- 1900 \<le> tm_year tm \<and> tm_year tm \<le> 8099, d1))"

text \<open>\<^verbatim>\<open>time_t\<close> has 64 bits. The code, and the advanced time when it is 0.\<close>

definition advance_microsecond :: "timespec \<Rightarrow> domain \<Rightarrow> int \<times> timespec \<times> domain" where
  "advance_microsecond t d =
     (if \<not> tv_nsec t < 999999000 \<and> tv_sec t = INTMAX_MAX then (- EOVERFLOW, t, d)
      else let t1 = (if tv_nsec t < 999999000 then t\<lparr>tv_nsec := tv_nsec t + 1000\<rparr>
                     else \<lparr>tv_sec = tv_sec t + 1, tv_nsec = 0\<rparr>) in
        case timestamp_valid t1 d of (valid, d1) \<Rightarrow> (if valid then 0 else - EOVERFLOW, t1, d1))"

text \<open>\<^verbatim>\<open>strftime\<close> of \<^verbatim>\<open>%Y%m%dT%H%M%S\<close>.\<close>

definition stamp_text :: "tm \<Rightarrow> string" where
  "stamp_text tm = dec_int (tm_year tm + 1900) @ zero_padded 2 (tm_mon tm + 1) @ zero_padded 2 (tm_mday tm) @
     ''T'' @ zero_padded 2 (tm_hour tm) @ zero_padded 2 (tm_min tm) @ zero_padded 2 (tm_sec tm)"

definition archive_text :: "logger_file \<Rightarrow> string \<Rightarrow> int \<Rightarrow> string" where
  "archive_text f stamp nsec = f_stem f @ ''.'' @ stamp @ ''.'' @ zero_padded 6 (c_div nsec 1000) @ ''Z'' @ f_ext f"

definition archive_name :: "logger_file \<Rightarrow> timespec \<Rightarrow> nat \<Rightarrow> domain \<Rightarrow> (int + string) \<times> domain" where
  "archive_name f t cap d =
     (case timestamp_valid t d of (valid, d1) \<Rightarrow>
        if \<not> valid then (Inl (- EOVERFLOW), d1)
        else case logger_libc_gmtime_r (tv_sec t) d1 of
          (Inl _, d2) \<Rightarrow> (Inl (- EOVERFLOW), d2)
        | (Inr tm, d2) \<Rightarrow>
          (case logger_libc_strftime 32 (stamp_text tm) d2 of (stamp, d3) \<Rightarrow>
             if length stamp \<noteq> 15 then (Inl (- EOVERFLOW), d3)
             else case logger_libc_snprintf (archive_text f stamp (tv_nsec t)) d3 of
               (Inl e, d4) \<Rightarrow> (Inl (- errno_or e EILSEQ), d4)
             | (Inr out, d4) \<Rightarrow> (if cap \<le> length out then Inl (- ENAMETOOLONG) else Inr out, d4)))"

definition archive_char :: "nat \<Rightarrow> char \<Rightarrow> bool" where
  "archive_char i c = (if i = 8 then c = CHR ''T'' else if i = 15 then c = CHR ''.''
     else if i = 22 then c = CHR ''Z'' else dec_digit c)"

definition archive_matches :: "logger_file \<Rightarrow> string \<Rightarrow> bool" where
  "archive_matches f name =
     (let stem = length (f_stem f); ext = length (f_ext f) in
      length name = stem + 24 + ext \<and> take stem name = f_stem f \<and> name ! stem = CHR ''.'' \<and>
      (let p = drop (stem + 1) name in
       list_all (\<lambda>i. archive_char i (p ! i)) [0..<23] \<and> take ext (drop 23 p) = f_ext f))"

section \<open>Retention\<close>

text \<open>
  The loop over the directory stream, \<open>changed\<close> telling whether a file was removed. \<^verbatim>\<open>readdir\<close> may
  fail like any call.
\<close>

fun retention_loop :: "logger_file \<Rightarrow> int \<Rightarrow> int \<Rightarrow> string list \<Rightarrow> bool \<Rightarrow> domain \<Rightarrow> int \<times> bool \<times> logger_file \<times> domain" where
  "retention_loop f now seconds names changed d =
     (case syscall (\<lambda>k. (Inr (), k)) d of
        (Inl e, d1) \<Rightarrow> (- e, changed, f, d1)
      | (Inr _, d1) \<Rightarrow>
        (case names of
           [] \<Rightarrow> (0, changed, f, d1)
         | name # rest \<Rightarrow>
           if \<not> archive_matches f name then retention_loop f now seconds rest changed d1
           else case sys_fstatat (file_dir_fd f) name d1 of
             (Inl e, d2) \<Rightarrow> (- e, changed, f, d2)
           | (Inr st, d2) \<Rightarrow>
             if st_kind st \<noteq> Regular \<or> st_nlink st \<noteq> 1 \<or> (st_dev st = f_device f \<and> st_ino st = f_inode f)
             then retention_loop f now seconds rest changed d2
             else if now - st_mtime st \<le> seconds then retention_loop f now seconds rest changed d2
             else case sys_unlinkat (file_dir_fd f) name d2 of
               (Inl e, d3) \<Rightarrow> (- e, changed, f, d3)
             | (Inr _, d3) \<Rightarrow>
               retention_loop (upd_metrics (\<lambda>m. m\<lparr>retention_deletions := retention_deletions m + 1\<rparr>) f)
                 now seconds rest True d3))"

declare retention_loop.simps [simp del]

definition retention :: "logger_file \<Rightarrow> int \<Rightarrow> domain \<Rightarrow> int \<times> logger_file \<times> domain" where
  "retention f now d =
     (if retention_days (f_rotation f) = 0 then (0, f, d)
      else case logger_fork_openat (file_dir_fd f) ''.'' [O_RDONLY, O_DIRECTORY, O_CLOEXEC] d of
        (Inl e, d1) \<Rightarrow> (- e, f, d1)
      | (Inr dirfd, d1) \<Rightarrow>
        (case logger_fd_fdopendir (logger_fd_own dirfd) d1 of
           (Inl e, fd, d2) \<Rightarrow> (- e, f, logger_fd_cleanup fd d2)
         | (Inr names, fd, d2) \<Rightarrow>
           (case retention_loop f now (int (unat (retention_days (f_rotation f))) * 86400) names False d2 of
              (rc, changed, f1, d3) \<Rightarrow>
              (case logger_fork_closedir dirfd d3 of (closed, d4) \<Rightarrow>
                 let rc1 = (case closed of Inl e \<Rightarrow> if rc = 0 then - e else rc | Inr _ \<Rightarrow> rc) in
                 if changed
                 then case sync_directory (f1\<lparr>f_dir_dirty := True\<rparr>) d4 of (synced, f2, d5) \<Rightarrow>
                   (first_rc rc1 synced, f2, logger_fd_cleanup fd d5)
                 else (rc1, f1, logger_fd_cleanup fd d4)))))"

section \<open>Rotation\<close>

definition logger_file_rename_noreplace :: "int \<Rightarrow> string \<Rightarrow> string \<Rightarrow> domain \<Rightarrow> (errno + unit) \<times> domain" where
  "logger_file_rename_noreplace dirfd from to d =
     (case sys_renameat2_noreplace dirfd from to d of
        (Inl e, d1) \<Rightarrow> (Inl (if e = ENOSYS \<or> e = EINVAL \<or> e = ENOTSUP then ENOTSUP else e), d1)
      | (Inr u, d1) \<Rightarrow> (Inr u, d1))"

text \<open>Try archive names, a microsecond apart, until one is free.\<close>

fun archive_loop :: "nat \<Rightarrow> logger_file \<Rightarrow> timespec \<Rightarrow> domain \<Rightarrow> int \<times> timespec \<times> domain" where
  "archive_loop 0 f t d = (- EEXIST, t, d)"
| "archive_loop (Suc attempts) f t d =
     (case archive_name f t (LOGGER_FILENAME_MAX + 1) d of
        (Inl rc, d1) \<Rightarrow> (rc, t, d1)
      | (Inr name, d1) \<Rightarrow>
        (case logger_file_rename_noreplace (file_dir_fd f) (f_name f) name d1 of
           (Inr _, d2) \<Rightarrow> (0, t, d2)
         | (Inl error, d2) \<Rightarrow>
           if error \<noteq> EEXIST then (- error, t, d2)
           else case advance_microsecond t d2 of (rc, t1, d3) \<Rightarrow>
             if rc \<noteq> 0 then (rc, t1, d3) else archive_loop attempts f t1 d3))"

text \<open>The time of the next archive: the clock, or just after the previous archive.\<close>

definition archive_start :: "logger_file \<Rightarrow> domain \<Rightarrow> (int + timespec) \<times> domain" where
  "archive_start f d =
     (case sys_realtime d of
        (Inl e, d1) \<Rightarrow> (Inl (- e), d1)
      | (Inr t0, d1) \<Rightarrow>
        (case timestamp_valid t0 d1 of (valid, d2) \<Rightarrow>
           if \<not> valid then (Inl (- EOVERFLOW), d2)
           else let t = t0\<lparr>tv_nsec := tv_nsec t0 - tv_nsec t0 mod 1000\<rparr>; last = f_archive_time f in
             if f_archive_time_valid f \<and> (tv_sec t < tv_sec last \<or> (tv_sec t = tv_sec last \<and> tv_nsec t \<le> tv_nsec last))
             then case advance_microsecond last d2 of (rc, t1, d3) \<Rightarrow> (if rc \<noteq> 0 then Inl rc else Inr t1, d3)
             else (Inr t, d2)))"

text \<open>After the rename: publish a new active file, or stay detached with the reason.\<close>

definition open_next :: "logger_file \<Rightarrow> timespec \<Rightarrow> domain \<Rightarrow>
    (int + logger_owned_fd \<times> file_stat \<times> int) \<times> logger_file \<times> domain" where
  "open_next f t d =
     (case sync_directory f d of (rc, f1, d1) \<Rightarrow>
        if rc \<noteq> 0 then (Inl rc, f1, d1)
        else case wall_day (tv_sec t) d1 of
          (Inl rc1, d2) \<Rightarrow> (Inl rc1, f1, d2)
        | (Inr day, d2) \<Rightarrow>
          (case open_candidate f1 True d2 of
             (Inl rc2, f2, d3) \<Rightarrow> (Inl rc2, f2, d3)
           | (Inr (candidate, st), f2, d3) \<Rightarrow>
             (case sync_data f2 (logger_fd_number candidate) d3 of (rc3, f3, d4) \<Rightarrow>
              case (if rc3 = 0 then sync_directory f3 d4 else (rc3, f3, d4)) of (rc4, f4, d5) \<Rightarrow>
                if rc4 \<noteq> 0
                then (case logger_fd_close_status candidate d5 of (_, _, d6) \<Rightarrow> (Inl rc4, f4, d6))
                else (Inr (candidate, st, day), f4, d5))))"

definition rotate_impl :: "logger_file \<Rightarrow> domain \<Rightarrow> int \<times> logger_file \<times> domain" where
  "rotate_impl f d =
     (case check_active f d of (rc, d1) \<Rightarrow>
        if rc \<noteq> 0 then (rc, f, d1)
        else case archive_start f d1 of
          (Inl rc1, d2) \<Rightarrow> (rc1, f, d2)
        | (Inr t0, d2) \<Rightarrow>
          (case logger_file_sync f d2 of (rc2, f1, d3) \<Rightarrow>
             if rc2 \<noteq> 0 then (rc2, f1, d3)
             else case archive_loop LOGGER_ARCHIVE_ATTEMPTS f1 t0 d3 of (rc3, t, d4) \<Rightarrow>
               if rc3 \<noteq> 0 then (rc3, f1, d4)
               else let f2 = f1\<lparr>f_detached := True, f_switch_error := EIO, f_dir_dirty := True,
                                f_archive_time := t, f_archive_time_valid := True\<rparr> in
                 case open_next f2 t d4 of
                   (Inl rc4, f3, d5) \<Rightarrow> (rc4, f3\<lparr>f_switch_error := - rc4\<rparr>, d5)
                 | (Inr (candidate, st, day), f3, d5) \<Rightarrow>
                   (case logger_fd_move (f_fd f3) of (retiring, spent) \<Rightarrow>
                    case logger_fd_close_status retiring d5 of (close_rc, _, d6) \<Rightarrow>
                      let f4 = install_fd (f3\<lparr>f_fd := spent\<rparr>) candidate st day in
                      if close_rc \<noteq> 0 then (close_rc, f4, d6) else retention f4 (tv_sec t) d6)))"

definition rotate_file :: "logger_file \<Rightarrow> domain \<Rightarrow> int \<times> logger_file \<times> domain" where
  "rotate_file f d =
     (case rotate_impl (upd_metrics (\<lambda>m. m\<lparr>rotation_attempts := rotation_attempts m + 1\<rparr>) f) d of (rc, f1, d1) \<Rightarrow>
        if rc \<noteq> 0
        then (rc, upd_metrics (\<lambda>m. m\<lparr>rotation_failures := rotation_failures m + 1,
                    last_rotation_error := - rc, fm_last_error := - rc\<rparr>) f1, d1)
        else (0, upd_metrics (\<lambda>m. m\<lparr>rotation_successes := rotation_successes m + 1, fm_last_error := 0\<rparr>) f1, d1))"

section \<open>Writing\<close>

definition size_due :: "logger_file \<Rightarrow> size_t \<Rightarrow> bool" where
  "size_due f n =
     (if (rot_mode (f_rotation f) = LOGGER_ROTATE_SIZE \<or> rot_mode (f_rotation f) = LOGGER_ROTATE_SIZE_DAILY) \<and>
         max_file_size (f_rotation f) \<noteq> 0 \<and> f_current_size f \<noteq> 0
      then let max = max_file_size (f_rotation f) in max \<le> f_current_size f \<or> max - f_current_size f < n
      else False)"

definition prepare_write :: "logger_file \<Rightarrow> size_t \<Rightarrow> timespec option \<Rightarrow> domain \<Rightarrow> int \<times> logger_file \<times> domain" where
  "prepare_write f n tp d =
     (if \<not> logger_fd_valid (f_fd f) then (- EBADF, f, d)
      else case tp of
        None \<Rightarrow> (- EINVAL, f, d)
      | Some t \<Rightarrow>
        if tv_nsec t < 0 \<or> 1000000000 \<le> tv_nsec t \<or> SSIZE_MAX < n then (- EINVAL, f, d)
        else if f_detached f then (switch_rc f, f, d)
        else if \<not> internal_rotation f \<or> n = 0 then (0, f, d)
        else case
          (if rot_mode (f_rotation f) = LOGGER_ROTATE_DAILY \<or> rot_mode (f_rotation f) = LOGGER_ROTATE_SIZE_DAILY
           then case wall_day (tv_sec t) d of
             (Inl rc, d1) \<Rightarrow> (Inl rc, d1)
           | (Inr day, d1) \<Rightarrow> (Inr (day \<noteq> f_current_day f \<and> f_current_size f \<noteq> 0), d1)
           else (Inr False, d))
        of (Inl rc, d1) \<Rightarrow> (rc, f, d1)
         | (Inr day, d1) \<Rightarrow> if size_due f n \<or> day then rotate_file f d1 else (0, f, d1))"

text \<open>
  \<^verbatim>\<open>all\<close>: the write loop. It returns the code and the number of bytes written; each round writes at
  least a byte, uses up the schedule, or ends the loop.
\<close>

function write_all :: "logger_file \<Rightarrow> int \<Rightarrow> string \<Rightarrow> nat \<Rightarrow> domain \<Rightarrow> int \<times> nat \<times> logger_file \<times> domain" where
  "write_all f fd p written d =
     (if p = [] then (0, written, f, d)
      else let f1 = upd_metrics (\<lambda>m. m\<lparr>write_syscalls := write_syscalls m + 1\<rparr>) f in
        case sys_write fd p d of
          (Inl e, d1) \<Rightarrow>
            if e = EINTR
            then write_all (upd_metrics (\<lambda>m. m\<lparr>interrupted_write_syscalls := interrupted_write_syscalls m + 1\<rparr>) f1) fd p written d1
            else (- errno_or e EIO, written, upd_metrics (\<lambda>m. m\<lparr>failed_write_syscalls := failed_write_syscalls m + 1\<rparr>) f1, d1)
        | (Inr rc, d1) \<Rightarrow>
            if rc = 0 then (- EIO, written, upd_metrics (\<lambda>m. m\<lparr>failed_write_syscalls := failed_write_syscalls m + 1\<rparr>) f1, d1)
            else write_all f1 fd (drop rc p) (written + rc) d1)"
  by pat_completeness auto
termination
proof (relation "measure (\<lambda>(f, fd, p, written, d). length p + length (k_calls d))", goal_cases)
  case (2 f fd p written d f1 x d1 e)
  then show ?case using sys_write_progress [of fd p d "Inl EINTR" d1] by auto
next
  case (3 f fd p written d f1 x d1 rc)
  then show ?case using sys_write_progress [of fd p d "Inr rc" d1] by (cases p) auto
qed simp

declare write_all.simps [simp del]

text \<open>The vector after \<open>left\<close> bytes of it were written: finished entries go, a begun one shrinks.\<close>

fun iov_advance :: "nat \<Rightarrow> string list \<Rightarrow> string list" where
  "iov_advance left [] = []"
| "iov_advance left (v # vs) = (if length v \<le> left then iov_advance (left - length v) vs else drop left v # vs)"

lemma concat_iov_advance: "n \<le> length (concat vs) \<Longrightarrow> concat (iov_advance n vs) = drop n (concat vs)"
  by (induction n vs rule: iov_advance.induct) auto

lemma length_iov_advance: "length (iov_advance n vs) \<le> length vs"
  by (induction n vs rule: iov_advance.induct) (auto intro: le_SucI)

text \<open>
  \<^verbatim>\<open>vall\<close>: the vector write loop over the entries still to write, at most \<^verbatim>\<open>iov_max\<close> a call. The
  vector call appends the concatenation of its entries.
\<close>

function write_vall :: "logger_file \<Rightarrow> string list \<Rightarrow> nat \<Rightarrow> domain \<Rightarrow> int \<times> nat \<times> logger_file \<times> domain" where
  "write_vall f [] written d = (0, written, f, d)"
| "write_vall f (v # vs) written d =
     (if v = [] then write_vall f vs written d
      else let f1 = upd_metrics (\<lambda>m. m\<lparr>write_syscalls := write_syscalls m + 1\<rparr>) f;
               p = concat (take (nat (f_iov_max f)) (v # vs)) in
        case sys_write (file_data_fd f) p d of
          (Inl e, d1) \<Rightarrow>
            if e = EINTR
            then write_vall (upd_metrics (\<lambda>m. m\<lparr>interrupted_write_syscalls := interrupted_write_syscalls m + 1\<rparr>) f1) (v # vs) written d1
            else (- errno_or e EIO, written, upd_metrics (\<lambda>m. m\<lparr>failed_write_syscalls := failed_write_syscalls m + 1\<rparr>) f1, d1)
        | (Inr rc, d1) \<Rightarrow>
            if rc = 0 then (- EIO, written, upd_metrics (\<lambda>m. m\<lparr>failed_write_syscalls := failed_write_syscalls m + 1\<rparr>) f1, d1)
            else write_vall f1 (iov_advance rc (v # vs)) (written + rc) d1)"
  by pat_completeness auto
termination
proof (relation "measure (\<lambda>(f, vs, written, d). length (concat vs) + length vs + length (k_calls d))", goal_cases)
  case (3 f v vs written d f1 p x d1 e)
  then show ?case using sys_write_progress [of "file_data_fd f" p d "Inl EINTR" d1] by auto
next
  case (4 f v vs written d f1 p x d1 rc)
  have len: "length p \<le> length (concat (v # vs))"
  proof -
    have "concat (v # vs) = p @ concat (drop (nat (f_iov_max f)) (v # vs))"
      unfolding 4 concat_append [symmetric] append_take_drop_id ..
    then show ?thesis by simp
  qed
  have rc: "rc \<le> length p" "length (k_calls d1) \<le> length (k_calls d)"
    using 4 sys_write_progress [of "file_data_fd f" p d "Inr rc" d1] by auto
  then have "length (concat (iov_advance rc (v # vs))) + rc = length (concat (v # vs))"
    using len by (simp only: concat_iov_advance length_drop)
  then show ?case using 4 rc length_iov_advance [of rc "v # vs"] by auto
qed auto

declare write_vall.simps(2) [simp del]

definition account :: "logger_file \<Rightarrow> nat \<Rightarrow> logger_file" where
  "account f written = upd_metrics (\<lambda>m. m\<lparr>bytes_written := sat_add (bytes_written m) (of_nat written)\<rparr>)
     (f\<lparr>f_current_size := sat_add (f_current_size f) (of_nat written)\<rparr>)"

text \<open>The end of both write operations: account, synchronise on request, record the result.\<close>

definition finish_write :: "int \<Rightarrow> nat \<Rightarrow> bool \<Rightarrow> logger_file \<Rightarrow> domain \<Rightarrow> int \<times> logger_file \<times> domain" where
  "finish_write rc written sync f d =
     (let f1 = account f written in
      case (if rc = 0 \<and> sync then logger_file_sync f1 d else (rc, f1, d)) of (rc2, f2, d2) \<Rightarrow>
        if rc2 \<noteq> 0
        then (rc2, upd_metrics (\<lambda>m. m\<lparr>failed_write_operations := failed_write_operations m + 1,
                     last_write_error := - rc2, fm_last_error := - rc2\<rparr>) f2, d2)
        else (0, upd_metrics (\<lambda>m. m\<lparr>fm_last_error := 0\<rparr>) f2, d2))"

definition logger_file_write ::
  "logger_file \<Rightarrow> cptr \<Rightarrow> size_t \<Rightarrow> timespec option \<Rightarrow> bool \<Rightarrow> domain \<Rightarrow> int \<times> logger_file \<times> domain" where
  "logger_file_write f p n t sync d =
     (if p = None \<and> n \<noteq> 0 then (- EINVAL, f, d)
      else case prepare_write (upd_metrics (\<lambda>m. m\<lparr>write_operations := write_operations m + 1\<rparr>) f) n t d of (rc, f1, d1) \<Rightarrow>
        case (if rc = 0 then write_all f1 (file_data_fd f1) (take (unat n) (case p of Some s \<Rightarrow> s | None \<Rightarrow> [])) 0 d1
              else (rc, 0, f1, d1)) of (rc2, written, f2, d2) \<Rightarrow>
          finish_write rc2 written sync f2 d2)"

text \<open>The vector's entries have non-null bases. The sum of the entry lengths, unless it exceeds \<^verbatim>\<open>SSIZE_MAX\<close>.\<close>

fun iov_total :: "nat \<Rightarrow> string list \<Rightarrow> nat option" where
  "iov_total acc [] = Some acc"
| "iov_total acc (v # vs) =
     (if unat SSIZE_MAX - acc < length v then None else iov_total (acc + length v) vs)"

definition logger_file_writev ::
  "logger_file \<Rightarrow> string list \<Rightarrow> size_t \<Rightarrow> timespec option \<Rightarrow> bool \<Rightarrow> domain \<Rightarrow> int \<times> logger_file \<times> domain" where
  "logger_file_writev f v n t sync d =
     (if iov_total 0 v \<noteq> Some (unat n) then (- EINVAL, f, d)
      else case prepare_write (upd_metrics (\<lambda>m. m\<lparr>write_operations := write_operations m + 1\<rparr>) f) n t d of (rc, f1, d1) \<Rightarrow>
        case (if rc = 0 then write_vall f1 v 0 d1 else (rc, 0, f1, d1)) of (rc2, written, f2, d2) \<Rightarrow>
          finish_write rc2 written sync f2 d2)"

end
