(* ===== verification/Logger_Frame.thy ===== *)
theory Logger_Frame
  imports Logger_Rotate
begin

text \<open>
  What an operation leaves alone. \<open>files_of\<close> is the directory with its inodes, \<open>k_table\<close> the
  descriptor table. The lemmas are rewrite rules on the state an operation returns, so the proofs of
  the later theories only meet the few calls that change something.
\<close>

definition files_of :: "'a kernel_scheme \<Rightarrow> (string \<times> nat) list \<times> inode list" where
  "files_of k = (k_dir k, k_inodes k)"

lemma files_of_updates [simp]:
  "files_of (k\<lparr>k_calls := a\<rparr>) = files_of k" "files_of (k\<lparr>k_locks := b\<rparr>) = files_of k"
  "files_of (k\<lparr>k_table := c\<rparr>) = files_of k" "files_of (k\<lparr>k_flocks := e\<rparr>) = files_of k"
  "files_of (k\<lparr>k_tick := g\<rparr>) = files_of k" "files_of (k\<lparr>k_stderr := h\<rparr>) = files_of k"
  "files_of (k\<lparr>k_sent := s\<rparr>) = files_of k" "files_of (k\<lparr>k_sig_blocked := b1\<rparr>) = files_of k"
  "files_of (k\<lparr>k_sig_pending := b2\<rparr>) = files_of k" "files_of (k\<lparr>k_sig_raised := n\<rparr>) = files_of k"
  by (simp_all add: files_of_def)

lemma files_of_domain [simp]:
  "files_of (d\<lparr>current := x1\<rparr>) = files_of d" "files_of (d\<lparr>in_gate := x2\<rparr>) = files_of d"
  "files_of (d\<lparr>poisons := x3\<rparr>) = files_of d" "files_of (d\<lparr>entered := x4\<rparr>) = files_of d"
  "files_of (d\<lparr>directory_lease := x5\<rparr>) = files_of d"
  by (simp_all add: files_of_def)

lemmas frame_splits = sum.splits option.splits list.splits outcome.splits fd_object.splits if_splits

lemma next_call_frame [simp]:
  "files_of (snd (next_call k)) = files_of k" "k_table (snd (next_call k)) = k_table k"
  by (simp_all add: next_call_def split: list.splits)

lemma syscall_frame:
  assumes "\<And>k. files_of (snd (op k)) = files_of k"
  shows "files_of (snd (syscall op k)) = files_of k"
  using assms by (simp add: syscall_def case_prod_beta split: outcome.splits)

lemma syscall_frame_table:
  assumes "\<And>k. k_table (snd (op k)) = k_table k"
  shows "k_table (snd (syscall op k)) = k_table k"
  using assms by (simp add: syscall_def case_prod_beta split: outcome.splits)

lemma syscall_pure [simp]:
  "files_of (snd (syscall (\<lambda>k. (r, k)) k)) = files_of k" "k_table (snd (syscall (\<lambda>k. (r, k)) k)) = k_table k"
  by (rule syscall_frame syscall_frame_table; simp)+

lemma query_frame [simp]:
  "files_of (snd (sys_fstat fd k)) = files_of k" "k_table (snd (sys_fstat fd k)) = k_table k"
  "files_of (snd (sys_fstatat fd name k)) = files_of k" "k_table (snd (sys_fstatat fd name k)) = k_table k"
  "files_of (snd (sys_fpathconf fd k)) = files_of k" "k_table (snd (sys_fpathconf fd k)) = k_table k"
  "files_of (snd (sys_fsync fd k)) = files_of k" "k_table (snd (sys_fsync fd k)) = k_table k"
  "files_of (snd (sys_flock fd k)) = files_of k" "k_table (snd (sys_flock fd k)) = k_table k"
  "files_of (snd (sys_realtime k)) = files_of k" "k_table (snd (sys_realtime k)) = k_table k"
  "files_of (snd (sys_monotonic k)) = files_of k" "k_table (snd (sys_monotonic k)) = k_table k"
  "files_of (snd (sys_time k)) = files_of k" "k_table (snd (sys_time k)) = k_table k"
  unfolding sys_fstat_def sys_fstatat_def sys_fpathconf_def sys_fsync_def sys_flock_def sys_realtime_def
    sys_monotonic_def sys_time_def tick_def
  by (rule syscall_frame syscall_frame_table; simp split: frame_splits | simp)+

lemma gate_frame [simp]:
  "files_of (snd (pthread_call k)) = files_of k" "k_table (snd (pthread_call k)) = k_table k"
  "files_of (update_runtime g d) = files_of d" "k_table (update_runtime g d) = k_table d"
  "files_of (logger_fork_resource_poison e d) = files_of d" "k_table (logger_fork_resource_poison e d) = k_table d"
  "files_of (waited d) = files_of d" "k_table (waited d) = k_table d"
  by (simp_all add: pthread_call_def update_runtime_def logger_fork_resource_poison_def waited_def Let_def split: list.splits)

lemma enter_leave_frame [simp]:
  "files_of (snd (logger_fork_resource_enter d)) = files_of d" "k_table (snd (logger_fork_resource_enter d)) = k_table d"
  "files_of (snd (logger_fork_resource_leave e d)) = files_of d" "k_table (snd (logger_fork_resource_leave e d)) = k_table d"
  by (simp_all add: logger_fork_resource_enter_def logger_fork_resource_leave_def Let_def case_prod_beta)

lemma bitmap_frame [simp]:
  "files_of (snd (grow_for fd d)) = files_of d" "k_table (snd (grow_for fd d)) = k_table d"
  "files_of (snd (register_fd fd d)) = files_of d" "k_table (snd (register_fd fd d)) = k_table d"
  "files_of (unregister_fd fd d) = files_of d" "k_table (unregister_fd fd d) = k_table d"
  "files_of (snd (release_empty d)) = files_of d" "k_table (snd (release_empty d)) = k_table d"
  by (simp_all add: grow_for_def register_fd_def unregister_fd_def release_empty_def Let_def case_prod_beta split: frame_splits)

lemma libc_frame [simp]:
  "files_of (snd (libc_begin d)) = files_of d" "k_table (snd (libc_begin d)) = k_table d"
  "files_of (snd (libc_end e d)) = files_of d" "k_table (snd (libc_end e d)) = k_table d"
  by (simp_all add: libc_begin_def libc_end_def Let_def case_prod_beta)

lemma libc_calls_frame [simp]:
  "files_of (snd (logger_libc_vsnprintf s d)) = files_of d" "k_table (snd (logger_libc_vsnprintf s d)) = k_table d"
  "files_of (snd (logger_libc_snprintf s d)) = files_of d" "k_table (snd (logger_libc_snprintf s d)) = k_table d"
  "files_of (snd (logger_libc_localtime_r sec d)) = files_of d" "k_table (snd (logger_libc_localtime_r sec d)) = k_table d"
  "files_of (snd (logger_libc_gmtime_r sec d)) = files_of d" "k_table (snd (logger_libc_gmtime_r sec d)) = k_table d"
  "files_of (snd (logger_libc_strftime n s d)) = files_of d" "k_table (snd (logger_libc_strftime n s d)) = k_table d"
  by (simp_all add: logger_libc_vsnprintf_def logger_libc_snprintf_def logger_libc_localtime_r_def
      logger_libc_gmtime_r_def logger_libc_strftime_def libc_call_def Let_def case_prod_beta split: frame_splits)

lemma close_frame [simp]:
  "files_of (snd (sys_close fd k)) = files_of k"
  "files_of (snd (logger_fork_close fd d)) = files_of d"
  "files_of (snd (logger_fork_closedir fd d)) = files_of d"
  "files_of (snd (logger_fork_fdopendir fd d)) = files_of d"
  "k_table (snd (logger_fork_fdopendir fd d)) = k_table d"
  "files_of (snd (snd (logger_fd_close_status owner d))) = files_of d"
  "files_of (logger_fd_cleanup owner d) = files_of d"
proof -
  show *: "files_of (snd (sys_close fd k)) = files_of k" for k :: "'a kernel_scheme"
    by (simp add: sys_close_def release_fd_def case_prod_beta)
  show 1: "files_of (snd (logger_fork_close fd d)) = files_of d" for fd
    by (simp add: logger_fork_close_def sys_close_def release_fd_def Let_def case_prod_beta)
  show "files_of (snd (logger_fork_closedir fd d)) = files_of d"
    by (simp add: logger_fork_closedir_def sys_close_def release_fd_def Let_def case_prod_beta)
  have "files_of (snd (syscall (\<lambda>k. if is_dir_fd k fd then (Inr (map fst (k_dir k)), k) else (Inl ENOTDIR, k)) k)) = files_of k"
    and "k_table (snd (syscall (\<lambda>k. if is_dir_fd k fd then (Inr (map fst (k_dir k)), k) else (Inl ENOTDIR, k)) k)) = k_table k" for k :: domain
    by (rule syscall_frame syscall_frame_table; simp)+
  then show "files_of (snd (logger_fork_fdopendir fd d)) = files_of d"
    "k_table (snd (logger_fork_fdopendir fd d)) = k_table d"
    by (simp_all add: logger_fork_fdopendir_def Let_def case_prod_beta split: sum.splits)
  show "files_of (snd (snd (logger_fd_close_status owner d))) = files_of d"
    "files_of (logger_fd_cleanup owner d) = files_of d"
    using 1 by (simp_all add: logger_fd_close_status_def logger_fd_cleanup_def logger_fd_take_def case_prod_beta split: sum.splits)
qed

section \<open>The file backend's queries\<close>

lemma fsync_retry_frame_both: "files_of (snd (fsync_retry fd d)) = files_of d \<and> k_table (snd (fsync_retry fd d)) = k_table d"
proof (induction fd d rule: fsync_retry.induct)
  case (1 fd d)
  obtain r d1 where call: "sys_fsync fd d = (r, d1)" by fastforce
  then have "files_of d1 = files_of d" "k_table d1 = k_table d" using query_frame(7,8) [of fd d] by simp_all
  then show ?case using 1 [OF call [symmetric]] by (simp add: fsync_retry.simps [of fd d] call)
qed

lemma flock_retry_frame_both: "files_of (snd (flock_retry fd d)) = files_of d \<and> k_table (snd (flock_retry fd d)) = k_table d"
proof (induction fd d rule: flock_retry.induct)
  case (1 fd d)
  obtain r d1 where call: "sys_flock fd d = (r, d1)" by fastforce
  then have "files_of d1 = files_of d" "k_table d1 = k_table d" using query_frame(9,10) [of fd d] by simp_all
  then show ?case using 1 [OF call [symmetric]] by (simp add: flock_retry.simps [of fd d] call)
qed

lemmas retry_frame [simp] = fsync_retry_frame_both [THEN conjunct1] fsync_retry_frame_both [THEN conjunct2]
  flock_retry_frame_both [THEN conjunct1] flock_retry_frame_both [THEN conjunct2]

lemma check_frame [simp]:
  "files_of (snd (wall_day sec d)) = files_of d" "k_table (snd (wall_day sec d)) = k_table d"
  "files_of (snd (check_named_fd a b c d)) = files_of d" "k_table (snd (check_named_fd a b c d)) = k_table d"
  by (simp_all add: wall_day_def check_named_fd_def case_prod_beta split: sum.splits)

lemma check_frame2 [simp]:
  "files_of (snd (check_owner f d)) = files_of d" "k_table (snd (check_owner f d)) = k_table d"
  "files_of (snd (check_active f d)) = files_of d" "k_table (snd (check_active f d)) = k_table d"
  by (simp_all add: check_owner_def check_active_def case_prod_beta split: sum.splits)

lemma archive_frame [simp]:
  "files_of (snd (timestamp_valid t d)) = files_of d" "k_table (snd (timestamp_valid t d)) = k_table d"
  "files_of (snd (snd (advance_microsecond t d))) = files_of d" "k_table (snd (snd (advance_microsecond t d))) = k_table d"
  "files_of (snd (archive_name f t cap d)) = files_of d" "k_table (snd (archive_name f t cap d)) = k_table d"
  "files_of (snd (archive_start f d)) = files_of d" "k_table (snd (archive_start f d)) = k_table d"
  by (simp_all add: timestamp_valid_def advance_microsecond_def archive_name_def archive_start_def Let_def
      case_prod_beta split: sum.splits)

lemma sync_frame [simp]:
  "files_of (snd (snd (sync_data f fd d))) = files_of d" "k_table (snd (snd (sync_data f fd d))) = k_table d"
  "files_of (snd (snd (sync_directory f d))) = files_of d" "k_table (snd (snd (sync_directory f d))) = k_table d"
  "files_of (snd (snd (logger_file_sync f d))) = files_of d" "k_table (snd (snd (logger_file_sync f d))) = k_table d"
  by (simp_all add: sync_data_def sync_directory_def logger_file_sync_def Let_def case_prod_beta split: sum.splits)

section \<open>What the operations keep of the structure\<close>

text \<open>\<open>binding\<close> is fixed once a path is bound; \<open>attachment\<close> changes when the active file is switched.\<close>

definition binding :: "logger_file \<Rightarrow> string \<times> string \<times> string \<times> string \<times> logger_rotation_config_t \<times> int \<times> int \<times> bool \<times> int" where
  "binding f = (f_name f, f_lock_name f, f_stem f, f_ext f, f_rotation f, file_dir_fd f, file_lock_fd f, f_managed f, f_iov_max f)"

definition attachment :: "logger_file \<Rightarrow> int \<times> int \<times> nat \<times> size_t \<times> int \<times> bool \<times> errno \<times> timespec \<times> bool" where
  "attachment f = (file_data_fd f, f_device f, f_inode f, f_current_size f, f_current_day f, f_detached f,
     f_switch_error f, f_archive_time f, f_archive_time_valid f)"

lemmas file_fds = file_data_fd_def file_dir_fd_def file_lock_fd_def logger_fd_number_def

lemma metrics_keep [simp]:
  "binding (upd_metrics g f) = binding f" "attachment (upd_metrics g f) = attachment f"
  "binding (f\<lparr>f_dir_dirty := b\<rparr>) = binding f" "attachment (f\<lparr>f_dir_dirty := b\<rparr>) = attachment f"
  by (simp_all add: binding_def attachment_def upd_metrics_def file_fds)

lemma switch_keep [simp]:
  "binding (install_fd f fd st day) = binding f"
  "binding (f\<lparr>f_detached := b1\<rparr>) = binding f" "binding (f\<lparr>f_switch_error := b2\<rparr>) = binding f"
  "binding (f\<lparr>f_archive_time := b3\<rparr>) = binding f" "binding (f\<lparr>f_archive_time_valid := b4\<rparr>) = binding f"
  "binding (f\<lparr>f_fd := b5\<rparr>) = binding f" "binding (f\<lparr>f_current_size := b6\<rparr>) = binding f"
  by (simp_all add: binding_def install_fd_def file_fds)

lemma sync_keep [simp]:
  "binding (fst (snd (sync_data f fd d))) = binding f" "attachment (fst (snd (sync_data f fd d))) = attachment f"
  "binding (fst (snd (sync_directory f d))) = binding f" "attachment (fst (snd (sync_directory f d))) = attachment f"
  by (simp_all add: sync_data_def sync_directory_def Let_def case_prod_beta split: sum.splits)

lemma file_sync_keep [simp]:
  "binding (fst (snd (logger_file_sync f d))) = binding f"
  "attachment (fst (snd (logger_file_sync f d))) = attachment f"
  by (simp_all add: logger_file_sync_def Let_def case_prod_beta split: sum.splits)

lemma open_candidate_keep [simp]:
  "binding (fst (snd (open_candidate f x d))) = binding f" "attachment (fst (snd (open_candidate f x d))) = attachment f"
  by (simp_all add: open_candidate_def Let_def case_prod_beta split: sum.splits)

lemma open_next_keep [simp]:
  "binding (fst (snd (open_next f t d))) = binding f" "attachment (fst (snd (open_next f t d))) = attachment f"
  by (simp_all add: open_next_def Let_def case_prod_beta split: sum.splits)

lemma binding_eqs:
  assumes "binding f' = binding f"
  shows "f_name f' = f_name f" "f_lock_name f' = f_lock_name f" "f_stem f' = f_stem f" "f_ext f' = f_ext f"
    "f_rotation f' = f_rotation f" "file_dir_fd f' = file_dir_fd f" "file_lock_fd f' = file_lock_fd f"
    "f_managed f' = f_managed f" "f_iov_max f' = f_iov_max f"
  using assms by (simp_all add: binding_def)

lemma attachment_eqs:
  assumes "attachment f' = attachment f"
  shows "file_data_fd f' = file_data_fd f" "f_device f' = f_device f" "f_inode f' = f_inode f"
    "f_current_size f' = f_current_size f" "f_current_day f' = f_current_day f" "f_detached f' = f_detached f"
    "f_switch_error f' = f_switch_error f" "f_archive_time f' = f_archive_time f"
    "f_archive_time_valid f' = f_archive_time_valid f"
  using assms by (simp_all add: attachment_def)

end
