(* ===== verification/Logger_Rotate_Props.thy ===== *)
theory Logger_Rotate_Props
  imports Logger_Frame
begin

text \<open>
  Rotation and retention: what they do to the directory and to the contents of the files in it,
  for every schedule of failures.
\<close>

section \<open>Opening may create the named file and nothing else\<close>

definition grown :: "string \<Rightarrow> (string \<times> nat) list \<times> inode list \<Rightarrow> (string \<times> nat) list \<times> inode list \<Rightarrow> bool" where
  "grown name fs fs' \<longleftrightarrow> fs' = fs \<or> (map_of (fst fs) name = None \<and>
     (\<exists>n. i_kind n = Regular \<and> i_nlink n = 1 \<and> i_data n = [] \<and> fs' = (fst fs @ [(name, length (snd fs))], snd fs @ [n])))"

lemma grown_refl [simp]: "grown name fs fs"
  by (simp add: grown_def)

lemma files_of_install [simp]: "files_of (snd (install_obj x k)) = files_of k"
  by (simp add: install_obj_def Let_def)

lemma open_existing_frame [simp]: "files_of (snd (open_existing flags i k)) = files_of k"
  by (simp add: open_existing_def split: option.splits)

lemma grown_create: "dir_lookup k name = None \<Longrightarrow> grown name (files_of k) (files_of (create_file name k))"
  by (auto simp: grown_def files_of_def create_file_def new_inode_def dir_lookup_def split: if_splits)

lemma sys_openat_grown: "grown name (files_of k) (files_of (snd (sys_openat dirfd name flags k)))"
proof -
  have "files_of (snd (next_call k)) = files_of k" by simp
  then show ?thesis
    by (auto simp: sys_openat_def syscall_def case_prod_beta grown_create simp del: next_call_frame
        dest: grown_create split: outcome.splits option.splits)
qed

lemma acquired_frame [simp]: "files_of (snd (acquired r d)) = files_of d"
  by (simp add: acquired_def Let_def case_prod_beta split: sum.splits)

lemma fork_openat_grown: "grown name (files_of d) (files_of (snd (logger_fork_openat dirfd name flags d)))"
  using sys_openat_grown [of name "snd (logger_fork_resource_enter d)" dirfd flags]
  by (simp add: logger_fork_openat_def case_prod_beta)

lemma open_candidate_grown: "grown (f_name f) (files_of d) (files_of (snd (snd (open_candidate f x d))))"
proof -
  let ?d1 = "snd (check_owner f d)"
  have "grown (f_name f) (files_of d) (files_of (snd (logger_fork_openat (file_dir_fd f) (f_name f) flags ?d1)))" for flags
    using fork_openat_grown [of "f_name f" ?d1 "file_dir_fd f" flags] by simp
  then show ?thesis
    by (simp add: open_candidate_def Let_def case_prod_beta split: sum.splits)
qed

lemma open_next_grown: "grown (f_name f) (files_of d) (files_of (snd (snd (open_next f t d))))"
proof -
  have "grown (f_name f) (files_of d) (files_of (snd (snd (open_candidate (fst (snd (sync_directory f d))) True
      (snd (wall_day (tv_sec t) (snd (snd (sync_directory f d)))))))))"
    using open_candidate_grown [of "fst (snd (sync_directory f d))" "snd (wall_day (tv_sec t) (snd (snd (sync_directory f d))))" True]
    by (simp add: binding_eqs [OF sync_keep(3)])
  then show ?thesis
    by (simp add: open_next_def Let_def case_prod_beta split: sum.splits)
qed

section \<open>Retention removes expired archives only\<close>

definition expired :: "logger_file \<Rightarrow> int \<Rightarrow> string \<Rightarrow> nat \<Rightarrow> inode \<Rightarrow> bool" where
  "expired f now name i n \<longleftrightarrow> archive_matches f name \<and> i_kind n = Regular \<and> i_nlink n = 1 \<and>
     \<not> (i_dev n = f_device f \<and> i = f_inode f) \<and> retention_days (f_rotation f) \<noteq> 0 \<and>
     int (unat (retention_days (f_rotation f))) * 86400 < now - i_mtime n"

definition node_kept :: "inode \<Rightarrow> inode \<Rightarrow> bool" where
  "node_kept n n' \<longleftrightarrow> n' = n \<or> i_nlink n = 1 \<and> n' = n\<lparr>i_nlink := 0\<rparr>"

lemma node_kept_trans: "node_kept a b \<Longrightarrow> node_kept b c \<Longrightarrow> node_kept a c"
  by (auto simp: node_kept_def)

definition purged :: "logger_file \<Rightarrow> int \<Rightarrow> (string \<times> nat) list \<times> inode list \<Rightarrow> (string \<times> nat) list \<times> inode list \<Rightarrow> bool" where
  "purged f now fs fs' \<longleftrightarrow> list_all2 node_kept (snd fs) (snd fs') \<and>
     (\<forall>name. map_of (fst fs') name = map_of (fst fs) name \<or>
        map_of (fst fs') name = None \<and>
        (\<exists>i. map_of (fst fs) name = Some i \<and> i < length (snd fs) \<and> expired f now name i (snd fs ! i)))"

lemma purged_refl [simp]: "purged f now fs fs"
  by (auto simp: purged_def node_kept_def list_all2_conv_all_nth)

lemma purged_trans:
  assumes "purged f now a b" "purged f now b c"
  shows "purged f now a c"
proof -
  have len: "length (snd b) = length (snd a)" and node: "\<And>i. i < length (snd a) \<Longrightarrow> node_kept (snd a ! i) (snd b ! i)"
    using assms(1) by (auto simp: purged_def list_all2_conv_all_nth)
  have "list_all2 node_kept (snd a) (snd c)"
    using list_all2_trans [of node_kept node_kept node_kept "snd a" "snd b" "snd c"] node_kept_trans assms
    by (simp add: purged_def)
  moreover have "expired f now name i (snd b ! i) \<Longrightarrow> i < length (snd a) \<Longrightarrow> expired f now name i (snd a ! i)" for name i
    using node [of i] by (auto simp: expired_def node_kept_def)
  ultimately show ?thesis using assms len unfolding purged_def by metis
qed

lemma expired_metrics [simp]: "expired (upd_metrics g f) = expired f"
  by (intro ext) (simp add: expired_def upd_metrics_def archive_matches_def)

lemma purged_metrics [simp]: "purged (upd_metrics g f) = purged f"
  by (intro ext) (simp add: purged_def)

lemma archive_matches_length: "archive_matches f name \<Longrightarrow> length name = length (f_stem f) + 24 + length (f_ext f)"
  by (simp add: archive_matches_def Let_def)

lemma archive_not_dot: "archive_matches f name \<Longrightarrow> name \<noteq> ''.''"
  using archive_matches_length [of f name] by auto

lemma map_of_dir_remove: "map_of (dir_remove name d) n = (if n = name then None else map_of d n)"
  by (induction d) (auto simp: dir_remove_def)

lemma syscall_pureD: "syscall (Pair r) k = (x, k') \<Longrightarrow> files_of k' = files_of k"
  using syscall_pure(1) [of r k] by simp

text \<open>One removal, after the checks of the loop.\<close>

lemma fstatat_Inr:
  assumes "sys_fstatat fd name k = (Inr st, k')" "name \<noteq> ''.''"
  shows "\<exists>i. map_of (k_dir k) name = Some i \<and> i < length (k_inodes k) \<and> st = stat_of i (k_inodes k ! i)"
  using assms
  by (auto simp: sys_fstatat_def syscall_def next_call_def dir_lookup_def node_of_def
      split: prod.splits outcome.splits if_splits option.splits list.splits)

lemma unlink_files:
  assumes "sys_unlinkat fd name k = (r, k')" "name \<noteq> ''.''" "map_of (k_dir k) name = Some i" "i < length (k_inodes k)"
  shows "files_of k' = (case r of Inl e \<Rightarrow> files_of k
    | Inr _ \<Rightarrow> (dir_remove name (k_dir k), (k_inodes k)[i := (k_inodes k ! i)\<lparr>i_nlink := i_nlink (k_inodes k ! i) - 1\<rparr>]))"
  using assms
  by (auto simp: sys_unlinkat_def syscall_def next_call_def dir_lookup_def node_of_def files_of_def
      split: prod.splits outcome.splits if_splits option.splits list.splits)

lemma purged_one:
  assumes "map_of (k_dir k) name = Some i" "i < length (k_inodes k)" "expired f now name i (k_inodes k ! i)"
  shows "purged f now (files_of k)
    (dir_remove name (k_dir k), (k_inodes k)[i := (k_inodes k ! i)\<lparr>i_nlink := i_nlink (k_inodes k ! i) - 1\<rparr>])"
  using assms
  by (auto simp: purged_def files_of_def list_all2_conv_all_nth nth_list_update node_kept_def expired_def map_of_dir_remove)

lemma retention_loop_purged:
  assumes "retention_loop f now (int (unat (retention_days (f_rotation f))) * 86400) names changed d = (rc, changed', f', d')"
    and "retention_days (f_rotation f) \<noteq> 0"
  shows "purged f now (files_of d) (files_of d') \<and> binding f' = binding f \<and> attachment f' = attachment f"
  using assms
proof (induction names arbitrary: f changed d)
  case Nil
  then show ?case
    by (auto simp: retention_loop.simps [of f] dest: syscall_pureD split: prod.splits sum.splits)
next
  case (Cons name rest)
  define seconds where "seconds = int (unat (retention_days (f_rotation f))) * 86400"
  obtain r1 d1 where c1: "syscall (\<lambda>k. (Inr (), k)) d = (r1 :: errno + unit, d1)" by fastforce
  have f1: "files_of d1 = files_of d" using c1 by (rule syscall_pureD)
  obtain r2 d2 where c2: "sys_fstatat (file_dir_fd f) name d1 = (r2, d2)" by fastforce
  have f2: "files_of d2 = files_of d" using query_frame(3) [of "file_dir_fd f" name d1] c2 f1 by simp
  obtain r3 d3 where c3: "sys_unlinkat (file_dir_fd f) name d2 = (r3, d3)" by fastforce
  note step = Cons.prems(1) [unfolded seconds_def [symmetric], simplified retention_loop.simps [of f now seconds "name # rest"] c1]
  have rest_same: "retention_loop f now seconds rest changed dx = (rc, changed', f', d') \<Longrightarrow> files_of dx = files_of d \<Longrightarrow> ?case" for dx
    using Cons.IH [of f changed dx] Cons.prems(2) unfolding seconds_def by simp
  show ?case
  proof (cases r1)
    case (Inl e)
    then show ?thesis using step f1 by simp
  next
    case r1: (Inr u)
    show ?thesis
    proof (cases "archive_matches f name")
      case False
      then show ?thesis using step r1 rest_same [OF _ f1] by simp
    next
      case matches: True
      note dot = archive_not_dot [OF matches]
      show ?thesis
      proof (cases r2)
        case (Inl e)
        then show ?thesis using step r1 matches c2 f2 by simp
      next
        case r2: (Inr st)
        obtain i where i: "map_of (k_dir d1) name = Some i" "i < length (k_inodes d1)" "st = stat_of i (k_inodes d1 ! i)"
          using fstatat_Inr [of "file_dir_fd f" name d1 st d2] c2 r2 dot by auto
        have eqs: "k_dir d1 = k_dir d" "k_inodes d1 = k_inodes d" "k_dir d2 = k_dir d" "k_inodes d2 = k_inodes d"
          using f1 f2 by (simp_all add: files_of_def)
        show ?thesis
        proof (cases "expired f now name i (k_inodes d ! i)")
          case False
          then have "retention_loop f now seconds rest changed d2 = (rc, changed', f', d')"
            using step r1 r2 matches c2 i eqs Cons.prems(2)
            by (auto simp: expired_def stat_of_def seconds_def split: if_splits)
          then show ?thesis using rest_same f2 by simp
        next
          case old: True
          have del: "files_of d3 = (case r3 of Inl e \<Rightarrow> files_of d
            | Inr _ \<Rightarrow> (dir_remove name (k_dir d), (k_inodes d)[i := (k_inodes d ! i)\<lparr>i_nlink := i_nlink (k_inodes d ! i) - 1\<rparr>]))"
            using unlink_files [OF c3 dot] i eqs f2 by (simp split: sum.splits)
          have go: "(case sys_unlinkat (file_dir_fd f) name d2 of
               (Inl e, d3) \<Rightarrow> (- e, changed, f, d3)
             | (Inr _, d3) \<Rightarrow>
               retention_loop (upd_metrics (\<lambda>m. m\<lparr>retention_deletions := retention_deletions m + 1\<rparr>) f)
                 now seconds rest True d3) = (rc, changed', f', d')"
            using step r1 r2 matches c2 i eqs old by (auto simp: expired_def stat_of_def seconds_def split: if_splits)
          show ?thesis
          proof (cases r3)
            case (Inl e)
            then show ?thesis using go c3 del by auto
          next
            case (Inr v)
            let ?f = "upd_metrics (\<lambda>m. m\<lparr>retention_deletions := retention_deletions m + 1\<rparr>) f"
            have "purged f now (files_of d) (files_of d3)"
              using purged_one [of d name i f now] i eqs old del Inr by simp
            moreover have "retention_loop ?f now seconds rest True d3 = (rc, changed', f', d')"
              using go c3 Inr by simp
            ultimately show ?thesis
              using Cons.IH [of ?f True d3] Cons.prems(2) purged_trans
              by (metis (no_types, lifting) binding_eqs(5) metrics_keep(1,2) purged_metrics seconds_def)
          qed
        qed
      qed
    qed
  qed
qed

lemma fork_openat_readonly:
  assumes "O_CREAT \<notin> set flags"
  shows "files_of (snd (logger_fork_openat dirfd name flags d)) = files_of d"
proof -
  have "files_of (snd (sys_openat dirfd name flags k)) = files_of k" for k :: domain
    unfolding sys_openat_def using assms by (intro syscall_frame) (simp split: option.splits)
  then show ?thesis by (simp add: logger_fork_openat_def case_prod_beta)
qed

lemma fdopendir_frame [simp]: "files_of (snd (snd (logger_fd_fdopendir owner d))) = files_of d"
  by (simp add: logger_fd_fdopendir_def case_prod_beta split: sum.splits)

lemma retention_purged:
  assumes "retention f now d = (rc, f', d')"
  shows "purged f now (files_of d) (files_of d') \<and> binding f' = binding f \<and> attachment f' = attachment f"
proof (cases "retention_days (f_rotation f) = 0")
  case True
  then show ?thesis using assms by (simp add: retention_def)
next
  case days: False
  obtain r1 d1 where c1: "logger_fork_openat (file_dir_fd f) ''.'' [O_RDONLY, O_DIRECTORY, O_CLOEXEC] d = (r1, d1)" by fastforce
  have f1: "files_of d1 = files_of d" using fork_openat_readonly [of "[O_RDONLY, O_DIRECTORY, O_CLOEXEC]" "file_dir_fd f" "''.''" d] c1 by simp
  show ?thesis
  proof (cases r1)
    case (Inl e)
    then show ?thesis using assms days c1 f1 by (auto simp: retention_def)
  next
    case r1: (Inr dirfd)
    obtain r2 fd d2 where c2: "logger_fd_fdopendir (logger_fd_own dirfd) d1 = (r2, fd, d2)" using prod_cases3 by blast
    have f2: "files_of d2 = files_of d" using fdopendir_frame [of "logger_fd_own dirfd" d1] c2 f1 by simp
    show ?thesis
    proof (cases r2)
      case (Inl e)
      then show ?thesis using assms days c1 c2 r1 f2 by (auto simp: retention_def)
    next
      case r2: (Inr names)
      obtain rc1 changed f1 d3 where c3:
        "retention_loop f now (int (unat (retention_days (f_rotation f))) * 86400) names False d2 = (rc1, changed, f1, d3)"
        using prod_cases4 by blast
      have p: "purged f now (files_of d) (files_of d3)" "binding f1 = binding f" "attachment f1 = attachment f"
        using retention_loop_purged [OF c3 days] f2 by auto
      have tail: "(case logger_fork_closedir dirfd d3 of (closed, d4) \<Rightarrow>
                 let rc1 = (case closed of Inl e \<Rightarrow> if rc1 = 0 then - e else rc1 | Inr _ \<Rightarrow> rc1) in
                 if changed
                 then case sync_directory (f1\<lparr>f_dir_dirty := True\<rparr>) d4 of (synced, f2, d5) \<Rightarrow>
                   (first_rc rc1 synced, f2, logger_fd_cleanup fd d5)
                 else (rc1, f1, logger_fd_cleanup fd d4)) = (rc, f', d')"
        using assms days c1 c2 c3 r1 r2 by (simp add: retention_def)
      then show ?thesis using p by (auto simp: Let_def case_prod_beta split: if_splits)
    qed
  qed
qed

section \<open>The rename\<close>

lemma syscall_positive:
  assumes "syscall op k = (Inl e, k')" "\<And>k1 e1 k2. op k1 = (Inl e1, k2) \<Longrightarrow> 0 < e1"
  shows "0 < e"
  using assms by (auto simp: syscall_def dest: next_call_Fail split: prod.splits outcome.splits)

lemma rename_files:
  assumes "logger_file_rename_noreplace dirfd from to d = (r, d')" "from \<noteq> ''.''" "to \<noteq> ''.''"
  shows "case r of Inl e \<Rightarrow> 0 < e \<and> files_of d' = files_of d
    | Inr _ \<Rightarrow> \<exists>i. map_of (k_dir d) from = Some i \<and> map_of (k_dir d) to = None \<and>
        files_of d' = (dir_remove from (k_dir d) @ [(to, i)], k_inodes d)"
proof -
  obtain r1 where c: "sys_renameat2_noreplace dirfd from to d = (r1, d')"
    using assms(1) by (auto simp: logger_file_rename_noreplace_def split: prod.splits sum.splits)
  have "0 < e" if "r1 = Inl e" for e
    using c that unfolding sys_renameat2_noreplace_def
    by (auto elim!: syscall_positive split: if_splits option.splits)
  moreover have "case r1 of Inl e \<Rightarrow> files_of d' = files_of d
    | Inr _ \<Rightarrow> \<exists>i. map_of (k_dir d) from = Some i \<and> map_of (k_dir d) to = None \<and>
        files_of d' = (dir_remove from (k_dir d) @ [(to, i)], k_inodes d)"
    using c assms(2,3)
    by (auto simp: sys_renameat2_noreplace_def syscall_def next_call_def dir_lookup_def files_of_def
        split: prod.splits outcome.splits if_splits option.splits list.splits)
  ultimately show ?thesis
    using assms(1) c by (auto simp: logger_file_rename_noreplace_def split: sum.splits)
qed

lemma libc_call_errno: "fst (libc_call op fallback d) = Inl e \<Longrightarrow> fallback \<noteq> 0 \<Longrightarrow> e \<noteq> 0"
  by (auto simp: libc_call_def errno_or_def case_prod_beta libc_end_def Let_def split: if_splits sum.splits)

lemma archive_name_Inr:
  assumes "archive_name f t cap d = (Inr name, d')"
  shows "\<exists>stamp. length stamp = 15 \<and> name = archive_text f stamp (tv_nsec t) \<and> length name < cap \<and> 0 \<le> tv_nsec t \<and> tv_nsec t < 1000000000"
proof -
  have print: "logger_libc_snprintf s k = (Inr out, k') \<Longrightarrow> out = s" for s k out k'
    by (auto simp: logger_libc_snprintf_def logger_libc_vsnprintf_def libc_call_def syscall_def
        split: prod.splits if_splits sum.splits outcome.splits)
  show ?thesis using assms
    by (auto simp: archive_name_def timestamp_valid_def dest: print split: prod.splits if_splits sum.splits)
qed

lemma archive_name_Inl: "archive_name f t cap d = (Inl rc, d') \<Longrightarrow> rc \<noteq> 0"
  by (auto simp: archive_name_def errno_or_def split: prod.splits if_splits sum.splits)

lemma archive_text_dot: "length stamp = 15 \<Longrightarrow> archive_text f stamp x \<noteq> ''.''"
  by (auto simp: archive_text_def append_eq_Cons_conv)

lemma archive_loop_files:
  assumes "archive_loop n f t d = (rc, t', d')" "f_name f \<noteq> ''.''"
  shows "if rc \<noteq> 0 then files_of d' = files_of d
    else \<exists>stamp i. length stamp = 15 \<and> 0 \<le> tv_nsec t' \<and> tv_nsec t' < 1000000000 \<and>
      (let a = archive_text f stamp (tv_nsec t') in
       map_of (k_dir d) (f_name f) = Some i \<and> map_of (k_dir d) a = None \<and>
       files_of d' = (dir_remove (f_name f) (k_dir d) @ [(a, i)], k_inodes d))"
  using assms
proof (induction n f t d rule: archive_loop.induct)
  case (1 f t d)
  then show ?case by simp
next
  case (2 n f t d)
  obtain r1 d1 where c1: "archive_name f t (LOGGER_FILENAME_MAX + 1) d = (r1, d1)" by fastforce
  have f1: "files_of d1 = files_of d" by (metis c1 snd_conv archive_frame(5))
  show ?case
  proof (cases r1)
    case (Inl e)
    then show ?thesis using 2 c1 f1 by (auto dest: archive_name_Inl)
  next
    case r1: (Inr name)
    then obtain stamp where stamp: "length stamp = 15" "name = archive_text f stamp (tv_nsec t)"
      "0 \<le> tv_nsec t" "tv_nsec t < 1000000000"
      using archive_name_Inr c1 by blast
    obtain r2 d2 where c2: "logger_file_rename_noreplace (file_dir_fd f) (f_name f) name d1 = (r2, d2)" by fastforce
    note ren = rename_files [OF c2 2(3)] archive_text_dot [OF stamp(1)]
    have eqs: "k_dir d1 = k_dir d" "k_inodes d1 = k_inodes d" using f1 by (simp_all add: files_of_def)
    show ?thesis
    proof (cases r2)
      case (Inr u)
      then show ?thesis
        using 2(2) c1 c2 r1 ren stamp eqs by (fastforce simp: Let_def)
    next
      case r2: (Inl e)
      then have f2: "0 < e" "files_of d2 = files_of d" using ren stamp f1 by simp_all
      obtain rc3 t1 d3 where c3: "advance_microsecond t d2 = (rc3, t1, d3)" using prod_cases3 by blast
      have f3: "files_of d3 = files_of d" using archive_frame(3) [of t d2] c3 f2 by simp
      then have eqs3: "k_dir d3 = k_dir d" "k_inodes d3 = k_inodes d" by (simp_all add: files_of_def)
      show ?thesis
      proof (cases "e = EEXIST \<and> rc3 = 0")
        case True
        then have "archive_loop n f t1 d3 = (rc, t', d')" using 2(2) c1 c2 c3 r1 r2 by simp
        then show ?thesis using 2(1) [OF c1 [symmetric] r1 c2 [symmetric] r2] True c3 f3 eqs3 2(3) by (auto split: if_splits)
      next
        case False
        then show ?thesis using 2(2) c1 c2 c3 r1 r2 f2 f3 by (auto split: if_splits)
      qed
    qed
  qed
qed

end
