(* ===== verification/Logger_Rotate_Main.thy ===== *)
theory Logger_Rotate_Main
  imports Logger_Rotate_Props
begin

text \<open>The correctness of rotation as a whole.\<close>

section \<open>The steps of a rotation\<close>

text \<open>
  Three things can have happened to the directory: nothing; the active file was renamed to a free
  name and possibly a new active file created; or the same followed by retention.
\<close>

definition rotated :: "logger_file \<Rightarrow> logger_file \<Rightarrow> domain \<Rightarrow> domain \<Rightarrow> bool" where
  "rotated f f' d d' \<longleftrightarrow> (\<exists>stamp i fs.
     let a = archive_text f stamp (tv_nsec (f_archive_time f')) in
     length stamp = 15 \<and> map_of (k_dir d) (f_name f) = Some i \<and> map_of (k_dir d) a = None \<and>
     grown (f_name f) (dir_remove (f_name f) (k_dir d) @ [(a, i)], k_inodes d) fs \<and>
     (f_detached f' \<and> files_of d' = fs \<or> \<not> f_detached f' \<and> purged f' (tv_sec (f_archive_time f')) fs (files_of d')))"

section \<open>Errors are never mistaken for success\<close>

lemma query_errno:
  "sys_fstat fd k = (Inl e, k') \<Longrightarrow> 0 < e" "sys_fstatat fd name k = (Inl e, k') \<Longrightarrow> 0 < e"
  "sys_openat fd name flags k = (Inl e, k') \<Longrightarrow> 0 < e" "sys_realtime k = (Inl e, k') \<Longrightarrow> 0 < e"
  unfolding sys_fstat_def sys_fstatat_def sys_openat_def sys_realtime_def
  by (erule syscall_positive; auto simp: open_existing_def install_obj_def Let_def
      split: if_splits option.splits fd_object.splits)+

lemma fork_openat_errno: "logger_fork_openat dirfd name flags d = (Inl e, d') \<Longrightarrow> e \<noteq> 0"
  by (auto simp: logger_fork_openat_def acquired_def logger_fork_resource_leave_def Let_def dest: query_errno(3)
      split: prod.splits if_splits sum.splits)

lemma check_named_fd_errno: "check_named_fd a b c d = (Inl rc, d') \<Longrightarrow> rc \<noteq> 0"
  by (auto simp: check_named_fd_def dest: query_errno split: prod.splits sum.splits if_splits)

lemma open_candidate_errno: "open_candidate f x d = (Inl rc, f', d') \<Longrightarrow> rc \<noteq> 0"
  by (auto simp: open_candidate_def Let_def dest: fork_openat_errno check_named_fd_errno
      split: prod.splits sum.splits if_splits)

lemma wall_day_errno: "wall_day sec d = (Inl rc, d') \<Longrightarrow> rc \<noteq> 0"
  by (auto simp: wall_day_def split: prod.splits sum.splits if_splits)

lemma open_next_errno: "open_next f t d = (Inl rc, f', d') \<Longrightarrow> rc \<noteq> 0"
  by (auto simp: open_next_def dest: open_candidate_errno wall_day_errno split: prod.splits sum.splits if_splits)

lemma archive_start_errno: "archive_start f d = (Inl rc, d') \<Longrightarrow> rc \<noteq> 0"
  by (auto simp: archive_start_def Let_def dest: query_errno split: prod.splits sum.splits if_splits)

section \<open>The cases of a rotation\<close>

lemma rotatedI:
  assumes "length stamp = 15" "map_of (k_dir d) (f_name f) = Some i" "f_archive_time f' = t"
    "map_of (k_dir d) (archive_text f stamp (tv_nsec t)) = None"
    "grown (f_name f) (dir_remove (f_name f) (k_dir d) @ [(archive_text f stamp (tv_nsec t), i)], k_inodes d) fs"
    "f_detached f' \<and> files_of d' = fs \<or> \<not> f_detached f' \<and> purged f' (tv_sec t) fs (files_of d')"
  shows "rotated f f' d d'"
  unfolding rotated_def Let_def using assms by blast

lemma archive_text_metrics [simp]: "archive_text (upd_metrics g f) = archive_text f"
  by (intro ext) (simp add: archive_text_def upd_metrics_def)

lemma install_detached [simp]: "f_detached (install_fd f fd st day) = False"
  by (simp add: install_fd_def)

lemma purged_cong:
  assumes "binding f' = binding f" "attachment f' = attachment f"
  shows "purged f' = purged f"
  using binding_eqs [OF assms(1)] attachment_eqs [OF assms(2)]
  by (intro ext) (simp add: purged_def expired_def archive_matches_def)

text \<open>
  The state after the rename: \<open>f2\<close> is detached, \<open>d4\<close> has the active file under the archive name.
\<close>

definition archived :: "logger_file \<Rightarrow> domain \<Rightarrow> timespec \<Rightarrow> logger_file \<Rightarrow> domain \<Rightarrow> bool" where
  "archived f d t f2 d4 \<longleftrightarrow> binding f2 = binding f \<and> f_detached f2 \<and> f_archive_time f2 = t \<and>
     file_data_fd f2 = file_data_fd f \<and> f_inode f2 = f_inode f \<and> f_device f2 = f_device f \<and>
     f_current_size f2 = f_current_size f \<and> k_table d4 = k_table d \<and>
     (\<exists>stamp i. length stamp = 15 \<and> map_of (k_dir d) (f_name f) = Some i \<and>
        map_of (k_dir d) (archive_text f stamp (tv_nsec t)) = None \<and>
        files_of d4 = (dir_remove (f_name f) (k_dir d) @ [(archive_text f stamp (tv_nsec t), i)], k_inodes d))"

lemma rename_table: "k_table (snd (logger_file_rename_noreplace dirfd a b d)) = k_table d"
proof -
  have "k_table (snd (sys_renameat2_noreplace dirfd a b d)) = k_table d"
    unfolding sys_renameat2_noreplace_def by (rule syscall_frame_table) (simp split: option.splits)
  then show ?thesis by (simp add: logger_file_rename_noreplace_def case_prod_beta split: sum.splits)
qed

lemma archive_loop_table: "k_table (snd (snd (archive_loop n f t d))) = k_table d"
  by (induction n arbitrary: t d) (simp_all add: rename_table case_prod_beta split: sum.splits)

lemma rotate_impl_stages:
  assumes "rotate_impl f d = (rc, f', d')" "f_name f \<noteq> ''.''"
  obtains (kept) "files_of d' = files_of d" "k_table d' = k_table d" "binding f' = binding f" "attachment f' = attachment f" "rc \<noteq> 0"
  | (stuck) t f2 d4 f3 where "archived f d t f2 d4" "open_next f2 t d4 = (Inl rc, f3, d')" "f' = f3\<lparr>f_switch_error := - rc\<rparr>"
  | (switched) t f2 d4 candidate st day f3 d5 close_rc o6 d6
    where "archived f d t f2 d4" "open_next f2 t d4 = (Inr (candidate, st, day), f3, d5)"
      "logger_fd_close_status (fst (logger_fd_move (f_fd f3))) d5 = (close_rc, o6, d6)"
      "(if close_rc \<noteq> 0 then (close_rc, install_fd (f3\<lparr>f_fd := snd (logger_fd_move (f_fd f3))\<rparr>) candidate st day, d6)
        else retention (install_fd (f3\<lparr>f_fd := snd (logger_fd_move (f_fd f3))\<rparr>) candidate st day) (tv_sec t) d6) = (rc, f', d')"
proof -
  obtain rc1 d1 where c1: "check_active f d = (rc1, d1)" by fastforce
  obtain r2 d2 where c2: "archive_start f d1 = (r2, d2)" by fastforce
  obtain rc3 f1 d3 where c3: "logger_file_sync f d2 = (rc3, f1, d3)" using prod_cases3 by blast
  have fs: "files_of d1 = files_of d" "files_of d2 = files_of d" "files_of d3 = files_of d"
    and ts: "k_table d1 = k_table d" "k_table d2 = k_table d" "k_table d3 = k_table d"
    using check_frame2(3,4) [of f d] archive_frame(7,8) [of f d1] sync_frame(5,6) [of f d2] c1 c2 c3 by simp_all
  have b1: "binding f1 = binding f" "attachment f1 = attachment f"
    using file_sync_keep [of f d2] c3 by simp_all
  show ?thesis
  proof (cases "rc1 \<noteq> 0 \<or> (\<exists>e. r2 = Inl e) \<or> rc3 \<noteq> 0")
    case True
    have "r2 = Inl e \<Longrightarrow> e \<noteq> 0" for e using c2 archive_start_errno by blast
    with True show ?thesis
      using assms(1) c1 c2 c3 fs ts b1 by (intro kept) (auto simp: rotate_impl_def split: if_splits sum.splits)
  next
    case False
    then obtain t0 where r2: "r2 = Inr t0" by (cases r2) auto
    obtain rc4 t d4 where c4: "archive_loop LOGGER_ARCHIVE_ATTEMPTS f1 t0 d3 = (rc4, t, d4)" using prod_cases3 by blast
    have t4: "k_table d4 = k_table d" by (metis archive_loop_table c4 snd_conv ts(3))
    have name: "f_name f1 = f_name f" "f_stem f1 = f_stem f" "f_ext f1 = f_ext f" using binding_eqs [OF b1(1)] by simp_all
    have atext: "archive_text f1 = archive_text f" by (intro ext) (simp add: archive_text_def name)
    have eqs: "k_dir d3 = k_dir d" "k_inodes d3 = k_inodes d" using fs by (simp_all add: files_of_def)
    note loop = archive_loop_files [OF c4, unfolded name atext, OF assms(2)]
    show ?thesis
    proof (cases "rc4 = 0")
      case rc4: False
      then show ?thesis
        using assms(1) c1 c2 c3 c4 r2 False loop fs b1 t4 by (intro kept) (auto simp: rotate_impl_def)
    next
      case rc4: True
      define f2 where "f2 = f1\<lparr>f_detached := True, f_switch_error := EIO, f_dir_dirty := True,
        f_archive_time := t, f_archive_time_valid := True\<rparr>"
      have "binding f2 = binding f" using b1 by (simp add: f2_def)
      then have arch: "archived f d t f2 d4"
        using loop rc4 eqs t4 attachment_eqs [OF b1(2)] unfolding archived_def
        by (auto simp: Let_def f2_def file_fds)
      obtain r5 f3 d5 where c5: "open_next f2 t d4 = (r5, f3, d5)" using prod_cases3 by blast
      show ?thesis
      proof (cases r5)
        case (Inl rc5)
        then show ?thesis
          using assms(1) c1 c2 c3 c4 c5 r2 rc4 False by (intro stuck [OF arch]) (auto simp: rotate_impl_def f2_def)
      next
        case (Inr x)
        obtain candidate st day where x: "x = (candidate, st, day)" using prod_cases3 by blast
        obtain retiring spent where mv: "logger_fd_move (f_fd f3) = (retiring, spent)" by fastforce
        obtain close_rc o6 d6 where c6: "logger_fd_close_status retiring d5 = (close_rc, o6, d6)" using prod_cases3 by blast
        show ?thesis
          using assms(1) c1 c2 c3 c4 c5 c6 r2 rc4 False Inr x mv
          by (intro switched [OF arch, of candidate st day f3 d5 close_rc o6 d6])
            (simp_all add: rotate_impl_def f2_def Let_def split: if_splits)
      qed
    qed
  qed
qed

lemma archived_rotated:
  assumes "archived f d t f2 d4" "grown (f_name f) (files_of d4) fs" "f_archive_time f' = t"
    "f_detached f' \<and> files_of d' = fs \<or> \<not> f_detached f' \<and> purged f' (tv_sec t) fs (files_of d')"
  shows "rotated f f' d d'"
proof -
  obtain stamp i where si: "length stamp = 15" "map_of (k_dir d) (f_name f) = Some i"
    "map_of (k_dir d) (archive_text f stamp (tv_nsec t)) = None"
    "files_of d4 = (dir_remove (f_name f) (k_dir d) @ [(archive_text f stamp (tv_nsec t), i)], k_inodes d)"
    using assms(1) unfolding archived_def by blast
  show ?thesis by (rule rotatedI [OF si(1,2) assms(3) si(3) assms(2) [unfolded si(4)] assms(4)])
qed

lemma rotate_impl_files:
  assumes "rotate_impl f d = (rc, f', d')" "f_name f \<noteq> ''.''"
  shows "binding f' = binding f \<and>
    (files_of d' = files_of d \<and> attachment f' = attachment f \<and> rc \<noteq> 0 \<or> rotated f f' d d' \<and> (rc = 0 \<longrightarrow> \<not> f_detached f'))"
  using assms
proof (cases rule: rotate_impl_stages)
  case kept
  then show ?thesis by simp
next
  case (stuck t f2 d4 f3)
  have a: "binding f2 = binding f" "f_detached f2" "f_archive_time f2 = t" using stuck(1) by (simp_all add: archived_def)
  have b3: "binding f3 = binding f2" "attachment f3 = attachment f2" using open_next_keep [of f2 t d4] stuck(2) by simp_all
  have g: "grown (f_name f) (files_of d4) (files_of d')"
    using open_next_grown [of f2 d4 t] stuck(2) binding_eqs(1) [OF a(1)] by simp
  have "rotated f f' d d'"
    by (rule archived_rotated [OF stuck(1) g]) (use a attachment_eqs [OF b3(2)] stuck(3) in auto)
  then show ?thesis using a b3 open_next_errno [OF stuck(2)] stuck(3) by simp
next
  case (switched t f2 d4 candidate st day f3 d5 close_rc o6 d6)
  have a: "binding f2 = binding f" "f_archive_time f2 = t" using switched(1) by (simp_all add: archived_def)
  have b3: "binding f3 = binding f2" "attachment f3 = attachment f2" using open_next_keep [of f2 t d4] switched(2) by simp_all
  have g: "grown (f_name f) (files_of d4) (files_of d5)"
    using open_next_grown [of f2 d4 t] switched(2) binding_eqs(1) [OF a(1)] by simp
  define f4 where "f4 = install_fd (f3\<lparr>f_fd := snd (logger_fd_move (f_fd f3))\<rparr>) candidate st day"
  have f6: "files_of d6 = files_of d5" by (metis close_frame(6) snd_conv switched(3))
  have b4: "binding f4 = binding f" "f_archive_time f4 = t" "\<not> f_detached f4"
    using a b3 attachment_eqs(8) [OF b3(2)] by (simp_all add: f4_def) (simp add: install_fd_def)
  have "binding f' = binding f4 \<and> attachment f' = attachment f4 \<and> purged f4 (tv_sec t) (files_of d5) (files_of d')"
    using switched(4) retention_purged [of f4 "tv_sec t" d6 rc f' d'] f6 unfolding f4_def [symmetric] by (auto split: if_splits)
  then have k: "\<not> f_detached f'" "binding f' = binding f" "f_archive_time f' = t" "purged f' (tv_sec t) (files_of d5) (files_of d')"
    using b4 attachment_eqs [of f' f4] purged_cong [of f' f4] by auto
  then have "rotated f f' d d'" using archived_rotated [OF switched(1) g] by blast
  then show ?thesis using k by simp
qed

section \<open>Logs survive rotation\<close>

definition dir_ok :: "'a kernel_scheme \<Rightarrow> bool" where
  "dir_ok k \<longleftrightarrow> (\<forall>name i. map_of (k_dir k) name = Some i \<longrightarrow> i < length (k_inodes k))"

definition log_state :: "domain \<Rightarrow> nat \<Rightarrow> string option" where
  "log_state d i = map_option i_data (node_of d i)"

lemma grown_facts:
  assumes "grown name fs fs'"
  shows "i < length (snd fs) \<Longrightarrow> i < length (snd fs') \<and> snd fs' ! i = snd fs ! i"
    and "map_of (fst fs) n = Some i \<Longrightarrow> map_of (fst fs') n = Some i"
  using assms by (auto simp: grown_def nth_append map_add_Some_iff split: option.splits)

lemma purged_facts:
  assumes "purged f now fs fs'"
  shows "i < length (snd fs) \<Longrightarrow> i < length (snd fs') \<and> i_data (snd fs' ! i) = i_data (snd fs ! i)"
    and "map_of (fst fs) n = Some i \<Longrightarrow>
      map_of (fst fs') n = Some i \<or> map_of (fst fs') n = None \<and> i < length (snd fs) \<and> expired f now n i (snd fs ! i)"
proof -
  show "i < length (snd fs) \<Longrightarrow> i < length (snd fs') \<and> i_data (snd fs' ! i) = i_data (snd fs ! i)"
    using assms by (auto simp: purged_def list_all2_conv_all_nth node_kept_def)
  have "map_of (fst fs') n = map_of (fst fs) n \<or> map_of (fst fs') n = None \<and>
      (\<exists>i. map_of (fst fs) n = Some i \<and> i < length (snd fs) \<and> expired f now n i (snd fs ! i))"
    using assms by (simp add: purged_def)
  then show "map_of (fst fs) n = Some i \<Longrightarrow>
      map_of (fst fs') n = Some i \<or> map_of (fst fs') n = None \<and> i < length (snd fs) \<and> expired f now n i (snd fs ! i)"
    by auto
qed

lemma rotated_facts:
  assumes "rotated f f' d d'" "dir_ok d"
  shows "i < length (k_inodes d) \<Longrightarrow> i < length (k_inodes d') \<and> i_data (k_inodes d' ! i) = i_data (k_inodes d ! i)"
    and "name \<noteq> f_name f \<Longrightarrow> map_of (k_dir d) name = Some i \<Longrightarrow> map_of (k_dir d') name = Some i \<or>
      map_of (k_dir d') name = None \<and> expired f' (tv_sec (f_archive_time f')) name i (k_inodes d ! i)"
    and "\<exists>stamp i. length stamp = 15 \<and> map_of (k_dir d) (f_name f) = Some i \<and>
      map_of (k_dir d) (archive_text f stamp (tv_nsec (f_archive_time f'))) = None \<and>
      (map_of (k_dir d') (archive_text f stamp (tv_nsec (f_archive_time f'))) = Some i \<or>
       expired f' (tv_sec (f_archive_time f')) (archive_text f stamp (tv_nsec (f_archive_time f'))) i (k_inodes d ! i))"
proof -
  obtain stamp j fs where r: "length stamp = 15" "map_of (k_dir d) (f_name f) = Some j"
    "map_of (k_dir d) (archive_text f stamp (tv_nsec (f_archive_time f'))) = None"
    "grown (f_name f) (dir_remove (f_name f) (k_dir d) @ [(archive_text f stamp (tv_nsec (f_archive_time f')), j)], k_inodes d) fs"
    "files_of d' = fs \<or> purged f' (tv_sec (f_archive_time f')) fs (files_of d')"
    using assms(1) by (auto simp: rotated_def Let_def)
  define a where "a = archive_text f stamp (tv_nsec (f_archive_time f'))"
  let ?now = "tv_sec (f_archive_time f')" and ?fs0 = "(dir_remove (f_name f) (k_dir d) @ [(a, j)], k_inodes d)"
  have g: "grown (f_name f) ?fs0 fs" and p: "purged f' ?now fs (files_of d')" using r(4,5) by (auto simp: a_def)
  have node: "i < length (k_inodes d) \<Longrightarrow> i < length (snd fs) \<and> snd fs ! i = k_inodes d ! i" for i
    using grown_facts(1) [OF g] by simp
  show "i < length (k_inodes d) \<Longrightarrow> i < length (k_inodes d') \<and> i_data (k_inodes d' ! i) = i_data (k_inodes d ! i)"
    using purged_facts(1) [OF p, of i] node [of i] by (simp add: files_of_def)
  have step: "map_of (fst ?fs0) n = Some i \<Longrightarrow> i < length (k_inodes d) \<Longrightarrow> map_of (k_dir d') n = Some i \<or>
      map_of (k_dir d') n = None \<and> expired f' ?now n i (k_inodes d ! i)" for n i
    using grown_facts(2) [OF g] purged_facts(2) [OF p, of n i] node [of i] by (auto simp: files_of_def)
  have na: "a \<noteq> f_name f" using r(2,3) by (auto simp: a_def)
  have look: "map_of (fst ?fs0) n = (if n = f_name f then None else if n = a then Some j else map_of (k_dir d) n)" for n
    using r(3) na by (auto simp: map_add_def map_of_dir_remove a_def split: option.splits)
  show "map_of (k_dir d') name = Some i \<or> map_of (k_dir d') name = None \<and> expired f' ?now name i (k_inodes d ! i)"
    if "name \<noteq> f_name f" "map_of (k_dir d) name = Some i"
  proof -
    have "name \<noteq> a" using that(2) r(3) by (auto simp: a_def)
    then have "map_of (fst ?fs0) name = Some i" using that look by simp
    then show ?thesis using step that(2) assms(2) unfolding dir_ok_def by blast
  qed
  show "\<exists>stamp i. length stamp = 15 \<and> map_of (k_dir d) (f_name f) = Some i \<and>
      map_of (k_dir d) (archive_text f stamp (tv_nsec (f_archive_time f'))) = None \<and>
      (map_of (k_dir d') (archive_text f stamp (tv_nsec (f_archive_time f'))) = Some i \<or>
       expired f' ?now (archive_text f stamp (tv_nsec (f_archive_time f'))) i (k_inodes d ! i))"
  proof -
    have "map_of (fst ?fs0) a = Some j" using na look by simp
    then show ?thesis using step r(1-3) assms(2) unfolding dir_ok_def a_def by blast
  qed
qed

lemma rotate_file_cases:
  assumes "rotate_file f d = (rc, f', d')" "f_name f \<noteq> ''.''"
  shows "binding f' = binding f \<and>
    (files_of d' = files_of d \<and> attachment f' = attachment f \<and> rc \<noteq> 0 \<or> rotated f f' d d' \<and> (rc = 0 \<longrightarrow> \<not> f_detached f'))"
proof -
  let ?f = "upd_metrics (\<lambda>m. m\<lparr>rotation_attempts := rotation_attempts m + 1\<rparr>) f"
  obtain rc1 f1 d1 where c: "rotate_impl ?f d = (rc1, f1, d1)" using prod_cases3 by blast
  have name: "f_name ?f = f_name f" by (simp add: upd_metrics_def)
  have out: "rc = rc1" "d' = d1" "binding f' = binding f1" "attachment f' = attachment f1"
    using assms(1) c by (auto simp: rotate_file_def split: if_splits)
  have "rotated ?f f1 d d1 \<Longrightarrow> rotated f f' d d1"
    using purged_cong [OF out(3,4)] attachment_eqs [OF out(4)] by (simp add: rotated_def name)
  then show ?thesis
    using rotate_impl_files [OF c] assms(2) out attachment_eqs [OF out(4)] name by auto
qed

end
