(* ===== verification/Logger_Fd_Props.thy ===== *)
theory Logger_Fd_Props
  imports Logger_Rotate_Main
begin

text \<open>
  Descriptors across the operations: an open descriptor stays what it is until its owner closes it,
  and a new one was free before.
\<close>

definition fds_kept :: "int set \<Rightarrow> 'a kernel_scheme \<Rightarrow> 'a kernel_scheme \<Rightarrow> bool" where
  "fds_kept closed k k' \<longleftrightarrow> (\<forall>fd x. fd \<notin> closed \<longrightarrow> fd_obj k fd = Some x \<longrightarrow> fd_obj k' fd = Some x)"

lemma fds_keptD: "fds_kept c k k' \<Longrightarrow> fd_obj k fd = Some x \<Longrightarrow> fd \<notin> c \<Longrightarrow> fd_obj k' fd = Some x"
  by (simp add: fds_kept_def)

lemma fds_kept_same: "k_table k' = k_table k \<Longrightarrow> fds_kept c k k'"
  by (simp add: fds_kept_def fd_obj_def)

lemma fds_kept_trans: "fds_kept c k1 k2 \<Longrightarrow> fds_kept c k2 k3 \<Longrightarrow> fds_kept c k1 k3"
  by (auto simp: fds_kept_def)

lemma fds_kept_mono: "fds_kept c k k' \<Longrightarrow> c \<subseteq> c' \<Longrightarrow> fds_kept c' k k'"
  by (auto simp: fds_kept_def)

lemma fd_obj_cong: "k_table k' = k_table k \<Longrightarrow> fd_obj k' fd = fd_obj k fd"
  by (simp add: fd_obj_def)

lemma fds_kept_fresh:
  assumes "fds_kept {} d d1" "fds_kept c d1 d2" "\<And>fd. fd \<in> c \<Longrightarrow> fd_obj d fd = None"
  shows "fds_kept {} d d2"
  unfolding fds_kept_def
proof (intro allI impI)
  fix fd x
  assume "fd_obj d fd = Some x"
  then show "fd_obj d2 fd = Some x" using assms fds_keptD by (metis empty_iff option.distinct(1))
qed

lemma fd_obj_negative [simp]: "fd_obj k (- 1) = None"
  by (simp add: fd_obj_def)

lemma free_fd_free:
  assumes "free_fd t < length t"
  shows "t ! free_fd t = None"
  using nth_length_takeWhile [of "\<lambda>x. x \<noteq> None" t] assms by (simp add: free_fd_def)

lemma free_fd_le: "free_fd t \<le> length t"
  by (simp add: free_fd_def length_takeWhile_le)

lemma install_obj_facts:
  assumes "install_obj x k = (r, k')"
  shows "\<exists>fd. r = Inr fd \<and> 0 \<le> fd \<and> fd_obj k fd = None \<and> fd_obj k' fd = Some x \<and> fds_kept {} k k'"
proof -
  let ?t = "k_table k"
  let ?n = "free_fd ?t"
  have r: "r = Inr (int ?n)" and k': "k_table k' = (if ?n < length ?t then ?t[?n := Some x] else ?t @ [Some x])"
    using assms by (auto simp: install_obj_def Let_def)
  have "fd_obj k (int ?n) = None" by (auto simp: fd_obj_def free_fd_free)
  moreover have "fd_obj k' (int ?n) = Some x"
    using free_fd_le [of ?t] by (auto simp: fd_obj_def k' nth_append)
  moreover have "fds_kept {} k k'"
    using free_fd_free [of ?t] by (auto simp: fds_kept_def fd_obj_def k' nth_append nth_list_update)
  ultimately show ?thesis using r by auto
qed

lemma release_fd_kept: "0 \<le> fd \<Longrightarrow> fds_kept {fd} k (release_fd fd k)"
  by (auto simp: fds_kept_def fd_obj_def release_fd_def nth_list_update)

lemma sys_close_kept: "fds_kept {fd} k (snd (sys_close fd k))"
proof -
  have "fds_kept {fd} k (snd (next_call k))" by (rule fds_kept_same) simp
  then show ?thesis
    using fds_kept_trans [OF _ release_fd_kept, of fd k "snd (next_call k)"]
    by (auto simp: sys_close_def case_prod_beta fd_obj_def split: if_splits)
qed

lemma sys_openat_fd:
  assumes "sys_openat dirfd name flags k = (r, k')"
  shows "fds_kept {} k k' \<and> (\<forall>fd. r = Inr fd \<longrightarrow> 0 \<le> fd \<and> fd_obj k fd = None \<and>
    (\<exists>i. fd_obj k' fd = Some (Node i) \<and> (O_CREAT \<in> set flags \<and> O_EXCL \<in> set flags \<longrightarrow>
       i = length (k_inodes k) \<and> files_of k' = files_of (create_file name k))))"
proof -
  obtain c k1 where c: "next_call k = (c, k1)" by fastforce
  have t: "k_table k1 = k_table k" "files_of k1 = files_of k" using next_call_frame [of k] c by simp_all
  then have same: "fds_kept {} k k1" "fd_obj k1 = fd_obj k" "k_inodes k1 = k_inodes k" "k_dir k1 = k_dir k"
    by (auto simp: fds_kept_same fd_obj_def files_of_def)
  have mk: "files_of (create_file name k1) = files_of (create_file name k)"
    using c by (auto simp: files_of_def create_file_def new_inode_def node_of_def next_call_def split: list.splits)
  have ex: "install_obj x k1 = (r, k') \<Longrightarrow> ?thesis" if "\<And>i. x = Node i \<Longrightarrow> \<not> (O_CREAT \<in> set flags \<and> O_EXCL \<in> set flags)" "\<exists>i. x = Node i" for x
    using that install_obj_facts [of x k1 r k'] same fds_kept_trans [OF same(1)] by auto
  have cr: "install_obj (Node (length (k_inodes k1))) (create_file name k1) = (r, k') \<Longrightarrow> ?thesis"
    using install_obj_facts [of "Node (length (k_inodes k1))" "create_file name k1" r k'] same mk
      files_of_install [of "Node (length (k_inodes k1))" "create_file name k1"]
      fd_obj_cong [of "create_file name k1" k1]
    by (auto simp: fds_kept_def create_file_def)
  show ?thesis
    using assms same(1) c ex cr
    by (auto simp: sys_openat_def syscall_def open_existing_def split: outcome.splits if_splits option.splits)
qed

lemma fork_openat_fd:
  assumes "logger_fork_openat dirfd name flags d = (r, d')"
  shows "fds_kept {} d d' \<and> (\<forall>fd. r = Inr fd \<longrightarrow> 0 \<le> fd \<and> fd_obj d fd = None \<and>
    (\<exists>i. fd_obj d' fd = Some (Node i) \<and> (O_CREAT \<in> set flags \<and> O_EXCL \<in> set flags \<longrightarrow>
       i = length (k_inodes d) \<and> (\<exists>n. i_kind n = Regular \<and> i_nlink n = 1 \<and> i_data n = [] \<and>
         files_of d' = (k_dir d @ [(name, length (k_inodes d))], k_inodes d @ [n])))))"
proof -
  obtain e d1 where c1: "logger_fork_resource_enter d = (e, d1)" by fastforce
  have t1: "k_table d1 = k_table d" "files_of d1 = files_of d" using enter_leave_frame(1,2) [of d] c1 by simp_all
  obtain r2 d2 where c2: "sys_openat dirfd name flags d1 = (r2, d2)" by fastforce
  note o2 = sys_openat_fd [OF c2]
  have base: "fds_kept {} d d1" "fd_obj d1 = fd_obj d" "k_inodes d1 = k_inodes d" "k_dir d1 = k_dir d"
    using t1 by (auto simp: fds_kept_same fd_obj_def files_of_def)
  have mk: "\<exists>n. i_kind n = Regular \<and> i_nlink n = 1 \<and> i_data n = [] \<and>
      files_of (create_file name d1) = (k_dir d @ [(name, length (k_inodes d))], k_inodes d @ [n])"
    using base by (intro exI [of _ "new_inode d1"]) (simp add: files_of_def create_file_def new_inode_def)
  show ?thesis
  proof (cases "e \<noteq> 0")
    case True
    then show ?thesis using assms c1 base by (auto simp: logger_fork_openat_def)
  next
    case False
    then have acq: "acquired r2 d2 = (r, d')" using assms c1 c2 by (simp add: logger_fork_openat_def)
    show ?thesis
    proof (cases r2)
      case (Inl e2)
      then have "k_table d' = k_table d2" "\<exists>e'. r = Inl e'"
        using acq by (auto simp: acquired_def case_prod_beta)
      then show ?thesis using o2 base fds_kept_trans fds_kept_same by blast
    next
      case (Inr fd)
      obtain e3 d3 where c3: "register_fd fd d2 = (e3, d3)" by fastforce
      have t3: "k_table d3 = k_table d2" "files_of d3 = files_of d2" using bitmap_frame(3,4) [of fd d2] c3 by simp_all
      obtain e5 d5 where c5: "logger_fork_resource_leave e3 (if e3 \<noteq> 0 then snd (sys_close fd d3) else d3) = (e5, d5)" by fastforce
      have t5: "k_table d5 = k_table (if e3 \<noteq> 0 then snd (sys_close fd d3) else d3)" "files_of d5 = files_of d3"
        using enter_leave_frame(3,4) [of e3 "if e3 \<noteq> 0 then snd (sys_close fd d3) else d3"] c5 by (auto split: if_splits)
      have out: "r = (if e5 \<noteq> 0 then Inl e5 else Inr fd)" "d' = d5"
        using acq Inr c3 c5 by (auto simp: acquired_def Let_def split: if_splits)
      have e53: "e3 \<noteq> 0 \<Longrightarrow> e5 \<noteq> 0" using c5 by (auto simp: logger_fork_resource_leave_def Let_def split: prod.splits)
      have free: "fd_obj d fd = None" using o2 Inr base by auto
      have "fds_kept {fd} d3 d5" using sys_close_kept [of fd d3] t5(1) by (auto simp: fds_kept_def fd_obj_def split: if_splits)
      moreover have "fds_kept {} d d3" using o2 base fds_kept_same [OF t3(1)] fds_kept_trans by blast
      ultimately have "fds_kept {} d d5" using fds_kept_fresh [of d d3 "{fd}" d5] free by simp
      moreover have "r = Inr fd' \<Longrightarrow> fd' = fd \<and> fd_obj d' fd = fd_obj d2 fd \<and> files_of d' = files_of d2" for fd'
        using out e53 t5 t3 fd_obj_cong [of d5 d2 fd] by (auto split: if_splits)
      ultimately show ?thesis using out o2 Inr base mk by (auto split: if_splits)
    qed
  qed
qed

section \<open>Closing\<close>

lemma fork_close_kept: "fds_kept {fd} d (snd (logger_fork_close fd d))"
proof -
  let ?d1 = "snd (logger_fork_resource_enter d)"
  have "fds_kept {fd} d (snd (sys_close fd (unregister_fd fd ?d1)))"
    using sys_close_kept [of fd "unregister_fd fd ?d1"] by (auto simp: fds_kept_def fd_obj_def)
  moreover have "k_table (snd (logger_fork_close fd d)) \<in> {k_table d, k_table (snd (sys_close fd (unregister_fd fd ?d1)))}"
    by (simp add: logger_fork_close_def Let_def case_prod_beta)
  ultimately show ?thesis by (auto simp: fds_kept_def fd_obj_def)
qed

lemma close_status_kept: "fds_kept {fd_value owner} d (snd (snd (logger_fd_close_status owner d)))"
  using fork_close_kept [of "fd_value owner" d]
  by (auto simp: logger_fd_close_status_def logger_fd_take_def case_prod_beta fds_kept_same split: sum.splits)

lemma cleanup_kept: "fds_kept {fd_value owner} d (logger_fd_cleanup owner d)"
  using close_status_kept by (simp add: logger_fd_cleanup_def)

lemma closedir_kept: "fds_kept {fd} d (snd (logger_fork_closedir fd d))"
proof -
  have "fds_kept {fd} d (snd (sys_close fd (unregister_fd fd d)))"
    using sys_close_kept [of fd "unregister_fd fd d"] by (auto simp: fds_kept_def fd_obj_def)
  moreover have "k_table (snd (logger_fork_closedir fd d)) \<in> {k_table d, k_table (snd (sys_close fd (unregister_fd fd d)))}"
    by (simp add: logger_fork_closedir_def Let_def case_prod_beta)
  ultimately show ?thesis by (auto simp: fds_kept_def fd_obj_def)
qed

text \<open>Retention leaves every descriptor that was open before it.\<close>

lemma unlink_table [simp]: "k_table (snd (sys_unlinkat fd name k)) = k_table k"
  unfolding sys_unlinkat_def by (rule syscall_frame_table) (simp split: option.splits)

lemma retention_loop_table: "k_table (snd (snd (snd (retention_loop f now s names changed d)))) = k_table d"
proof (induction names arbitrary: f changed d)
  case Nil
  show ?case by (simp add: retention_loop.simps case_prod_beta split: sum.splits)
next
  case (Cons name rest)
  then show ?case
    by (simp add: retention_loop.simps [of f now s "name # rest"] case_prod_beta split: sum.splits)
qed

lemma retention_kept:
  assumes "retention f now d = (rc, f', d')"
  shows "fds_kept {} d d'"
proof (cases "retention_days (f_rotation f) = 0")
  case True
  then show ?thesis using assms by (auto simp: retention_def fds_kept_same)
next
  case days: False
  obtain r1 d1 where c1: "logger_fork_openat (file_dir_fd f) ''.'' [O_RDONLY, O_DIRECTORY, O_CLOEXEC] d = (r1, d1)" by fastforce
  note k1 = fork_openat_fd [OF c1]
  show ?thesis
  proof (cases r1)
    case (Inl e)
    then show ?thesis using assms days c1 k1 by (auto simp: retention_def)
  next
    case r1: (Inr dirfd)
    have free: "fd_obj d dirfd = None" using k1 r1 by auto
    obtain r2 fd d2 where c2: "logger_fd_fdopendir (logger_fd_own dirfd) d1 = (r2, fd, d2)" using prod_cases3 by blast
    have t2: "k_table d2 = k_table d1" "fd_value fd \<in> {dirfd, - 1}"
      using c2 by (auto simp: logger_fd_fdopendir_def logger_fd_own_def split: if_splits prod.splits sum.splits)
        (metis close_frame(5) snd_conv)+
    have fold: "fds_kept {dirfd, - 1} d2 x \<Longrightarrow> fds_kept {} d x" for x
      using k1 free fds_kept_same [OF t2(1)] fds_kept_trans fds_kept_fresh [of d d2 "{dirfd, - 1}" x] by fastforce
    have clean: "fds_kept {dirfd, - 1} x (logger_fd_cleanup fd x)" for x
      using fds_kept_mono [OF cleanup_kept [of fd x]] t2(2) by auto
    show ?thesis
    proof (cases r2)
      case (Inl e)
      then have "d' = logger_fd_cleanup fd d2" using assms days c1 c2 r1 by (simp add: retention_def)
      then show ?thesis using fold clean by simp
    next
      case r2: (Inr names)
      obtain rc1 changed f1 d3 where c3:
        "retention_loop f now (int (unat (retention_days (f_rotation f))) * 86400) names False d2 = (rc1, changed, f1, d3)"
        using prod_cases4 by blast
      have t3: "k_table d3 = k_table d2" using retention_loop_table [of f now _ names False d2] c3 by (metis snd_conv)
      obtain closed d4 where c4: "logger_fork_closedir dirfd d3 = (closed, d4)" by fastforce
      have k4: "fds_kept {dirfd, - 1} d2 d4"
        using fds_kept_mono [OF closedir_kept [of dirfd d3], of "{dirfd, - 1}"] c4 t3 by (auto simp: fds_kept_def fd_obj_def)
      have "d' = logger_fd_cleanup fd (if changed then snd (snd (sync_directory (f1\<lparr>f_dir_dirty := True\<rparr>) d4)) else d4)"
        using assms days c1 c2 c3 c4 r1 r2 by (simp add: retention_def Let_def case_prod_beta split: if_splits)
      moreover have "k_table (if changed then snd (snd (sync_directory (f1\<lparr>f_dir_dirty := True\<rparr>) d4)) else d4) = k_table d4"
        by simp
      ultimately have "\<exists>x. k_table x = k_table d4 \<and> d' = logger_fd_cleanup fd x" by blast
      then show ?thesis using fold fds_kept_trans [OF k4] clean fds_kept_same fds_kept_trans by metis
    qed
  qed
qed

end
