(* ===== verification/Logger_File_Inv.thy ===== *)
theory Logger_File_Inv
  imports Logger_Fd_Props
begin

text \<open>
  The invariant of an open log file, and that the write loops append exactly the bytes they report.
\<close>

section \<open>The write loops\<close>

definition appended :: "nat \<Rightarrow> string \<Rightarrow> domain \<Rightarrow> domain \<Rightarrow> bool" where
  "appended i s d d' \<longleftrightarrow> k_dir d' = k_dir d \<and> k_table d' = k_table d \<and> length (k_inodes d') = length (k_inodes d) \<and>
     (\<forall>j. j \<noteq> i \<longrightarrow> k_inodes d' ! j = k_inodes d ! j) \<and>
     i_data (k_inodes d' ! i) = i_data (k_inodes d ! i) @ s \<and> i_kind (k_inodes d' ! i) = i_kind (k_inodes d ! i) \<and>
     i_dev (k_inodes d' ! i) = i_dev (k_inodes d ! i) \<and> i_nlink (k_inodes d' ! i) = i_nlink (k_inodes d ! i)"

lemma appended_refl: "k_dir d' = k_dir d \<Longrightarrow> k_table d' = k_table d \<Longrightarrow> k_inodes d' = k_inodes d \<Longrightarrow> appended i [] d d'"
  by (simp add: appended_def)

lemma appended_trans: "appended i s d d1 \<Longrightarrow> appended i s' d1 d' \<Longrightarrow> appended i (s @ s') d d'"
  by (simp add: appended_def)

text \<open>A descriptor of a regular file.\<close>

definition regular_fd :: "domain \<Rightarrow> int \<Rightarrow> nat \<Rightarrow> bool" where
  "regular_fd d fd i \<longleftrightarrow> fd_obj d fd = Some (Node i) \<and> i < length (k_inodes d) \<and> i_kind (k_inodes d ! i) = Regular"

lemma regular_fd_appended: "regular_fd d fd i \<Longrightarrow> appended i s d d' \<Longrightarrow> regular_fd d' fd i"
  using fd_obj_cong [of d' d fd] by (simp add: regular_fd_def appended_def)

lemma sys_write_appends:
  assumes "sys_write fd p d = (r, d')" "regular_fd d fd i"
  shows "case r of Inl e \<Rightarrow> 0 < e \<and> appended i [] d d' | Inr n \<Rightarrow> n \<le> length p \<and> appended i (take n p) d d'"
proof -
  obtain c d1 where c: "next_call d = (c, d1)" by fastforce
  have same: "k_table d1 = k_table d" "k_dir d1 = k_dir d" "k_inodes d1 = k_inodes d"
    using next_call_frame [of d] c by (simp_all add: files_of_def)
  have obj: "fd_obj d1 fd = Some (Node i)" using assms(2) same fd_obj_cong [of d1 d fd] by (simp add: regular_fd_def)
  have app: "appended i s d (append_data i s d1)" for s
    using assms(2) same by (auto simp: appended_def append_data_def node_of_def regular_fd_def nth_list_update)
  show ?thesis
  proof (cases "transfer c p")
    case (Inl e)
    then have "c = Fail e" by (auto simp: transfer_def split: outcome.splits)
    moreover have "r = Inl e" "d' = d1" using assms(1) c obj Inl by (simp_all add: sys_write_def)
    ultimately show ?thesis using c next_call_Fail [of d e d1] appended_refl same by simp
  next
    case (Inr n)
    then have "n \<le> length p" by (auto simp: transfer_def split: outcome.splits)
    moreover have "r = Inr n" "d' = append_data i (take n p) d1"
      using assms(1) c obj Inr by (simp_all add: sys_write_def)
    ultimately show ?thesis using app by simp
  qed
qed

text \<open>The loop writes a prefix, all of it exactly when it reports success.\<close>

lemma write_all_exact:
  assumes "write_all f fd p w d = (rc, written, f', d')" "regular_fd d fd i"
  shows "\<exists>m\<le>length p. written = w + m \<and> appended i (take m p) d d' \<and> (rc = 0 \<longleftrightarrow> m = length p) \<and>
    binding f' = binding f \<and> attachment f' = attachment f"
  using assms
proof (induction f fd p w d rule: write_all.induct)
  case (1 f fd p w d)
  let ?f1 = "upd_metrics (\<lambda>m. m\<lparr>write_syscalls := write_syscalls m + 1\<rparr>) f"
  show ?case
  proof (cases "p = []")
    case True
    then show ?thesis using 1(3) appended_refl by (auto simp: write_all.simps [of f])
  next
    case ne: False
    obtain r d1 where c: "sys_write fd p d = (r, d1)" by fastforce
    note app = sys_write_appends [OF c 1(4)]
    show ?thesis
    proof (cases r)
      case (Inl e)
      then have a: "0 < e" "appended i [] d d1" using app by simp_all
      show ?thesis
      proof (cases "e = EINTR")
        case True
        let ?f2 = "upd_metrics (\<lambda>m. m\<lparr>interrupted_write_syscalls := interrupted_write_syscalls m + 1\<rparr>) ?f1"
        have "write_all ?f2 fd p w d1 = (rc, written, f', d')"
          using 1(3) ne c Inl True by (simp add: write_all.simps [of f])
        then obtain m where "m \<le> length p" "written = w + m" "appended i (take m p) d1 d'" "rc = 0 \<longleftrightarrow> m = length p"
          "binding f' = binding ?f2" "attachment f' = attachment ?f2"
          using 1(1) [OF ne refl c [symmetric] Inl True] regular_fd_appended [OF 1(4) a(2)] by blast
        then show ?thesis using appended_trans [OF a(2)] by auto
      next
        case False
        then have "written = w" "d' = d1" "rc \<noteq> 0" "binding f' = binding f" "attachment f' = attachment f"
          using 1(3) ne c Inl by (auto simp: write_all.simps [of f])
        then show ?thesis using a ne by auto
      qed
    next
      case (Inr n)
      then have a: "n \<le> length p" "appended i (take n p) d d1" using app by simp_all
      show ?thesis
      proof (cases "n = 0")
        case True
        then have "written = w" "d' = d1" "rc \<noteq> 0" "binding f' = binding f" "attachment f' = attachment f"
          using 1(3) ne c Inr by (auto simp: write_all.simps [of f])
        then show ?thesis using a ne True by auto
      next
        case False
        have "write_all ?f1 fd (drop n p) (w + n) d1 = (rc, written, f', d')"
          using 1(3) ne c Inr False by (simp add: write_all.simps [of f])
        then obtain m where m: "m \<le> length (drop n p)" "written = w + n + m" "appended i (take m (drop n p)) d1 d'"
          "rc = 0 \<longleftrightarrow> m = length (drop n p)" "binding f' = binding ?f1" "attachment f' = attachment ?f1"
          using 1(2) [OF ne refl c [symmetric] Inr False] regular_fd_appended [OF 1(4) a(2)] by blast
        then have "appended i (take (n + m) p) d d'" using appended_trans [OF a(2) m(3)] by (simp add: take_add)
        then show ?thesis using m a(1) by (intro exI [of _ "n + m"]) auto
      qed
    qed
  qed
qed

lemma concat_take_prefix: "\<exists>rest. concat vs = concat (take n vs) @ rest"
  by (metis append_take_drop_id concat_append)

lemma write_vall_exact:
  assumes "write_vall f vs w d = (rc, written, f', d')" "regular_fd d (file_data_fd f) i"
  shows "\<exists>m\<le>length (concat vs). written = w + m \<and> appended i (take m (concat vs)) d d' \<and>
    (rc = 0 \<longleftrightarrow> m = length (concat vs)) \<and> binding f' = binding f \<and> attachment f' = attachment f"
  using assms
proof (induction f vs w d rule: write_vall.induct)
  case (1 f w d)
  then show ?case using appended_refl by auto
next
  case (2 f v vs w d)
  let ?f1 = "upd_metrics (\<lambda>m. m\<lparr>write_syscalls := write_syscalls m + 1\<rparr>) f"
  let ?p = "concat (take (nat (f_iov_max f)) (v # vs))"
  let ?all = "concat (v # vs)"
  have fd1: "file_data_fd (upd_metrics g f) = file_data_fd f" for g f by (simp add: upd_metrics_def file_fds)
  show ?case
  proof (cases "v = []")
    case True
    then have "write_vall f vs w d = (rc, written, f', d')" using 2(4) by (simp add: write_vall.simps(2))
    then show ?thesis using 2(1) [OF True _ 2(5)] True by simp
  next
    case ne: False
    obtain r d1 where c: "sys_write (file_data_fd f) ?p d = (r, d1)" by fastforce
    note app = sys_write_appends [OF c 2(5)]
    show ?thesis
    proof (cases r)
      case (Inl e)
      then have a: "0 < e" "appended i [] d d1" using app by simp_all
      show ?thesis
      proof (cases "e = EINTR")
        case True
        let ?f2 = "upd_metrics (\<lambda>m. m\<lparr>interrupted_write_syscalls := interrupted_write_syscalls m + 1\<rparr>) ?f1"
        have "write_vall ?f2 (v # vs) w d1 = (rc, written, f', d')"
          using 2(4) ne c Inl True by (simp add: write_vall.simps(2) Let_def)
        then obtain m where "m \<le> length ?all" "written = w + m" "appended i (take m ?all) d1 d'" "rc = 0 \<longleftrightarrow> m = length ?all"
          "binding f' = binding ?f2" "attachment f' = attachment ?f2"
          using 2(2) [OF ne refl refl c [symmetric] Inl True] regular_fd_appended [OF 2(5) a(2)] unfolding fd1 by blast
        then show ?thesis using appended_trans [OF a(2)] by auto
      next
        case False
        then have "written = w" "d' = d1" "rc \<noteq> 0" "binding f' = binding f" "attachment f' = attachment f"
          using 2(4) ne c Inl by (auto simp: write_vall.simps(2) Let_def)
        then show ?thesis using a ne by auto
      qed
    next
      case (Inr n)
      obtain rest where rest: "?all = ?p @ rest" using concat_take_prefix by blast
      have a: "n \<le> length ?p" "appended i (take n ?p) d d1" using app Inr by simp_all
      then have n: "n \<le> length ?all" "take n ?all = take n ?p" unfolding rest by simp_all
      show ?thesis
      proof (cases "n = 0")
        case True
        then have "written = w" "d' = d1" "rc \<noteq> 0" "binding f' = binding f" "attachment f' = attachment f"
          using 2(4) ne c Inr by (auto simp: write_vall.simps(2) Let_def)
        then show ?thesis using a ne True by auto
      next
        case False
        let ?vs = "iov_advance n (v # vs)"
        have vs: "concat ?vs = drop n ?all" using concat_iov_advance [OF n(1)] .
        have "write_vall ?f1 ?vs (w + n) d1 = (rc, written, f', d')"
          using 2(4) ne c Inr False by (simp add: write_vall.simps(2) [of f] Let_def)
        then obtain m where m: "m \<le> length (drop n ?all)" "written = w + n + m" "appended i (take m (drop n ?all)) d1 d'"
          "rc = 0 \<longleftrightarrow> m = length (drop n ?all)" "binding f' = binding ?f1" "attachment f' = attachment ?f1"
          using 2(3) [OF ne refl refl c [symmetric] Inr False] regular_fd_appended [OF 2(5) a(2)] unfolding fd1 vs by blast
        have "take (n + m) ?all = take n ?p @ take m (drop n ?all)" unfolding take_add n(2) ..
        then have "appended i (take (n + m) ?all) d d'" using appended_trans [OF a(2) m(3)] by simp
        then show ?thesis using m n(1) by (intro exI [of _ "n + m"]) auto
      qed
    qed
  qed
qed

section \<open>The invariant of an open log file\<close>

text \<open>
  The data descriptor refers to the recorded inode, a regular file, and \<open>current_size\<close> is its
  length (saturated at the word size).
\<close>

definition log_ok :: "logger_file \<Rightarrow> domain \<Rightarrow> bool" where
  "log_ok f d \<longleftrightarrow> f_managed f \<and> f_name f \<noteq> ''.'' \<and> dir_ok d \<and> regular_fd d (file_data_fd f) (f_inode f) \<and>
     i_dev (k_inodes d ! f_inode f) = f_device f \<and>
     unat (f_current_size f) = min (length (i_data (k_inodes d ! f_inode f))) (2 ^ 64 - 1)"

lemma log_ok_valid: "log_ok f d \<Longrightarrow> logger_fd_valid (f_fd f)"
  by (auto simp: log_ok_def regular_fd_def fd_obj_def logger_fd_valid_def file_fds split: if_splits)

lemma log_ok_same:
  assumes "log_ok f d" "files_of d' = files_of d" "fds_kept {} d d'" "binding f' = binding f"
    "file_data_fd f' = file_data_fd f" "f_inode f' = f_inode f" "f_device f' = f_device f" "f_current_size f' = f_current_size f"
  shows "log_ok f' d'"
proof -
  have eqs: "k_dir d' = k_dir d" "k_inodes d' = k_inodes d" using assms(2) by (simp_all add: files_of_def)
  show ?thesis
    using assms binding_eqs [OF assms(4)] fds_keptD [OF assms(3)]
    by (simp add: log_ok_def dir_ok_def regular_fd_def eqs)
qed

section \<open>Switching to a new file\<close>

text \<open>A fresh inode, owned by an exclusive creation.\<close>

definition fresh_log :: "string \<Rightarrow> domain \<Rightarrow> int \<Rightarrow> file_stat \<Rightarrow> domain \<Rightarrow> bool" where
  "fresh_log name d fd st d' \<longleftrightarrow> 0 \<le> fd \<and> fd_obj d fd = None \<and> fds_kept {} d d' \<and>
     fd_obj d' fd = Some (Node (length (k_inodes d))) \<and>
     (\<exists>n. i_kind n = Regular \<and> i_data n = [] \<and> st = stat_of (length (k_inodes d)) n \<and>
        files_of d' = (k_dir d @ [(name, length (k_inodes d))], k_inodes d @ [n]))"

lemma fstat_Inr:
  assumes "sys_fstat fd k = (Inr st, k')" "fd_obj k fd = Some (Node i)"
  shows "i < length (k_inodes k) \<and> st = stat_of i (k_inodes k ! i)"
proof -
  have "fd_obj (snd (next_call k)) fd = Some (Node i)" "k_inodes (snd (next_call k)) = k_inodes k"
    using assms(2) next_call_frame [of k] fd_obj_cong [of "snd (next_call k)" k] by (simp_all add: files_of_def)
  then show ?thesis using assms(1)
    by (auto simp: sys_fstat_def syscall_def node_of_def case_prod_beta split: outcome.splits if_splits)
qed

lemma check_named_fd_Inr:
  assumes "check_named_fd dirfd name fd d = (Inr st, d')" "fd_obj d fd = Some (Node i)"
  shows "st = stat_of i (k_inodes d ! i)"
  using assms fstat_Inr by (fastforce simp: check_named_fd_def split: prod.splits sum.splits if_splits)

lemma fresh_log_frame:
  assumes "fresh_log name d fd st d1" "k_table d' = k_table d1" "files_of d' = files_of d1"
  shows "fresh_log name d fd st d'"
proof -
  have "\<And>x. fd_obj d' x = fd_obj d1 x" "fds_kept {} d1 d'" using assms by (simp_all add: fd_obj_cong [OF assms(2)] fds_kept_same)
  moreover have "fds_kept {} d d1" using assms(1) by (simp add: fresh_log_def)
  ultimately show ?thesis using assms(1,3) fds_kept_trans [of "{}" d d1 d'] unfolding fresh_log_def by simp
qed

lemma fresh_log_before:
  assumes "fresh_log name d1 fd st d'" "k_table d1 = k_table d" "files_of d1 = files_of d"
  shows "fresh_log name d fd st d'"
proof -
  have "k_dir d1 = k_dir d" "k_inodes d1 = k_inodes d" "\<And>x. fd_obj d1 x = fd_obj d x" "fds_kept {} d d1"
    using assms by (simp_all add: files_of_def fd_obj_cong [OF assms(2)] fds_kept_same)
  moreover have "fds_kept {} d1 d'" using assms(1) by (simp add: fresh_log_def)
  ultimately show ?thesis using assms(1) fds_kept_trans [of "{}" d d1 d'] unfolding fresh_log_def by simp
qed

lemma open_candidate_fresh:
  assumes "open_candidate f True d = (Inr (fd, st), f', d')" "f_managed f"
  shows "fresh_log (f_name f) d (fd_value fd) st d'"
proof -
  let ?flags = "[O_WRONLY, O_APPEND, O_CLOEXEC, O_NOFOLLOW, O_NONBLOCK, O_CREAT, O_EXCL]"
  obtain rc d1 where c1: "check_owner f d = (rc, d1)" by fastforce
  obtain r2 d2 where c2: "logger_fork_openat (file_dir_fd f) (f_name f) ?flags d1 = (r2, d2)" by fastforce
  obtain cand where r2: "r2 = Inr cand" "fd = logger_fd_own cand"
    using assms c1 c2 by (auto simp: open_candidate_def Let_def split: if_splits sum.splits prod.splits)
  have c3: "check_named_fd (file_dir_fd f) (f_name f) cand d2 = (Inr st, d')"
    using assms c1 c2 r2
    by (auto simp: open_candidate_def Let_def logger_fd_number_def logger_fd_own_def split: if_splits sum.splits prod.splits)
  have s1: "files_of d1 = files_of d" "k_table d1 = k_table d" using check_frame2(1,2) [of f d] c1 by simp_all
  then have e1: "k_dir d1 = k_dir d" "k_inodes d1 = k_inodes d" "\<And>x. fd_obj d1 x = fd_obj d x" "fds_kept {} d d1"
    by (simp_all add: files_of_def fd_obj_cong [OF s1(2)] fds_kept_same)
  have s3: "files_of d' = files_of d2" "k_table d' = k_table d2"
    using check_frame(3,4) [of "file_dir_fd f" "f_name f" cand d2] c3 by simp_all
  obtain n where n: "0 \<le> cand" "fd_obj d cand = None" "fds_kept {} d1 d2" "fd_obj d2 cand = Some (Node (length (k_inodes d)))"
    "i_kind n = Regular" "i_data n = []" "files_of d2 = (k_dir d @ [(f_name f, length (k_inodes d))], k_inodes d @ [n])"
    using fork_openat_fd [OF c2] r2 e1 by auto
  have "st = stat_of (length (k_inodes d)) (k_inodes d2 ! length (k_inodes d))" using check_named_fd_Inr [OF c3 n(4)] .
  then have "st = stat_of (length (k_inodes d)) n" using n(7) by (simp add: files_of_def)
  then show ?thesis
    using n e1(4) fds_kept_trans [of "{}" d d1 d2]
    by (intro fresh_log_frame [OF _ s3(2,1)]) (auto simp: fresh_log_def r2(2) logger_fd_own_def)
qed

lemma open_next_fresh:
  assumes "open_next f t d = (Inr (fd, st, day), f', d')" "f_managed f"
  shows "fresh_log (f_name f) d (fd_value fd) st d'"
proof -
  obtain rc f1 d1 where c1: "sync_directory f d = (rc, f1, d1)" using prod_cases3 by blast
  obtain r2 d2 where c2: "wall_day (tv_sec t) d1 = (r2, d2)" by fastforce
  obtain r3 f3 d3 where c3: "open_candidate f1 True d2 = (r3, f3, d3)" using prod_cases3 by blast
  obtain rc4 f4 d4 where c4: "sync_data f3 (logger_fd_number fd) d3 = (rc4, f4, d4)" using prod_cases3 by blast
  obtain rc5 f5 d5 where c5: "sync_directory f4 d4 = (rc5, f5, d5)" using prod_cases3 by blast
  have s45: "files_of d5 = files_of d3" "k_table d5 = k_table d3"
    using sync_frame(1,2) [of f3 "logger_fd_number fd" d3] sync_frame(3,4) [of f4 d4] c4 c5 by simp_all
  have r3: "r3 = Inr (fd, st)" and "d' = d5"
    using assms(1) c1 c2 c3 c4 c5 by (auto simp: open_next_def split: if_splits sum.splits prod.splits)
  then have out: "files_of d' = files_of d3" "k_table d' = k_table d3" using s45 by simp_all
  have b1: "binding f1 = binding f" using sync_keep(3) [of f d] c1 by simp
  have s: "files_of d2 = files_of d" "k_table d2 = k_table d"
    using sync_frame(3,4) [of f d] check_frame(1,2) [of "tv_sec t" d1] c1 c2 by simp_all
  have "fresh_log (f_name f) d2 (fd_value fd) st d3"
    using open_candidate_fresh [OF c3 [unfolded r3]] binding_eqs [OF b1] assms(2) by simp
  then show ?thesis using fresh_log_frame fresh_log_before s out by metis
qed

end
