(* ===== verification/Logger_File_Props.thy ===== *)
theory Logger_File_Props
  imports Logger_File_Inv
begin

text \<open>The file backend's operations keep the invariant of the open log and write what they report.\<close>

section \<open>Descriptors during a switch\<close>

lemma open_candidate_kept: "fds_kept {} d (snd (snd (open_candidate f x d)))"
proof -
  obtain rc d1 where c1: "check_owner f d = (rc, d1)" by fastforce
  have k1: "fds_kept {} d d1" using check_frame2(2) [of f d] c1 by (simp add: fds_kept_same)
  define flags where "flags = [O_WRONLY, O_APPEND, O_CLOEXEC, O_NOFOLLOW, O_NONBLOCK] @
    (if f_managed f then [O_CREAT] else []) @ (if x then [O_EXCL] else [])"
  obtain r2 d2 where c2: "logger_fork_openat (file_dir_fd f) (f_name f) flags d1 = (r2, d2)" by fastforce
  note o2 = fork_openat_fd [OF c2]
  have k2: "fds_kept {} d d2" using o2 k1 fds_kept_trans by blast
  have free: "r2 = Inr cand \<Longrightarrow> fd_obj d cand = None" for cand
    using o2 check_frame2(2) [of f d] c1 fd_obj_cong [of d1 d cand] by simp
  have clean: "r2 = Inr cand \<Longrightarrow> k_table d3 = k_table d2 \<Longrightarrow> fds_kept {} d (logger_fd_cleanup (logger_fd_own cand) d3)" for cand d3
    using fds_kept_fresh [OF fds_kept_trans [OF k2 fds_kept_same], of d3 "{cand}"] free cleanup_kept [of "logger_fd_own cand" d3]
    by (simp add: logger_fd_own_def)
  have named: "k_table (snd (check_named_fd a b c d2)) = k_table d2" for a b c by simp
  show ?thesis
    using c1 c2 k1 k2 clean [OF _ named] fds_kept_trans [OF k2 fds_kept_same [OF named]]
    by (auto simp: open_candidate_def Let_def flags_def case_prod_beta split: sum.splits)
qed

lemma open_next_kept: "fds_kept {} d (snd (snd (open_next f t d)))"
proof -
  obtain rc f1 d1 where c1: "sync_directory f d = (rc, f1, d1)" using prod_cases3 by blast
  obtain r2 d2 where c2: "wall_day (tv_sec t) d1 = (r2, d2)" by fastforce
  obtain r3 f3 d3 where c3: "open_candidate f1 True d2 = (r3, f3, d3)" using prod_cases3 by blast
  have t2: "k_table d1 = k_table d" "k_table d2 = k_table d"
    using sync_frame(4) [of f d] check_frame(2) [of "tv_sec t" d1] c1 c2 by simp_all
  have k3: "fds_kept {} d d3"
    using open_candidate_kept [of d2 f1 True] c3 fds_kept_trans [OF fds_kept_same [OF t2(2)]] by simp
  show ?thesis
  proof (cases "rc = 0 \<and> (\<exists>day. r2 = Inr day) \<and> (\<exists>y. r3 = Inr y)")
    case False
    then show ?thesis using c1 c2 c3 t2 k3 by (auto simp: open_next_def fds_kept_same split: sum.splits)
  next
    case True
    then obtain day fd st where ok: "rc = 0" "r2 = Inr day" "r3 = Inr (fd, st)" by auto
    obtain rc4 f4 d4 where c4: "sync_data f3 (logger_fd_number fd) d3 = (rc4, f4, d4)" using prod_cases3 by blast
    obtain rc5 f5 d5 where c5: "(if rc4 = 0 then sync_directory f4 d4 else (rc4, f4, d4)) = (rc5, f5, d5)" using prod_cases3 by blast
    have "k_table d4 = k_table d3" by (metis c4 snd_conv sync_frame(2))
    moreover have "k_table (snd (snd (if rc4 = 0 then sync_directory f4 d4 else (rc4, f4, d4)))) = k_table d4" by simp
    ultimately have t5: "k_table d5 = k_table d3" unfolding c5 by simp
    have free: "fd_obj d (fd_value fd) = None" if "0 \<le> fd_value fd"
    proof -
      have "\<exists>cand d2' r. logger_fork_openat (file_dir_fd f1) (f_name f1) r (snd (check_owner f1 d2)) = (Inr cand, d2') \<and> fd = logger_fd_own cand"
        using c3 ok by (auto simp: open_candidate_def Let_def split: if_splits sum.splits prod.splits)
      then show ?thesis
        using fork_openat_fd t2 fd_obj_cong [of "snd (check_owner f1 d2)" d "fd_value fd"] by (fastforce simp: logger_fd_own_def)
    qed
    have "fds_kept {} d (snd (snd (logger_fd_close_status fd d5)))"
    proof (cases "0 \<le> fd_value fd")
      case True
      then show ?thesis
        using fds_kept_fresh [OF fds_kept_trans [OF k3 fds_kept_same [OF t5]] close_status_kept [of fd d5]] free by simp
    next
      case False
      then show ?thesis using fds_kept_trans [OF k3 fds_kept_same [OF t5]] by (simp add: logger_fd_close_status_def logger_fd_take_def)
    qed
    then show ?thesis
      using c1 c2 c3 c4 c5 ok fds_kept_trans [OF k3 fds_kept_same [OF t5]]
      by (auto simp: open_next_def split: if_splits prod.splits)
  qed
qed

section \<open>Rotation keeps the invariant\<close>

lemma dir_ok_rotated:
  assumes "rotated f f' d d'" "dir_ok d"
  shows "dir_ok d'"
proof -
  obtain a j fs where r: "map_of (k_dir d) (f_name f) = Some j"
    "grown (f_name f) (dir_remove (f_name f) (k_dir d) @ [(a, j)], k_inodes d) fs"
    "files_of d' = fs \<or> purged f' (tv_sec (f_archive_time f')) fs (files_of d')"
    using assms(1) by (auto simp: rotated_def Let_def)
  have p: "purged f' (tv_sec (f_archive_time f')) fs (files_of d')" using r(3) by auto
  have "map_of (fst fs) name = Some i \<Longrightarrow> i < length (snd fs)" for name i
    using r(1,2) assms(2)
    by (auto simp: grown_def dir_ok_def map_add_Some_iff map_of_dir_remove split: if_splits option.splits)
      (metis less_SucI)+
  then show ?thesis
    using p unfolding dir_ok_def purged_def files_of_def by (metis fst_conv snd_conv list_all2_lengthD option.distinct(1))
qed

definition new_log :: "logger_file \<Rightarrow> domain \<Rightarrow> logger_file \<Rightarrow> domain \<Rightarrow> bool" where
  "new_log f d f' d' \<longleftrightarrow> f_inode f' = length (k_inodes d) \<and> i_data (k_inodes d' ! f_inode f') = [] \<and>
     f_current_size f' = 0 \<and> \<not> f_detached f'"

lemma log_ok_grown:
  assumes "log_ok f d" "fds_kept {} d d'" "dir_ok d'" "binding f' = binding f"
    "file_data_fd f' = file_data_fd f" "f_inode f' = f_inode f" "f_device f' = f_device f" "f_current_size f' = f_current_size f"
    "length (k_inodes d) \<le> length (k_inodes d')"
    "k_inodes d' ! f_inode f = k_inodes d ! f_inode f"
  shows "log_ok f' d'"
  using assms(1,3,9,10) assms(5-8) binding_eqs [OF assms(4)] fds_keptD [OF assms(2)]
  by (simp add: log_ok_def regular_fd_def)

lemma rotate_impl_log:
  assumes "rotate_impl f d = (rc, f', d')" "log_ok f d"
  shows "log_ok f' d' \<and> (f_inode f' = f_inode f \<and> rc \<noteq> 0 \<or> new_log f d f' d')"
proof -
  have name: "f_name f \<noteq> ''.''" and dir: "dir_ok d" and i: "f_inode f < length (k_inodes d)"
    and fd: "fd_obj d (file_data_fd f) = Some (Node (f_inode f))" and man: "f_managed f"
    using assms(2) by (simp_all add: log_ok_def regular_fd_def)
  show ?thesis
    using assms(1) name
  proof (cases rule: rotate_impl_stages)
    case kept
    then show ?thesis
      using log_ok_same [OF assms(2), of d' f'] attachment_eqs [of f' f] fds_kept_same by auto
  next
    case (stuck t f2 d4 f3)
    have a: "binding f2 = binding f" "f_detached f2" "file_data_fd f2 = file_data_fd f" "f_inode f2 = f_inode f"
      "f_device f2 = f_device f" "f_current_size f2 = f_current_size f" "k_table d4 = k_table d" "f_archive_time f2 = t"
      "k_inodes d4 = k_inodes d"
      using stuck(1) by (auto simp: archived_def files_of_def)
    have b3: "binding f3 = binding f2" "attachment f3 = attachment f2" using open_next_keep [of f2 t d4] stuck(2) by simp_all
    have g: "grown (f_name f) (files_of d4) (files_of d')"
      using open_next_grown [of f2 d4 t] stuck(2) binding_eqs(1) [OF a(1)] by simp
    have rot: "rotated f f' d d'"
      by (rule archived_rotated [OF stuck(1) g]) (use a attachment_eqs [OF b3(2)] stuck(3) in auto)
    have "fds_kept {} d d'"
      using open_next_kept [of d4 f2 t] stuck(2) fds_kept_trans [OF fds_kept_same [OF a(7)]] by simp
    moreover have "length (k_inodes d) \<le> length (k_inodes d')" "k_inodes d' ! f_inode f = k_inodes d ! f_inode f"
      using g a(9) i by (auto simp: grown_def files_of_def nth_append)
    ultimately have "log_ok f' d'"
      using attachment_eqs [OF b3(2)] a b3 stuck(3)
      by (intro log_ok_grown [OF assms(2) _ dir_ok_rotated [OF rot dir]]) (simp_all add: file_fds)
    then show ?thesis using attachment_eqs(3) [OF b3(2)] a(4) stuck(3) open_next_errno [OF stuck(2)] by simp
  next
    case (switched t f2 d4 candidate st day f3 d5 close_rc o6 d6)
    have a: "binding f2 = binding f" "file_data_fd f2 = file_data_fd f" "k_table d4 = k_table d" "f_archive_time f2 = t"
      "k_inodes d4 = k_inodes d"
      using switched(1) by (auto simp: archived_def files_of_def)
    have b3: "binding f3 = binding f2" "attachment f3 = attachment f2" using open_next_keep [of f2 t d4] switched(2) by simp_all
    have man3: "f_managed f3" "f_name f3 = f_name f" using binding_eqs [OF b3(1)] binding_eqs [OF a(1)] man by simp_all
    obtain n where n: "0 \<le> fd_value candidate" "fd_obj d4 (fd_value candidate) = None" "fds_kept {} d4 d5"
      "fd_obj d5 (fd_value candidate) = Some (Node (length (k_inodes d)))" "i_kind n = Regular" "i_data n = []"
      "st = stat_of (length (k_inodes d)) n" "k_inodes d5 = k_inodes d @ [n]"
      using open_next_fresh [OF switched(2)] binding_eqs [OF a(1)] man a(5) by (auto simp: fresh_log_def files_of_def)
    have old: "f_fd f3 = \<lparr>fd_value = file_data_fd f\<rparr>"
      using attachment_eqs(1) [OF b3(2)] a(2) by (cases "f_fd f3") (simp add: file_fds)
    have differ: "fd_value candidate \<noteq> file_data_fd f"
      using n(2) fd fd_obj_cong [OF a(3)] by (metis option.distinct(1))
    have k6: "fds_kept {file_data_fd f} d5 d6"
      using close_status_kept [of "fst (logger_fd_move (f_fd f3))" d5] switched(3) old
      by (simp add: logger_fd_move_def logger_fd_take_def logger_fd_own_def)
    define f4 where "f4 = install_fd (f3\<lparr>f_fd := snd (logger_fd_move (f_fd f3))\<rparr>) candidate st day"
    have f4: "file_data_fd f4 = fd_value candidate" "f_inode f4 = length (k_inodes d)" "f_device f4 = i_dev n"
      "f_current_size f4 = 0" "\<not> f_detached f4" "binding f4 = binding f" "f_archive_time f4 = t"
      using n(6,7) a b3 attachment_eqs(8) [OF b3(2)]
      by (simp_all add: f4_def) (simp_all add: install_fd_def file_fds logger_fd_move_def logger_fd_take_def logger_fd_own_def stat_of_def)
    have f6: "files_of d6 = files_of d5" by (metis close_frame(6) snd_conv switched(3))
    have fin: "binding f' = binding f4 \<and> attachment f' = attachment f4 \<and> purged f4 (tv_sec t) (files_of d5) (files_of d') \<and> fds_kept {} d6 d'"
      using switched(4) retention_purged [of f4 "tv_sec t" d6 rc f' d'] retention_kept [of f4 "tv_sec t" d6 rc f' d'] f6
      unfolding f4_def [symmetric] by (auto split: if_splits simp: fds_kept_same)
    have at: "file_data_fd f' = fd_value candidate" "f_inode f' = length (k_inodes d)" "f_device f' = i_dev n"
      "f_current_size f' = 0" "\<not> f_detached f'" "binding f' = binding f" "f_archive_time f' = t"
      using attachment_eqs [of f' f4] fin f4 by auto
    have g: "grown (f_name f) (files_of d4) (files_of d5)"
      using open_next_grown [of f2 d4 t] switched(2) binding_eqs(1) [OF a(1)] by simp
    have rot: "rotated f f' d d'"
      by (rule archived_rotated [OF switched(1) g at(7)]) (use at fin purged_cong [of f' f4] in auto)
    have obj: "fd_obj d' (fd_value candidate) = Some (Node (length (k_inodes d)))"
      using fds_keptD [OF k6 n(4)] differ fin fds_keptD by fastforce
    have node: "length (k_inodes d) < length (k_inodes d') \<and> node_kept n (k_inodes d' ! length (k_inodes d))"
      using fin n(8) by (auto simp: purged_def files_of_def list_all2_conv_all_nth dest: spec [of _ "length (k_inodes d)"])
    then have kn: "i_kind (k_inodes d' ! length (k_inodes d)) = Regular" "i_data (k_inodes d' ! length (k_inodes d)) = []"
      "i_dev (k_inodes d' ! length (k_inodes d)) = i_dev n"
      using n(5,6) by (auto simp: node_kept_def)
    have "log_ok f' d'"
      using at binding_eqs [OF at(6)] man name dir_ok_rotated [OF rot dir] obj node kn
      by (simp add: log_ok_def regular_fd_def)
    then show ?thesis using at kn by (simp add: new_log_def)
  qed
qed

section \<open>Preparing a write\<close>

definition contents_kept :: "domain \<Rightarrow> domain \<Rightarrow> bool" where
  "contents_kept d d' \<longleftrightarrow> (\<forall>i<length (k_inodes d). i < length (k_inodes d') \<and> i_data (k_inodes d' ! i) = i_data (k_inodes d ! i))"

lemma contents_kept_same: "files_of d' = files_of d \<Longrightarrow> contents_kept d d'"
  by (simp add: contents_kept_def files_of_def)

lemma log_ok_metrics [simp]: "log_ok (upd_metrics g f) d = log_ok f d"
  by (simp add: log_ok_def upd_metrics_def file_fds)

lemma new_log_metrics [simp]: "new_log (upd_metrics g f) = new_log f" "new_log f d (upd_metrics g f') d' = new_log f d f' d'"
  by (intro ext) (simp_all add: new_log_def upd_metrics_def)

lemma rotate_file_log:
  assumes "rotate_file f d = (rc, f', d')" "log_ok f d"
  shows "log_ok f' d' \<and> binding f' = binding f \<and> contents_kept d d' \<and> (f_inode f' = f_inode f \<and> rc \<noteq> 0 \<or> new_log f d f' d')"
proof -
  let ?f = "upd_metrics (\<lambda>m. m\<lparr>rotation_attempts := rotation_attempts m + 1\<rparr>) f"
  obtain rc1 f1 d1 where c: "rotate_impl ?f d = (rc1, f1, d1)" using prod_cases3 by blast
  have out: "rc = rc1" "d' = d1" "attachment f' = attachment f1" "\<exists>g. f' = upd_metrics g f1"
    using assms(1) c by (auto simp: rotate_file_def split: if_splits)
  have "f_inode ?f = f_inode f" by (simp add: upd_metrics_def)
  then have log: "log_ok f' d' \<and> (f_inode f' = f_inode f \<and> rc \<noteq> 0 \<or> new_log f d f' d')"
    using rotate_impl_log [OF c] assms(2) out attachment_eqs(3) [OF out(3)] by auto
  have name: "f_name f \<noteq> ''.''" and dir: "dir_ok d" using assms(2) by (simp_all add: log_ok_def)
  note cases = rotate_file_cases [OF assms(1) name]
  have "rotated f f' d d' \<Longrightarrow> contents_kept d d'" unfolding contents_kept_def using rotated_facts(1) [OF _ dir] by blast
  then have "contents_kept d d'" using cases contents_kept_same by blast
  moreover have "binding f' = binding f" using cases by blast
  ultimately show ?thesis using log by simp
qed

lemma wall_dayD: "wall_day sec d = (r, d') \<Longrightarrow> files_of d' = files_of d \<and> k_table d' = k_table d"
  by (metis snd_conv check_frame(1,2))

lemma prepare_write_log:
  assumes "prepare_write f n t d = (rc, f', d')" "log_ok f d"
  shows "log_ok f' d' \<and> binding f' = binding f \<and> contents_kept d d' \<and>
    (f_inode f' = f_inode f \<and> (rc = 0 \<longrightarrow> \<not> f_detached f' \<and> f_current_size f' = f_current_size f \<and>
       (internal_rotation f \<and> n \<noteq> 0 \<longrightarrow> \<not> size_due f n)) \<or> new_log f d f' d') \<and>
    (f_detached f \<longrightarrow> rc \<noteq> 0 \<and> files_of d' = files_of d \<and> f_inode f' = f_inode f)"
proof -
  have keep: "log_ok f d1" "contents_kept d d1" if "files_of d1 = files_of d" "k_table d1 = k_table d" for d1
    using log_ok_same [OF assms(2) that(1) fds_kept_same [OF that(2)] refl refl refl refl refl] contents_kept_same [OF that(1)] by simp_all
  have switch: "switch_rc f \<noteq> 0" by (simp add: switch_rc_def)
  have valid: "logger_fd_valid (f_fd f)" using log_ok_valid [OF assms(2)] .
  show ?thesis
  proof (cases t)
    case None
    then show ?thesis using assms valid keep [of d] by (auto simp: prepare_write_def)
  next
    case (Some ts)
    show ?thesis
    proof (cases "tv_nsec ts < 0 \<or> 1000000000 \<le> tv_nsec ts \<or> SSIZE_MAX < n \<or> f_detached f \<or> \<not> internal_rotation f \<or> n = 0")
      case True
      then show ?thesis using assms valid Some keep [of d] switch by (auto simp: prepare_write_def split: if_splits)
    next
      case False
      obtain r d1 where c: "(if rot_mode (f_rotation f) = LOGGER_ROTATE_DAILY \<or> rot_mode (f_rotation f) = LOGGER_ROTATE_SIZE_DAILY
           then case wall_day (tv_sec ts) d of
             (Inl rc, d1) \<Rightarrow> (Inl rc, d1)
           | (Inr day, d1) \<Rightarrow> (Inr (day \<noteq> f_current_day f \<and> f_current_size f \<noteq> 0), d1)
           else (Inr False, d)) = (r, d1)" by fastforce
      have s1: "files_of d1 = files_of d" "k_table d1 = k_table d"
        using c by (auto dest: wall_dayD split: if_splits prod.splits sum.splits)
      have go: "(case r of Inl rc \<Rightarrow> (rc, f, d1) | Inr day \<Rightarrow> if size_due f n \<or> day then rotate_file f d1 else (0, f, d1)) = (rc, f', d')"
        using assms(1) valid Some False c by (simp add: prepare_write_def split: sum.splits)
      show ?thesis
      proof (cases r)
        case (Inl rc1)
        then have "rc1 \<noteq> 0" using c wall_day_errno by (fastforce split: if_splits prod.splits sum.splits)
        then show ?thesis using go Inl keep [OF s1] False by auto
      next
        case (Inr day)
        show ?thesis
        proof (cases "size_due f n \<or> day")
          case True
          then have "rotate_file f d1 = (rc, f', d')" using go Inr by simp
          from rotate_file_log [OF this keep(1) [OF s1]]
          have "log_ok f' d'" "binding f' = binding f" "contents_kept d1 d'" "f_inode f' = f_inode f \<and> rc \<noteq> 0 \<or> new_log f d1 f' d'"
            by auto
          moreover have "k_inodes d1 = k_inodes d" using s1 by (simp add: files_of_def)
          ultimately show ?thesis using False by (auto simp: contents_kept_def new_log_def)
        next
          case no: False
          then show ?thesis using go Inr keep [OF s1] False by auto
        qed
      qed
    qed
  qed
qed

end
