(* ===== verification/Logger_File_Main.thy ===== *)
theory Logger_File_Main
  imports Logger_File_Props
begin

text \<open>The properties of the file backend.\<close>

section \<open>Writing\<close>

text \<open>
  \<open>wrote f d s rc f' d'\<close>: writing \<open>s\<close> returned \<open>rc\<close>. A prefix of \<open>s\<close> went to the end of the active file,
  which is the one open before or a newly created one, and no other content changed.
\<close>

definition wrote :: "logger_file \<Rightarrow> domain \<Rightarrow> string \<Rightarrow> int \<Rightarrow> logger_file \<Rightarrow> domain \<Rightarrow> bool" where
  "wrote f d s rc f' d' \<longleftrightarrow> log_ok f' d' \<and> (\<exists>m\<le>length s.
     (f_inode f' = f_inode f \<and> (\<forall>i<length (k_inodes d). i < length (k_inodes d') \<and>
        i_data (k_inodes d' ! i) = i_data (k_inodes d ! i) @ (if i = f_inode f then take m s else [])) \<or>
      f_inode f' = length (k_inodes d) \<and> contents_kept d d' \<and> i_data (k_inodes d' ! f_inode f') = take m s) \<and>
     (rc = 0 \<longrightarrow> m = length s \<and> \<not> f_detached f') \<and> (f_detached f \<longrightarrow> rc \<noteq> 0 \<and> m = 0))"

lemma finish_write_facts:
  assumes "finish_write rc written sync f d = (rc', f', d')"
  shows "files_of d' = files_of d \<and> k_table d' = k_table d \<and> binding f' = binding f \<and>
    attachment f' = attachment (f\<lparr>f_current_size := sat_add (f_current_size f) (of_nat written)\<rparr>) \<and>
    (rc' = 0 \<longrightarrow> rc = 0)"
proof -
  obtain rc2 f2 d2 where c: "(if rc = 0 \<and> sync then logger_file_sync (account f written) d else (rc, account f written, d)) = (rc2, f2, d2)"
    using prod_cases3 by blast
  have "files_of (snd (snd (if rc = 0 \<and> sync then logger_file_sync (account f written) d else (rc, account f written, d)))) = files_of d"
    "k_table (snd (snd (if rc = 0 \<and> sync then logger_file_sync (account f written) d else (rc, account f written, d)))) = k_table d"
    "binding (fst (snd (if rc = 0 \<and> sync then logger_file_sync (account f written) d else (rc, account f written, d)))) = binding (account f written)"
    "attachment (fst (snd (if rc = 0 \<and> sync then logger_file_sync (account f written) d else (rc, account f written, d)))) = attachment (account f written)"
    by simp_all
  then have k: "files_of d2 = files_of d" "k_table d2 = k_table d" "binding f2 = binding f"
    "attachment f2 = attachment (f\<lparr>f_current_size := sat_add (f_current_size f) (of_nat written)\<rparr>)"
    unfolding c by (simp_all add: account_def)
  have "rc2 = 0 \<Longrightarrow> rc = 0" using c by (auto split: if_splits)
  then show ?thesis using assms c k by (auto simp: finish_write_def Let_def split: if_splits)
qed

lemma sat_size:
  assumes "unat (c :: size_t) = min l (2 ^ 64 - 1)" "m < 2 ^ 64"
  shows "unat (sat_add c (of_nat m)) = min (l + m) (2 ^ 64 - 1)"
proof -
  have "unat (of_nat m :: size_t) = m" using assms(2) by (simp add: unsigned_of_nat take_bit_nat_eq_self)
  then show ?thesis using assms(1) by (simp add: unat_sat_add)
qed

lemma write_core:
  assumes ok: "log_ok f d" and prep: "prepare_write f n t d = (rc1, f1, d1)"
    and skip: "rc1 \<noteq> 0 \<Longrightarrow> (rc2, written, f2, d2) = (rc1, 0, f1, d1)"
    and body: "rc1 = 0 \<Longrightarrow> regular_fd d1 (file_data_fd f1) (f_inode f1) \<Longrightarrow> \<exists>m\<le>length s. written = m \<and>
      appended (f_inode f1) (take m s) d1 d2 \<and> (rc2 = 0 \<longleftrightarrow> m = length s) \<and> binding f2 = binding f1 \<and> attachment f2 = attachment f1"
    and len: "length s < 2 ^ 64" and fin: "finish_write rc2 written sync f2 d2 = (rc, f', d')"
  shows "wrote f d s rc f' d'"
proof -
  have p: "log_ok f1 d1" "binding f1 = binding f" "contents_kept d d1"
    "f_inode f1 = f_inode f \<and> (rc1 = 0 \<longrightarrow> \<not> f_detached f1) \<or> new_log f d f1 d1"
    "f_detached f \<longrightarrow> rc1 \<noteq> 0 \<and> files_of d1 = files_of d \<and> f_inode f1 = f_inode f"
    using prepare_write_log [OF prep ok] by auto
  have reg: "regular_fd d1 (file_data_fd f1) (f_inode f1)" using p(1) by (simp add: log_ok_def)
  obtain m where m: "m \<le> length s" "written = m" "appended (f_inode f1) (take m s) d1 d2" "rc1 \<noteq> 0 \<longrightarrow> m = 0 \<and> rc2 = rc1"
    "rc2 = 0 \<longrightarrow> m = length s \<and> rc1 = 0" "binding f2 = binding f1" "attachment f2 = attachment f1"
  proof (cases "rc1 = 0")
    case True
    then show ?thesis using body [OF True reg] that by blast
  next
    case False
    then show ?thesis using skip [OF False] appended_refl [of d1 d1] that [of 0] by simp
  qed
  note fw = finish_write_facts [OF fin]
  note a2 = attachment_eqs [OF m(7)]
  have a': "file_data_fd f' = file_data_fd f1" "f_inode f' = f_inode f1" "f_device f' = f_device f1" "f_detached f' = f_detached f1"
    "f_current_size f' = sat_add (f_current_size f1) (of_nat m)"
    using fw a2 m(2) by (auto simp: attachment_def file_fds)
  have e: "k_dir d' = k_dir d2" "k_inodes d' = k_inodes d2" "k_table d' = k_table d2"
    using fw by (simp_all add: files_of_def)
  have app: "appended (f_inode f1) (take m s) d1 d'" using m(3) e by (simp add: appended_def)
  have len1: "min (length (take m s)) m = m" using m(1) by simp
  have log': "log_ok f' d'"
  proof -
    have "unat (f_current_size f') = min (length (i_data (k_inodes d' ! f_inode f'))) (2 ^ 64 - 1)"
      using sat_size [of "f_current_size f1" "length (i_data (k_inodes d1 ! f_inode f1))" m] p(1) a' app m(1) len
      by (simp add: log_ok_def appended_def)
    moreover have "dir_ok d'" using p(1) app by (simp add: log_ok_def dir_ok_def appended_def)
    ultimately show ?thesis
      using p(1) a' app regular_fd_appended [OF reg app] binding_eqs [of f' f1] fw m(6) by (simp add: log_ok_def appended_def)
  qed
  have data: "i_data (k_inodes d' ! i) = i_data (k_inodes d1 ! i) @ (if i = f_inode f1 then take m s else [])" for i
    using app by (auto simp: appended_def)
  have lenq: "length (k_inodes d') = length (k_inodes d1)" using app by (simp add: appended_def)
  have place: "f_inode f' = f_inode f \<and> (\<forall>i<length (k_inodes d). i < length (k_inodes d') \<and>
        i_data (k_inodes d' ! i) = i_data (k_inodes d ! i) @ (if i = f_inode f then take m s else [])) \<or>
      f_inode f' = length (k_inodes d) \<and> contents_kept d d' \<and> i_data (k_inodes d' ! f_inode f') = take m s"
    using p(3,4) data lenq a'(2) unfolding contents_kept_def new_log_def by auto
  moreover have "rc = 0 \<longrightarrow> m = length s \<and> \<not> f_detached f'"
    using fw m(5) p(4) a'(4) by (auto simp: new_log_def)
  moreover have "f_detached f \<longrightarrow> rc \<noteq> 0 \<and> m = 0" using p(5) m(4) fw by auto
  ultimately show ?thesis using log' m(1) unfolding wrote_def by blast
qed

lemma wrote_metrics [simp]: "wrote (upd_metrics g f) = wrote f"
  by (intro ext) (simp add: wrote_def upd_metrics_def)

lemma file_write_wrote:
  assumes "logger_file_write f (Some p) n t sync d = (rc, f', d')" "log_ok f d" "unat n \<le> length p"
  shows "wrote f d (take (unat n) p) rc f' d'"
proof -
  let ?f = "upd_metrics (\<lambda>m. m\<lparr>write_operations := write_operations m + 1\<rparr>) f"
  define s where "s = take (unat n) p"
  obtain rc1 f1 d1 where c1: "prepare_write ?f n t d = (rc1, f1, d1)" using prod_cases3 by blast
  obtain rc2 w f2 d2 where c2: "(if rc1 = 0 then write_all f1 (file_data_fd f1) s 0 d1 else (rc1, 0, f1, d1)) = (rc2, w, f2, d2)"
    using prod_cases4 by blast
  have fin: "finish_write rc2 w sync f2 d2 = (rc, f', d')"
    using assms(1) c1 c2 by (simp add: logger_file_write_def s_def split: if_splits)
  have len: "length s < 2 ^ 64" using unsigned_less [of n, where 'a = nat] by (simp add: s_def)
  have "wrote ?f d s rc f' d'"
    using write_core [OF _ c1 _ _ len fin] c2 write_all_exact [of f1 "file_data_fd f1" s 0 d1 rc2 w f2 d2] assms(2)
    by (auto split: if_splits)
  then show ?thesis by (simp add: s_def)
qed

lemma iov_total_sum: "iov_total a vs = Some n \<Longrightarrow> n = a + length (concat vs)"
  by (induction a vs rule: iov_total.induct) (auto split: if_splits)

lemma file_writev_wrote:
  assumes "logger_file_writev f v n t sync d = (rc, f', d')" "log_ok f d" "unat n = length (concat v)"
    "iov_total 0 v = Some (unat n)"
  shows "wrote f d (concat v) rc f' d'"
proof -
  let ?f = "upd_metrics (\<lambda>m. m\<lparr>write_operations := write_operations m + 1\<rparr>) f"
  obtain rc1 f1 d1 where c1: "prepare_write ?f n t d = (rc1, f1, d1)" using prod_cases3 by blast
  obtain rc2 w f2 d2 where c2: "(if rc1 = 0 then write_vall f1 v 0 d1 else (rc1, 0, f1, d1)) = (rc2, w, f2, d2)"
    using prod_cases4 by blast
  have fin: "finish_write rc2 w sync f2 d2 = (rc, f', d')"
    using assms(1,4) c1 c2 by (simp add: logger_file_writev_def)
  have len: "length (concat v) < 2 ^ 64" using unsigned_less [of n, where 'a = nat] assms(3) by simp
  have "wrote ?f d (concat v) rc f' d'"
    using write_core [OF _ c1 _ _ len fin] c2 write_vall_exact [of f1 v 0 d1 rc2 w f2 d2] assms(2)
    by (auto split: if_splits)
  then show ?thesis by simp
qed

section \<open>The size limit\<close>

lemma not_due_size:
  assumes "\<not> size_due f n" "rot_mode (f_rotation f) \<in> {LOGGER_ROTATE_SIZE, LOGGER_ROTATE_SIZE_DAILY}"
    "max_file_size (f_rotation f) \<noteq> 0" "unat (f_current_size f) = min l (2 ^ 64 - 1)"
  shows "l + unat n \<le> max (unat (max_file_size (f_rotation f))) (unat n)"
proof (cases "f_current_size f = 0")
  case True
  then show ?thesis using assms(4) by (simp add: min_def split: if_splits)
next
  case False
  let ?max = "max_file_size (f_rotation f)" and ?cur = "f_current_size f"
  have lt: "?cur < ?max" and le: "n \<le> ?max - ?cur"
    using assms(1-3) False by (auto simp: size_due_def Let_def not_le not_less)
  have "unat ?cur < unat ?max" using lt by (simp add: word_less_nat_alt)
  moreover have "unat (?max - ?cur) = unat ?max - unat ?cur" using lt by (simp add: unat_sub)
  moreover have "unat n \<le> unat (?max - ?cur)" using le by (simp add: word_le_nat_alt)
  moreover have "unat ?max \<le> 2 ^ 64 - 1" using unsigned_less [of ?max, where 'a = nat] by simp
  ultimately show ?thesis using assms(4) by (simp add: min_def split: if_splits)
qed

lemma file_write_prepared:
  assumes "logger_file_write f (Some p) n t sync d = (rc, f', d')" "log_ok f d"
  shows "\<exists>rc1 f1 d1. prepare_write (upd_metrics (\<lambda>m. m\<lparr>write_operations := write_operations m + 1\<rparr>) f) n t d = (rc1, f1, d1) \<and>
    f_inode f' = f_inode f1 \<and> (rc = 0 \<longrightarrow> rc1 = 0)"
proof -
  let ?f = "upd_metrics (\<lambda>m. m\<lparr>write_operations := write_operations m + 1\<rparr>) f"
  define s where "s = take (unat n) p"
  obtain rc1 f1 d1 where c1: "prepare_write ?f n t d = (rc1, f1, d1)" using prod_cases3 by blast
  obtain rc2 w f2 d2 where c2: "(if rc1 = 0 then write_all f1 (file_data_fd f1) s 0 d1 else (rc1, 0, f1, d1)) = (rc2, w, f2, d2)"
    using prod_cases4 by blast
  have fin: "finish_write rc2 w sync f2 d2 = (rc, f', d')"
    using assms(1) c1 c2 by (simp add: logger_file_write_def s_def split: if_splits)
  have "log_ok f1 d1" using prepare_write_log [OF c1] assms(2) by simp
  then have "regular_fd d1 (file_data_fd f1) (f_inode f1)" by (simp add: log_ok_def)
  then have "attachment f2 = attachment f1" "rc2 = 0 \<longrightarrow> rc1 = 0"
    using c2 write_all_exact [of f1 "file_data_fd f1" s 0 d1 rc2 w f2 d2] by (auto split: if_splits)
  then have "f_inode f' = f_inode f1" "rc = 0 \<longrightarrow> rc1 = 0"
    using finish_write_facts [OF fin] by (auto simp: attachment_def)
  then show ?thesis using c1 by blast
qed

section \<open>Archive names\<close>

text \<open>The ranges \<^verbatim>\<open>gmtime_r\<close> documents for the fields it fills in.\<close>

definition tm_ok :: "tm \<Rightarrow> bool" where
  "tm_ok t \<longleftrightarrow> 0 \<le> tm_mon t \<and> tm_mon t \<le> 11 \<and> 1 \<le> tm_mday t \<and> tm_mday t \<le> 31 \<and> 0 \<le> tm_hour t \<and> tm_hour t \<le> 23 \<and>
     0 \<le> tm_min t \<and> tm_min t \<le> 59 \<and> 0 \<le> tm_sec t \<and> tm_sec t \<le> 60"

lemma dec_digit_digit: "d < 10 \<Longrightarrow> dec_digit (digit d)"
  by (simp add: dec_digit_def digit_def)

lemma dec_nat_digits: "list_all dec_digit (dec_nat n)"
  by (induction n rule: dec_nat.induct) (subst dec_nat.simps, auto simp: dec_digit_digit)

lemma dec_nat_length: "n < 10 ^ w \<Longrightarrow> 0 < w \<Longrightarrow> length (dec_nat n) \<le> w"
proof (induction w arbitrary: n)
  case 0
  then show ?case by simp
next
  case (Suc w)
  show ?case
  proof (cases "n < 10")
    case True
    then show ?thesis by (simp add: dec_nat.simps [of n])
  next
    case False
    then have "w \<noteq> 0" using Suc.prems by (cases w) auto
    moreover have "n div 10 < 10 ^ w" using Suc.prems(1) by (simp add: less_mult_imp_div_less mult.commute)
    ultimately have "length (dec_nat (n div 10)) \<le> w" using Suc.IH by simp
    then show ?thesis using False by (simp add: dec_nat.simps [of n])
  qed
qed

lemma dec_nat_nonempty [simp]: "dec_nat n \<noteq> []"
  by (subst dec_nat.simps) simp

lemma zero_padded_digits:
  assumes "0 \<le> x" "x < 10 ^ w" "0 < w"
  shows "list_all dec_digit (zero_padded w x) \<and> length (zero_padded w x) = w"
proof -
  have "nat x < 10 ^ w" using assms by (metis nat_less_iff of_nat_numeral of_nat_power)
  then have "length (dec_nat (nat x)) \<le> w" using dec_nat_length assms(3) by blast
  then show ?thesis using assms(1) dec_nat_digits by (auto simp: zero_padded_def list_all_iff dec_digit_def)
qed

lemma stamp_shape:
  assumes "length (stamp_text tm) = 15" "tm_ok tm" "- 1900 \<le> tm_year tm"
  shows "\<exists>a b. stamp_text tm = a @ ''T'' @ b \<and> length a = 8 \<and> length b = 6 \<and> list_all dec_digit (a @ b)"
proof -
  let ?a = "dec_int (tm_year tm + 1900) @ zero_padded 2 (tm_mon tm + 1) @ zero_padded 2 (tm_mday tm)"
  let ?b = "zero_padded 2 (tm_hour tm) @ zero_padded 2 (tm_min tm) @ zero_padded 2 (tm_sec tm)"
  have z: "list_all dec_digit (zero_padded 2 x) \<and> length (zero_padded 2 x) = 2" if "0 \<le> x" "x \<le> 60" for x
    using zero_padded_digits [of x 2] that by simp
  have zs: "list_all dec_digit (zero_padded 2 (tm_mon tm + 1)) \<and> length (zero_padded 2 (tm_mon tm + 1)) = 2"
    "list_all dec_digit (zero_padded 2 (tm_mday tm)) \<and> length (zero_padded 2 (tm_mday tm)) = 2"
    "list_all dec_digit (zero_padded 2 (tm_hour tm)) \<and> length (zero_padded 2 (tm_hour tm)) = 2"
    "list_all dec_digit (zero_padded 2 (tm_min tm)) \<and> length (zero_padded 2 (tm_min tm)) = 2"
    "list_all dec_digit (zero_padded 2 (tm_sec tm)) \<and> length (zero_padded 2 (tm_sec tm)) = 2"
    by (rule z; use assms(2) in \<open>simp add: tm_ok_def\<close>)+
  have y: "list_all dec_digit (dec_int (tm_year tm + 1900))"
    using assms(3) dec_nat_digits by (simp add: dec_int_def)
  have "stamp_text tm = ?a @ ''T'' @ ?b" by (simp add: stamp_text_def)
  moreover have "length ?b = 6" using zs by simp
  moreover have "length ?a = 8" using assms(1) zs by (simp add: stamp_text_def)
  moreover have "list_all dec_digit (?a @ ?b)" using zs y by simp
  ultimately show ?thesis by blast
qed

lemma archive_text_matches:
  assumes "stamp = a @ ''T'' @ b" "length a = 8" "length b = 6" "list_all dec_digit (a @ b)"
    "0 \<le> nsec" "nsec < 1000000000"
  shows "archive_matches f (archive_text f stamp nsec)"
proof -
  let ?z = "zero_padded 6 (c_div nsec 1000)"
  have "0 \<le> c_div nsec 1000" "c_div nsec 1000 < 10 ^ 6" using assms(5,6) by (auto simp: c_div_def)
  then have z: "list_all dec_digit ?z" "length ?z = 6" using zero_padded_digits [of "c_div nsec 1000" 6] by simp_all
  define p where "p = stamp @ ''.'' @ ?z @ ''Z'' @ f_ext f"
  have atext: "archive_text f stamp nsec = f_stem f @ ''.'' @ p" by (simp add: archive_text_def p_def)
  have d: "\<And>i. i < 8 \<Longrightarrow> dec_digit (a ! i)" "\<And>i. i < 6 \<Longrightarrow> dec_digit (b ! i)" "\<And>i. i < 6 \<Longrightarrow> dec_digit (?z ! i)"
  proof -
    have "list_all dec_digit a" "list_all dec_digit b" using assms(4) by simp_all
    then show "\<And>i. i < 8 \<Longrightarrow> dec_digit (a ! i)" "\<And>i. i < 6 \<Longrightarrow> dec_digit (b ! i)" "\<And>i. i < 6 \<Longrightarrow> dec_digit (?z ! i)"
      using assms(2,3) z by (simp_all add: list_all_length)
  qed
  have nth: "p ! i = (if i < 8 then a ! i else if i = 8 then CHR ''T'' else if i < 15 then b ! (i - 9)
      else if i = 15 then CHR ''.'' else if i < 22 then ?z ! (i - 16) else CHR ''Z'')" if "i < 23" for i
    using that assms(1-3) z unfolding p_def by (auto simp: nth_append nth_Cons')
  have "archive_char i (p ! i)" if "i < 23" for i
    using that d by (auto simp: archive_char_def nth)
  then have "list_all (\<lambda>i. archive_char i (p ! i)) [0..<23]" by (simp add: list_all_iff)
  moreover have "drop 23 p = f_ext f" "length p = 23 + length (f_ext f)" using assms(1-3) z by (simp_all add: p_def)
  ultimately show ?thesis
    using assms(1-3) z unfolding archive_matches_def atext Let_def by (simp add: nth_append)
qed

text \<open>The calendar function does not depend on the state.\<close>

lemma gmtime_frame [simp]:
  "k_gmtime (snd (pthread_call d)) = k_gmtime d" "k_gmtime (waited d) = k_gmtime d"
  "k_gmtime (logger_fork_resource_poison e d) = k_gmtime d"
  by (simp_all add: pthread_call_def waited_def logger_fork_resource_poison_def update_runtime_def Let_def split: list.splits)

lemma gmtime_libc [simp]:
  "k_gmtime (snd (libc_begin d)) = k_gmtime d" "k_gmtime (snd (libc_end e d)) = k_gmtime d"
  by (simp_all add: libc_begin_def libc_end_def Let_def case_prod_beta)

lemma gmtime_result:
  "k_gmtime (snd (logger_libc_gmtime_r sec d)) = k_gmtime d"
  "logger_libc_gmtime_r sec d = (Inr tm, d') \<Longrightarrow> k_gmtime d sec = Inr tm"
proof -
  show "k_gmtime (snd (logger_libc_gmtime_r sec d)) = k_gmtime d"
    by (simp add: logger_libc_gmtime_r_def libc_call_def case_prod_beta)
  have "k_gmtime (snd (libc_begin d)) = k_gmtime d" by simp
  then show "logger_libc_gmtime_r sec d = (Inr tm, d') \<Longrightarrow> k_gmtime d sec = Inr tm"
    by (auto simp: logger_libc_gmtime_r_def libc_call_def case_prod_beta split: if_splits)
qed

lemma archive_name_stamp:
  assumes "archive_name f t cap d = (Inr name, d')"
  shows "\<exists>tm. k_gmtime d (tv_sec t) = Inr tm \<and> name = archive_text f (stamp_text tm) (tv_nsec t) \<and> length (stamp_text tm) = 15 \<and>
      - 1900 \<le> tm_year tm \<and> 0 \<le> tv_nsec t \<and> tv_nsec t < 1000000000 \<and> length name < cap"
proof -
  have print: "logger_libc_snprintf s k = (Inr out, k') \<Longrightarrow> out = s" for s k out k'
    by (auto simp: logger_libc_snprintf_def logger_libc_vsnprintf_def libc_call_def syscall_def
        split: prod.splits if_splits sum.splits outcome.splits)
  have time: "logger_libc_strftime c s k = (out, k') \<Longrightarrow> length out = 15 \<Longrightarrow> out = s" for c s k out k'
    by (auto simp: logger_libc_strftime_def Let_def split: prod.splits if_splits)
  obtain tm d1 where valid: "timestamp_valid t d = (True, d1)" "logger_libc_gmtime_r (tv_sec t) d = (Inr tm, d1)"
    "- 1900 \<le> tm_year tm" "0 \<le> tv_nsec t" "tv_nsec t < 1000000000"
    using assms by (auto simp: archive_name_def timestamp_valid_def split: prod.splits sum.splits if_splits)
  obtain tm2 d2 where gm: "logger_libc_gmtime_r (tv_sec t) d1 = (Inr tm2, d2)"
    using assms valid(1) by (auto simp: archive_name_def split: prod.splits sum.splits if_splits)
  have "k_gmtime d (tv_sec t) = Inr tm" "k_gmtime d1 (tv_sec t) = Inr tm2" "k_gmtime d1 = k_gmtime d"
    using gmtime_result(2) [OF valid(2)] gmtime_result(2) [OF gm] gmtime_result(1) [of "tv_sec t" d] valid(2) by simp_all
  then have tm2: "tm2 = tm" by simp
  obtain stamp d3 where st: "logger_libc_strftime 32 (stamp_text tm) d2 = (stamp, d3)" by fastforce
  have "length stamp = 15" using assms valid(1) gm tm2 st by (auto simp: archive_name_def split: if_splits)
  moreover have "name = archive_text f stamp (tv_nsec t)" "length name < cap"
    using assms valid(1) gm tm2 st by (auto simp: archive_name_def dest!: print split: if_splits prod.splits sum.splits)
  ultimately show ?thesis using valid time [OF st] \<open>k_gmtime d (tv_sec t) = Inr tm\<close> by auto
qed

section \<open>A sample log\<close>

definition sample_runtime :: logger_runtime where
  "sample_runtime = \<lparr>initialized = 5, resource_error = 0, owned_fds = [56], owned_count = 3, allocations = [],
     allocation_count = 0, live_objects = 1, global_logger = None, global_ticket = 0, global_lock_error = 0,
     console_config = 0, console_lock_error = 0\<rparr>"

definition sample_inode :: "file_kind \<Rightarrow> string \<Rightarrow> inode" where
  "sample_inode kd s = \<lparr>i_kind = kd, i_dev = 1, i_nlink = 1, i_data = s, i_mtime = 0\<rparr>"

definition sample_domain :: "outcome list \<Rightarrow> domain" where
  "sample_domain calls = \<lparr>k_calls = calls, k_locks = [],
     k_table = [Some (Node 3), Some (Node 3), Some (Node 3), Some (Node 0), Some (Node 1), Some (Node 2)],
     k_dir = [(''app.log.logger.lock'', 1), (''app.log'', 2)],
     k_inodes = [sample_inode Directory [], sample_inode Regular [], sample_inode Regular ''old'', sample_inode CharDevice []],
     k_flocks = [(1, HeldBy 4)], k_tick = 0,
     k_realtime = (\<lambda>_. \<lparr>tv_sec = 1704067200, tv_nsec = 0\<rparr>), k_monotonic = (\<lambda>_. \<lparr>tv_sec = 5, tv_nsec = 0\<rparr>),
     k_localtime = (\<lambda>_. Inr \<lparr>tm_year = 124, tm_mon = 0, tm_mday = 1, tm_hour = 0, tm_min = 0, tm_sec = 0\<rparr>),
     k_gmtime = (\<lambda>_. Inr \<lparr>tm_year = 124, tm_mon = 0, tm_mday = 1, tm_hour = 0, tm_min = 0, tm_sec = 0\<rparr>),
     k_name_max = 255, k_iov_max = 1024, k_pid = 7, k_stderr = [], k_sent = [], k_cwd = ''/srv'',
     k_sig_blocked = False, k_sig_pending = False, k_sig_raised = 0,
     owner_pid = 7, forked_child = False, process_ticket = PROCESS_READY, initializing = False, handlers_registered = True,
     current = Some sample_runtime, retained_bootstrap = None, in_gate = False, prepared = False, prepare_error = 0,
     child_error = 0, child_valid = False, snapshot_fds = [], fork_depth = 0, directory_lease = None, child_bitmap = [],
     entered = False, libc_prepared = False, in_runtime = False, in_global = False, next_address = 0, poisons = []\<rparr>"

definition sample_log :: logger_file where
  "sample_log = LOGGER_FILE_EMPTY\<lparr>f_path := ''app.log'', f_name := ''app.log'', f_lock_name := ''app.log.logger.lock'',
     f_stem := ''app'', f_ext := ''.log'', f_rotation := \<lparr>rot_mode = LOGGER_ROTATE_SIZE, max_file_size = 4, retention_days = 0\<rparr>,
     f_mode := 0x1A0, f_fd := \<lparr>fd_value = 5\<rparr>, f_dir_fd := \<lparr>fd_value = 3\<rparr>, f_lock_fd := \<lparr>fd_value = 4\<rparr>,
     f_managed := True, f_current_size := 3, f_current_day := 20240101, f_device := 1, f_inode := 2, f_iov_max := 1024\<rparr>"

lemma sample_log_ok: "log_ok sample_log (sample_domain calls)"
  by (auto simp: log_ok_def dir_ok_def regular_fd_def fd_obj_def file_fds sample_log_def LOGGER_FILE_EMPTY_def
      sample_domain_def sample_inode_def min_def split: if_splits)

section \<open>Properties\<close>

text \<open>C17. \<^verbatim>\<open>logger_file_write\<close> on an open log file, whatever calls fail, are interrupted or transfer part of
  the data: a prefix of the buffer is appended to the active file, which is the file that was open
  or one newly created by rotation; no other content of any file changes; the code 0 means that the
  whole buffer was appended and the backend is attached; a detached backend (whose file is already
  an archive) refuses and writes nothing; the open log keeps its invariant, in which
  \<open>current_size\<close> is the true length of the active file.\<close>

theorem file_write_correct:
  assumes "log_ok f d" "unat n \<le> length p" "logger_file_write f (Some p) n t sync d = (rc, f', d')"
  shows "wrote f d (take (unat n) p) rc f' d'"
  using file_write_wrote [OF assms(3,1,2)] .

theorem file_write_correct_witness:
  "\<exists>rc f' d'. logger_file_write sample_log (Some ''new'') 3 (Some \<lparr>tv_sec = 0, tv_nsec = 0\<rparr>) True (sample_domain []) = (rc, f', d') \<and>
     rc = 0 \<and> wrote sample_log (sample_domain []) ''new'' 0 f' d'"
proof -
  obtain rc f' d' where w: "logger_file_write sample_log (Some ''new'') 3 (Some \<lparr>tv_sec = 0, tv_nsec = 0\<rparr>) True (sample_domain []) = (rc, f', d')"
    using prod_cases3 by blast
  have "fst (logger_file_write sample_log (Some ''new'') 3 (Some \<lparr>tv_sec = 0, tv_nsec = 0\<rparr>) True (sample_domain [])) = 0"
    by code_simp
  then have "rc = 0" using w by simp
  then show ?thesis using w file_write_correct [OF sample_log_ok _ w] by simp
qed

text \<open>C18. \<^verbatim>\<open>logger_file_writev\<close> writes a vector with the same guarantee as one buffer holding the
  concatenation of its entries, at most \<^verbatim>\<open>iov_max\<close> entries a call and across partial transfers in the
  middle of an entry.\<close>

theorem file_writev_correct:
  assumes "log_ok f d" "iov_total 0 v = Some (unat n)" "logger_file_writev f v n t sync d = (rc, f', d')"
  shows "wrote f d (concat v) rc f' d'"
  using file_writev_wrote [OF assms(3,1) _ assms(2)] iov_total_sum [OF assms(2)] by simp

theorem file_writev_correct_witness:
  "\<exists>rc f' d'. logger_file_writev sample_log [''a'', ''bc''] 3 (Some \<lparr>tv_sec = 0, tv_nsec = 0\<rparr>) False (sample_domain [Short 2]) = (rc, f', d') \<and>
     wrote sample_log (sample_domain [Short 2]) ''abc'' rc f' d'"
proof -
  obtain rc f' d' where w: "logger_file_writev sample_log [''a'', ''bc''] 3 (Some \<lparr>tv_sec = 0, tv_nsec = 0\<rparr>) False (sample_domain [Short 2]) = (rc, f', d')"
    using prod_cases3 by blast
  then show ?thesis using file_writev_correct [OF sample_log_ok _ w] by simp
qed

text \<open>C19. Rotation loses no log, whatever fails on the way: the contents of all existing files stay;
  a name other than the active one still names its file, or was an archive of this log that
  retention removed because it had expired; the active file keeps its name, or is found under an
  archive name that was free before (or had itself expired).\<close>

theorem rotation_preserves_logs:
  assumes "rotate_file f d = (rc, f', d')" "f_name f \<noteq> ''.''" "dir_ok d"
  shows "contents_kept d d' \<and>
    (\<forall>name i. name \<noteq> f_name f \<and> map_of (k_dir d) name = Some i \<longrightarrow> map_of (k_dir d') name = Some i \<or>
       expired f' (tv_sec (f_archive_time f')) name i (k_inodes d ! i)) \<and>
    (\<forall>i. map_of (k_dir d) (f_name f) = Some i \<longrightarrow> map_of (k_dir d') (f_name f) = Some i \<or>
       (\<exists>a. map_of (k_dir d) a = None \<and>
          (map_of (k_dir d') a = Some i \<or> expired f' (tv_sec (f_archive_time f')) a i (k_inodes d ! i))))"
proof -
  consider (kept) "files_of d' = files_of d" | (rot) "rotated f f' d d'"
    using rotate_file_cases [OF assms(1,2)] by blast
  then show ?thesis
  proof cases
    case kept
    then show ?thesis using contents_kept_same [OF kept] by (simp add: files_of_def)
  next
    case rot
    have "contents_kept d d'" unfolding contents_kept_def using rotated_facts(1) [OF rot assms(3)] by blast
    moreover note rotated_facts(2) [OF rot assms(3)]
    moreover obtain stamp i where "map_of (k_dir d) (f_name f) = Some i"
      "map_of (k_dir d) (archive_text f stamp (tv_nsec (f_archive_time f'))) = None"
      "map_of (k_dir d') (archive_text f stamp (tv_nsec (f_archive_time f'))) = Some i \<or>
       expired f' (tv_sec (f_archive_time f')) (archive_text f stamp (tv_nsec (f_archive_time f'))) i (k_inodes d ! i)"
      using rotated_facts(3) [OF rot assms(3)] by blast
    ultimately show ?thesis by (metis option.inject)
  qed
qed

theorem rotation_preserves_logs_witness:
  "contents_kept (sample_domain []) (snd (snd (rotate_file sample_log (sample_domain [])))) \<and>
   k_dir (snd (snd (rotate_file sample_log (sample_domain [])))) =
     [(''app.log.logger.lock'', 1), (''app.20240101T000000.000000Z.log'', 2), (''app.log'', 4)]"
proof -
  obtain rc f' d' where r: "rotate_file sample_log (sample_domain []) = (rc, f', d')" using prod_cases3 by blast
  have "f_name sample_log \<noteq> ''.''" "dir_ok (sample_domain [])" using sample_log_ok [of "[]"] by (simp_all add: log_ok_def)
  then have "contents_kept (sample_domain []) d'" using rotation_preserves_logs [OF r] by blast
  moreover have "k_dir (snd (snd (rotate_file sample_log (sample_domain [])))) =
     [(''app.log.logger.lock'', 1), (''app.20240101T000000.000000Z.log'', 2), (''app.log'', 4)]" by code_simp
  ultimately show ?thesis using r by simp
qed

text \<open>C20. With a size limit, a successful write of a non-empty record leaves an active file within the
  limit, unless the record alone exceeds it (then it is the only one in the file).\<close>

theorem size_limit_holds:
  assumes "log_ok f d" "rot_mode (f_rotation f) \<in> {LOGGER_ROTATE_SIZE, LOGGER_ROTATE_SIZE_DAILY}"
    "max_file_size (f_rotation f) \<noteq> 0" "n \<noteq> 0" "unat n \<le> length p"
    "logger_file_write f (Some p) n t sync d = (0, f', d')"
  shows "length (i_data (k_inodes d' ! f_inode f')) \<le> max (unat (max_file_size (f_rotation f))) (unat n)"
proof -
  let ?f = "upd_metrics (\<lambda>m. m\<lparr>write_operations := write_operations m + 1\<rparr>) f"
  obtain f1 d1 where c1: "prepare_write ?f n t d = (0, f1, d1)" "f_inode f' = f_inode f1"
    using file_write_prepared [OF assms(6,1)] by auto
  have w: "wrote f d (take (unat n) p) 0 f' d'" using file_write_wrote [OF assms(6,1,5)] .
  have i: "f_inode f < length (k_inodes d)" and cur: "unat (f_current_size f) = min (length (i_data (k_inodes d ! f_inode f))) (2 ^ 64 - 1)"
    using assms(1) by (simp_all add: log_ok_def regular_fd_def)
  have due: "size_due ?f n = size_due f n" "internal_rotation ?f = internal_rotation f" "internal_rotation f" "f_inode ?f = f_inode f"
    using assms(2) by (auto simp: size_due_def upd_metrics_def internal_rotation_def)
  have "\<not> size_due f n" if "f_inode f' = f_inode f"
    using prepare_write_log [OF c1(1)] assms(1,4) due that c1(2) i by (auto simp: new_log_def)
  then have "length (i_data (k_inodes d ! f_inode f)) + unat n \<le> max (unat (max_file_size (f_rotation f))) (unat n)"
    if "f_inode f' = f_inode f"
    using not_due_size [OF _ assms(2,3) cur] that by blast
  then show ?thesis using w i assms(5) by (auto simp: wrote_def)
qed

theorem size_limit_holds_witness:
  "\<exists>f' d'. logger_file_write sample_log (Some ''new'') 3 (Some \<lparr>tv_sec = 0, tv_nsec = 0\<rparr>) False (sample_domain []) = (0, f', d') \<and>
     length (i_data (k_inodes d' ! f_inode f')) \<le> 4"
proof -
  obtain rc f' d' where w: "logger_file_write sample_log (Some ''new'') 3 (Some \<lparr>tv_sec = 0, tv_nsec = 0\<rparr>) False (sample_domain []) = (rc, f', d')"
    using prod_cases3 by blast
  have "fst (logger_file_write sample_log (Some ''new'') 3 (Some \<lparr>tv_sec = 0, tv_nsec = 0\<rparr>) False (sample_domain [])) = 0"
    by code_simp
  then have "rc = 0" using w by simp
  then show ?thesis
    using w size_limit_holds [OF sample_log_ok _ _ _ _ w [unfolded \<open>rc = 0\<close>]] by (simp add: sample_log_def LOGGER_FILE_EMPTY_def)
qed

text \<open>C21. Round trip of archive names: every name \<^verbatim>\<open>archive_name\<close> produces is recognised by
  \<^verbatim>\<open>archive_matches\<close>, when \<^verbatim>\<open>gmtime_r\<close> fills its fields within their documented ranges.\<close>

theorem archive_name_recognised:
  assumes "\<forall>sec tm. k_gmtime d sec = Inr tm \<longrightarrow> tm_ok tm" "archive_name f t cap d = (Inr name, d')"
  shows "archive_matches f name \<and> name \<noteq> f_stem f @ f_ext f \<and> length name < cap"
proof -
  obtain tm where tm: "k_gmtime d (tv_sec t) = Inr tm" "name = archive_text f (stamp_text tm) (tv_nsec t)"
    "length (stamp_text tm) = 15" "- 1900 \<le> tm_year tm" "0 \<le> tv_nsec t" "tv_nsec t < 1000000000" "length name < cap"
    using archive_name_stamp [OF assms(2)] by blast
  then obtain a b where "stamp_text tm = a @ ''T'' @ b" "length a = 8" "length b = 6" "list_all dec_digit (a @ b)"
    using stamp_shape assms(1) by blast
  then have "archive_matches f name" using archive_text_matches tm by blast
  then show ?thesis using archive_matches_length [of f name] tm(7) by auto
qed

theorem archive_name_recognised_witness:
  "\<exists>name d'. archive_name sample_log \<lparr>tv_sec = 9, tv_nsec = 1234567\<rparr> 256 (sample_domain []) = (Inr name, d') \<and>
     name = ''app.20240101T000000.001234Z.log'' \<and> archive_matches sample_log name"
proof -
  obtain r d' where r: "archive_name sample_log \<lparr>tv_sec = 9, tv_nsec = 1234567\<rparr> 256 (sample_domain []) = (r, d')" by fastforce
  have "fst (archive_name sample_log \<lparr>tv_sec = 9, tv_nsec = 1234567\<rparr> 256 (sample_domain [])) = Inr ''app.20240101T000000.001234Z.log''"
    by code_simp
  then have "r = Inr ''app.20240101T000000.001234Z.log''" using r by simp
  then show ?thesis
    using r archive_name_recognised [of "sample_domain []" sample_log "\<lparr>tv_sec = 9, tv_nsec = 1234567\<rparr>" 256]
    by (simp add: sample_domain_def tm_ok_def)
qed

end
