(* ===== verification/Logger_Process.thy ===== *)
theory Logger_Process
  imports Logger_Fork_Fd
begin

text \<open>
  \<^verbatim>\<open>src/logger_runtime.c\<close> and \<^verbatim>\<open>src/logger_process.c\<close>: building and discarding the process domain, its
  allocator, explicit process initialisation and the child side of a fork.

  The doubly linked list of allocations is the list of their addresses with the mapped sizes, newest
  first. \<^verbatim>\<open>madvise\<close>, \<^verbatim>\<open>mmap\<close> and \<^verbatim>\<open>munmap\<close> take their outcome from the schedule. Of the four resets a
  child performs, the call scope and the default scope belong to this state; the thread's log context and its
  timestamp cache are added by \<open>init_thread\<close> in \<open>Logger_Fork_Props\<close>.
\<close>

section \<open>The domain object\<close>

definition fresh_runtime :: logger_runtime where
  "fresh_runtime = \<lparr>initialized = 0, resource_error = 0, owned_fds = [], owned_count = 0, allocations = [],
     allocation_count = 0, live_objects = 0, global_logger = None, global_ticket = 0, global_lock_error = 0,
     console_config = 0, console_lock_error = 0\<rparr>"

definition logger_runtime_publish :: "logger_runtime option \<Rightarrow> domain \<Rightarrow> domain" where
  "logger_runtime_publish r d = d\<lparr>current := r\<rparr>"

definition logger_runtime_invalidate_child :: "domain \<Rightarrow> domain" where
  "logger_runtime_invalidate_child d = d\<lparr>current := None\<rparr>"

text \<open>A destroy or unmap that does not report success keeps the object.\<close>

definition os_call :: "domain \<Rightarrow> errno \<times> domain" where
  "os_call d = (case syscall (\<lambda>k. (Inr (), k)) d of (Inl e, d1) \<Rightarrow> (e, d1) | (Inr _, d1) \<Rightarrow> (0, d1))"

text \<open>\<^verbatim>\<open>if (!rc && guard) rc = call();\<close>\<close>

definition then_call :: "bool \<Rightarrow> (domain \<Rightarrow> errno \<times> domain) \<Rightarrow> errno \<times> domain \<Rightarrow> errno \<times> domain" where
  "then_call guard op s = (case s of (rc, d) \<Rightarrow> if rc = 0 \<and> guard then op d else (rc, d))"

definition logger_runtime_discard :: "logger_runtime option \<Rightarrow> domain \<Rightarrow> int \<times> domain" where
  "logger_runtime_discard rp d =
     (case rp of
        None \<Rightarrow> (0, d)
      | Some r \<Rightarrow>
        (case then_call True os_call (
              then_call (1 \<le> initialized r) pthread_call (
              then_call (2 \<le> initialized r) pthread_call (
              then_call (3 \<le> initialized r) pthread_call (
              then_call (4 \<le> initialized r) pthread_call (
              then_call (5 \<le> initialized r) pthread_call (0, d)))))) of (rc, d1) \<Rightarrow>
           (- rc, if rc \<noteq> 0 then d1\<lparr>retained_bootstrap := Some r\<rparr> else d1)))"

text \<open>Initialise the synchronisation objects from number \<open>k\<close> on.\<close>

fun init_locks :: "nat \<Rightarrow> logger_runtime \<Rightarrow> domain \<Rightarrow> errno \<times> logger_runtime \<times> domain" where
  "init_locks 0 r d = (0, r, d)"
| "init_locks (Suc k) r d =
     (case pthread_call d of (rc, d1) \<Rightarrow>
        if rc \<noteq> 0 then (rc, r, d1) else init_locks k (r\<lparr>initialized := initialized r + 1\<rparr>) d1)"

definition CONSOLE_DEFAULT :: u32 where
  "CONSOLE_DEFAULT = push_bit 2 1 OR 0"

definition logger_runtime_create :: "domain \<Rightarrow> int \<times> logger_runtime option \<times> domain" where
  "logger_runtime_create d =
     (if retained_bootstrap d \<noteq> None then (- EUCLEAN, None, d)
      else case os_call d of (mapped, d1) \<Rightarrow>
        if mapped \<noteq> 0 then (- mapped, None, d1)
        else case os_call d1 of (advised, d2) \<Rightarrow>
          case (if advised \<noteq> 0 then (advised, fresh_runtime, d2) else init_locks 5 fresh_runtime d2) of (rc, r, d3) \<Rightarrow>
            if rc \<noteq> 0 then (case logger_runtime_discard (Some r) d3 of (_, d4) \<Rightarrow> (- rc, None, d4))
            else (0, Some (r\<lparr>resource_error := 0, live_objects := 0, global_ticket := 0, global_lock_error := 0,
                            console_config := CONSOLE_DEFAULT, console_lock_error := 0\<rparr>), d3))"

section \<open>The allocator\<close>

abbreviation ALLOCATION_HEADER :: nat where "ALLOCATION_HEADER \<equiv> 48"

definition link_allocation :: "nat \<Rightarrow> nat \<Rightarrow> domain \<Rightarrow> domain" where
  "link_allocation a bytes = update_runtime (\<lambda>r. r\<lparr>allocations := (a, bytes) # allocations r, allocation_count := allocation_count r + 1\<rparr>)"

text \<open>The address handed out is the mapping's; a new mapping has a new address.\<close>

definition logger_runtime_calloc :: "size_t \<Rightarrow> size_t \<Rightarrow> domain \<Rightarrow> (errno + nat) \<times> domain" where
  "logger_runtime_calloc count bytes_each d =
     (if count = 0 \<or> bytes_each = 0 \<or> (SIZE_MAX - of_nat ALLOCATION_HEADER) div count < bytes_each then (Inl EOVERFLOW, d)
      else case logger_fork_resource_enter d of (e, d1) \<Rightarrow>
        if e \<noteq> 0 then (Inl e, d1)
        else let bytes = ALLOCATION_HEADER + unat count * unat bytes_each; a = next_address d1 in
          case (case os_call d1 of (mapped, d2) \<Rightarrow>
            if mapped \<noteq> 0 then (mapped, d2)
            else let d3 = d2\<lparr>next_address := Suc a\<rparr> in
              case os_call d3 of (advised, d4) \<Rightarrow>
                if advised = 0 then (0, link_allocation a bytes d4)
                else case os_call d4 of (unmapped, d5) \<Rightarrow>
                  (advised, if unmapped \<noteq> 0 then logger_fork_resource_poison unmapped (link_allocation a bytes d5) else d5))
          of (e2, d6) \<Rightarrow>
            (case logger_fork_resource_leave e2 d6 of (e3, d7) \<Rightarrow> (if e3 \<noteq> 0 then Inl e3 else Inr a, d7)))"

definition logger_runtime_malloc :: "size_t \<Rightarrow> domain \<Rightarrow> (errno + nat) \<times> domain" where
  "logger_runtime_malloc bytes_each = logger_runtime_calloc 1 bytes_each"

definition logger_runtime_free :: "nat option \<Rightarrow> domain \<Rightarrow> int \<times> domain" where
  "logger_runtime_free ptr d =
     (case ptr of
        None \<Rightarrow> (0, d)
      | Some a \<Rightarrow>
        (case logger_fork_resource_enter d of (e, d1) \<Rightarrow>
           if e \<noteq> 0 then (- e, d1)
           else case (case os_call d1 of (unmapped, d2) \<Rightarrow>
               if unmapped \<noteq> 0 then (unmapped, logger_fork_resource_poison unmapped d2)
               else (0, update_runtime (\<lambda>r. r\<lparr>allocations := filter (\<lambda>x. fst x \<noteq> a) (allocations r),
                                             allocation_count := allocation_count r - 1\<rparr>) d2))
             of (e2, d3) \<Rightarrow> (- e2, snd (logger_fork_resource_leave e2 d3))))"

definition logger_runtime_unload :: "domain \<Rightarrow> domain" where
  "logger_runtime_unload d =
     (if logger_process_is_child d \<or> \<not> logger_process_ready d then d
      else case current d of
        None \<Rightarrow> d
      | Some r \<Rightarrow>
        if live_objects r \<noteq> 0 \<or> resource_error r \<noteq> 0 \<or> allocations r \<noteq> [] \<or> owned_count r \<noteq> 0 then d
        else snd (logger_runtime_discard (Some r) (logger_runtime_publish None d)))"

section \<open>Process initialisation\<close>

definition logger_process_invalidate_child :: "domain \<Rightarrow> domain" where
  "logger_process_invalidate_child d =
     logger_runtime_invalidate_child (logger_fork_fd_child (d\<lparr>forked_child := True\<rparr>))"

definition claim_process :: "domain \<Rightarrow> int \<times> domain" where
  "claim_process d =
     (if logger_process_is_child d then (- ECHILD, d)
      else let expected = owner_pid d;
               d1 = (if expected = 0 then d\<lparr>owner_pid := k_pid d\<rparr> else d)
           in (if expected \<noteq> 0 \<and> expected \<noteq> k_pid d then - ECHILD else 0, d1))"

definition logger_global_reset_child :: "domain \<Rightarrow> domain" where
  "logger_global_reset_child d = d\<lparr>in_global := False\<rparr>"

text \<open>The work between winning the ticket and publishing the result: the error, 0 for success.\<close>

definition build_domain :: "bool \<Rightarrow> domain \<Rightarrow> errno \<times> domain" where
  "build_domain child d =
     (case (if child then logger_fork_fd_child_reinit d else (0, d)) of (result, d1) \<Rightarrow>
      case (if result = 0 then logger_runtime_create d1 else (result, None, d1)) of (result2, runtime, d2) \<Rightarrow>
      let error = (if result2 < 0 then - result2 else 0) in
      case (if error = 0 \<and> \<not> handlers_registered d2
            then case pthread_call d2 of (e, d3) \<Rightarrow> (e, if e = 0 then d3\<lparr>handlers_registered := True\<rparr> else d3)
            else (error, d2)) of (error2, d4) \<Rightarrow>
        if error2 \<noteq> 0 then (error2, snd (logger_runtime_discard runtime d4))
        else let d5 = (if child then logger_global_reset_child (logger_scope_reset_child d4) else d4)
             in (0, (logger_runtime_publish runtime d5)\<lparr>owner_pid := k_pid d5, forked_child := False\<rparr>))"

text \<open>
  \<open>rival\<close> is the ticket another thread stores between this thread's load and its exchange, if any.
\<close>

definition initialize_process :: "int option \<Rightarrow> domain \<Rightarrow> int \<times> domain" where
  "initialize_process rival d =
     (let child = logger_process_is_child d in
      if child \<and> (\<not> forked_child d \<or> \<not> logger_fork_fd_child_valid d) then (- ECHILD, d)
      else case (if child then (0, d) else claim_process d) of (rc, d1) \<Rightarrow>
        if rc \<noteq> 0 then (rc, d1)
        else if initializing d1 then (- EDEADLK, d1)
        else let ticket = process_ticket d1 in
          if \<not> child \<and> ticket = PROCESS_READY then (- EALREADY, d1)
          else if ticket = PROCESS_STARTING then (- EAGAIN, d1)
          else case pthread_call d1 of (cancel, d2) \<Rightarrow>
            if cancel \<noteq> 0 then (- cancel, d2)
            else case
              (case rival of
                 Some t \<Rightarrow> (if t \<noteq> ticket
                   then (if t = PROCESS_READY then - EALREADY else - EAGAIN, d2\<lparr>process_ticket := t\<rparr>)
                   else (0, d2))
               | None \<Rightarrow> (0, d2))
            of (lost, d3) \<Rightarrow>
              case
                (if lost \<noteq> 0 then (lost, d3)
                 else case build_domain child (d3\<lparr>process_ticket := PROCESS_STARTING, initializing := True\<rparr>) of (error, d4) \<Rightarrow>
                   (- error, d4\<lparr>process_ticket := (if error \<noteq> 0 then error else PROCESS_READY), initializing := False\<rparr>))
              of (rc2, d5) \<Rightarrow>
                (case pthread_call d5 of (restore, d6) \<Rightarrow> (if rc2 \<noteq> 0 then rc2 else - restore, d6)))"

definition logger_process_init :: "int option \<Rightarrow> domain \<Rightarrow> int \<times> domain" where
  "logger_process_init rival d = initialize_process rival d"

end
