(* ===== verification/Logger_Syslog.thy ===== *)
theory Logger_Syslog
  imports Logger_Fork_Fd Logger_Format
begin

text \<open>
  \<^verbatim>\<open>src/logger_syslog.c\<close> and \<^verbatim>\<open>src/logger_time.h\<close>: the datagram backend with its connection, cooldown
  and metrics. The functions of the code return 0, or \<open>-1\<close> with \<^verbatim>\<open>errno\<close>; here the \<^verbatim>\<open>errno\<close> is the
  left value of a sum. The arrays \<^verbatim>\<open>ident\<close> and \<^verbatim>\<open>path\<close> are the C strings they hold; strings that
  callers pass hold no NUL. The object pointer is not null. The fault-injection build's environment
  variable is not part of the model.
\<close>

section \<open>Monotonic milliseconds\<close>

record logger_monotonic_ms =
  mono_value :: u64

record logger_duration_ms =
  duration_value :: u32

definition logger_monotonic_ms_before :: "logger_monotonic_ms \<Rightarrow> logger_monotonic_ms \<Rightarrow> bool" where
  "logger_monotonic_ms_before left right = (mono_value left < mono_value right)"

definition logger_monotonic_ms_elapsed :: "logger_monotonic_ms \<Rightarrow> logger_monotonic_ms \<Rightarrow> logger_duration_ms \<Rightarrow> bool" where
  "logger_monotonic_ms_elapsed now since interval =
     (mono_value since \<le> mono_value now \<and> unat (duration_value interval) \<le> unat (mono_value now - mono_value since))"

section \<open>Configuration, metrics and state\<close>

abbreviation SYSLOG_SEND_ATTEMPTS :: nat where "SYSLOG_SEND_ATTEMPTS \<equiv> 4"
abbreviation SYSLOG_PACKET_MAX :: nat where "SYSLOG_PACKET_MAX \<equiv> 8192"
abbreviation SYSLOG_IDENT_SIZE :: nat where "SYSLOG_IDENT_SIZE \<equiv> 128"
abbreviation SYSLOG_PATH_SIZE :: nat where "SYSLOG_PATH_SIZE \<equiv> 108"
abbreviation LOGGER_SYSLOG_START_REQUIRED :: int where "LOGGER_SYSLOG_START_REQUIRED \<equiv> 0"
abbreviation LOGGER_SYSLOG_START_DEFERRED :: int where "LOGGER_SYSLOG_START_DEFERRED \<equiv> 1"

record logger_syslog_config_t =
  sc_path :: cptr
  sc_facility :: u32
  sc_reconnect_interval_ms :: u32
  sc_startup :: int

record logger_syslog_metrics_t =
  submitted_records :: u64
  sent_records :: u64
  sm_failed_records :: u64
  backpressure_records :: u64
  cooldown_records :: u64
  connect_attempts :: u64
  connect_failures :: u64
  reconnect_successes :: u64
  send_attempts :: u64
  interrupted_calls :: u64
  close_failures :: u64
  connected :: bool
  sm_last_error :: errno
  last_close_error :: errno

record logger_syslog =
  s_fd :: logger_owned_fd
  s_ident :: string
  s_path :: string
  s_facility :: u32
  reconnect_interval_ms :: logger_duration_ms
  retry_from_ms :: logger_monotonic_ms
  retry_clock_pending :: bool
  connection_error :: errno
  s_metrics :: logger_syslog_metrics_t

definition zero_syslog_metrics :: logger_syslog_metrics_t where
  "zero_syslog_metrics = \<lparr>submitted_records = 0, sent_records = 0, sm_failed_records = 0, backpressure_records = 0,
     cooldown_records = 0, connect_attempts = 0, connect_failures = 0, reconnect_successes = 0, send_attempts = 0,
     interrupted_calls = 0, close_failures = 0, connected = False, sm_last_error = 0, last_close_error = 0\<rparr>"

text \<open>The object after \<^verbatim>\<open>memset\<close>, with no descriptor.\<close>

definition zero_syslog :: logger_syslog where
  "zero_syslog = \<lparr>s_fd = logger_fd_own (- 1), s_ident = [], s_path = [], s_facility = 0,
     reconnect_interval_ms = \<lparr>duration_value = 0\<rparr>, retry_from_ms = \<lparr>mono_value = 0\<rparr>, retry_clock_pending = False,
     connection_error = 0, s_metrics = zero_syslog_metrics\<rparr>"

definition note_metrics :: "(logger_syslog_metrics_t \<Rightarrow> logger_syslog_metrics_t) \<Rightarrow> logger_syslog \<Rightarrow> logger_syslog" where
  "note_metrics f s = s\<lparr>s_metrics := f (s_metrics s)\<rparr>"

section \<open>Operations\<close>

definition priority :: "logger_level_t \<Rightarrow> u32" where
  "priority level = [7, 7, 6, 4, 3, 2] ! nat level"

definition monotonic_ms :: "domain \<Rightarrow> (errno + logger_monotonic_ms) \<times> domain" where
  "monotonic_ms d =
     (case sys_monotonic d of
        (Inl e, d1) \<Rightarrow> (Inl e, d1)
      | (Inr ts, d1) \<Rightarrow>
        if tv_sec ts < 0 \<or> tv_nsec ts < 0 \<or> 1000000000 \<le> tv_nsec ts then (Inl EIO, d1)
        else let sub = tv_nsec ts div 1000000 in
          if (2 ^ 64 - 1 - sub) div 1000 < tv_sec ts then (Inl EOVERFLOW, d1)
          else (Inr \<lparr>mono_value = word_of_int (tv_sec ts * 1000 + sub)\<rparr>, d1))"

definition backpressure :: "errno \<Rightarrow> bool" where
  "backpressure e = (e = EAGAIN \<or> e = EWOULDBLOCK \<or> e = ENOBUFS \<or> e = ENOMEM)"

definition endpoint_unavailable :: "errno \<Rightarrow> bool" where
  "endpoint_unavailable e =
     (e = ENOENT \<or> e = ECONNREFUSED \<or> e = ECONNRESET \<or> e = ENOTCONN \<or> e = EINTR \<or> e = EAGAIN \<or> e = EWOULDBLOCK)"

definition broken_association :: "errno \<Rightarrow> bool" where
  "broken_association e =
     (e = ECONNREFUSED \<or> e = ECONNRESET \<or> e = ENOTCONN \<or> e = EPIPE \<or> e = ENOENT \<or> e = EDESTADDRREQ \<or> e = EIO)"

definition logger_syslog_close_status :: "logger_syslog \<Rightarrow> domain \<Rightarrow> int \<times> logger_syslog \<times> domain" where
  "logger_syslog_close_status s d =
     (if \<not> logger_fd_valid (s_fd s) then (0, s, d)
      else let s1 = note_metrics (\<lambda>m. m\<lparr>connected := False\<rparr>) s in
        case logger_fd_close_status (s_fd s1) d of (rc, fd, d1) \<Rightarrow>
          let s2 = s1\<lparr>s_fd := fd\<rparr> in
          (rc, if rc \<noteq> 0 then note_metrics (\<lambda>m. m\<lparr>close_failures := close_failures m + 1, last_close_error := - rc\<rparr>) s2 else s2, d1))"

definition logger_syslog_close :: "logger_syslog \<Rightarrow> domain \<Rightarrow> logger_syslog \<times> domain" where
  "logger_syslog_close s d = snd (logger_syslog_close_status s d)"

definition copy_path :: "logger_syslog \<Rightarrow> cptr \<Rightarrow> domain \<Rightarrow> (errno + unit) \<times> logger_syslog \<times> domain" where
  "copy_path s path0 d =
     (let path = str_or path0 ''/dev/log''; n = c_strnlen SYSLOG_PATH_SIZE path in
      if n = 0 then (Inl EINVAL, s, d)
      else if SYSLOG_PATH_SIZE \<le> n then (Inl ENAMETOOLONG, s, d)
      else if path ! 0 = CHR ''/'' then (Inr (), s\<lparr>s_path := path\<rparr>, d)
      else case sys_getcwd SYSLOG_PATH_SIZE d of
        (Inl e, d1) \<Rightarrow> (Inl (if e = ERANGE then ENAMETOOLONG else e), s, d1)
      | (Inr cwd, d1) \<Rightarrow>
        let len = length cwd; slash = (if len = 1 \<and> cwd ! 0 = CHR ''/'' then 0 else 1) in
        if SYSLOG_PATH_SIZE \<le> len + slash + n then (Inl ENAMETOOLONG, s, d1)
        else (Inr (), s\<lparr>s_path := cwd @ (if slash \<noteq> 0 then ''/'' else []) @ path\<rparr>, d1))"

text \<open>The label \<^verbatim>\<open>failed\<close> of \<^verbatim>\<open>connect_once\<close>.\<close>

definition connect_failed :: "errno \<Rightarrow> logger_syslog \<Rightarrow> logger_syslog" where
  "connect_failed e s =
     (let s1 = (if e = EINTR then note_metrics (\<lambda>m. m\<lparr>interrupted_calls := interrupted_calls m + 1\<rparr>) s else s);
          s2 = note_metrics (\<lambda>m. m\<lparr>connect_failures := connect_failures m + 1\<rparr>) s1
      in note_metrics (\<lambda>m. m\<lparr>sm_last_error := e\<rparr>) (s2\<lparr>connection_error := e\<rparr>))"

text \<open>The result, whether the failure may be deferred, the object and the domain.\<close>

definition connect_once :: "logger_syslog \<Rightarrow> domain \<Rightarrow> (errno + unit) \<times> bool \<times> logger_syslog \<times> domain" where
  "connect_once s d =
     (let s1 = note_metrics (\<lambda>m. m\<lparr>connect_attempts := connect_attempts m + 1\<rparr>) s in
      case logger_fork_socket d of
        (Inl e, d1) \<Rightarrow> (let err = errno_or e EIO in (Inl err, False, connect_failed err s1, d1))
      | (Inr fd, d1) \<Rightarrow>
        let candidate = logger_fd_own fd in
        (case sys_connect (logger_fd_number candidate) (s_path s1) d1 of
           (Inl e, d2) \<Rightarrow>
             let err = errno_or e EIO in
             (case logger_fd_close_status candidate d2 of (close_error, spent, d3) \<Rightarrow>
                let s2 = (if close_error \<noteq> 0
                          then note_metrics (\<lambda>m. m\<lparr>close_failures := close_failures m + 1, last_close_error := - close_error\<rparr>) s1
                          else s1)
                in (Inl err, endpoint_unavailable err, connect_failed err s2, d3))
         | (Inr _, d2) \<Rightarrow>
             let s2 = note_metrics (\<lambda>m. m\<lparr>connected := True\<rparr>) (s1\<lparr>s_fd := fst (logger_fd_move candidate)\<rparr>);
                 s3 = s2\<lparr>connection_error := 0\<rparr>
             in (Inr (), False,
                 if 1 < connect_attempts (s_metrics s3)
                 then note_metrics (\<lambda>m. m\<lparr>reconnect_successes := reconnect_successes m + 1\<rparr>) s3 else s3, d2)))"

definition ident_char :: "char \<Rightarrow> bool" where
  "ident_char c = (33 \<le> (of_char c :: nat) \<and> of_char c \<le> (126 :: nat) \<and> c \<noteq> CHR '':'' \<and> c \<noteq> CHR ''['' \<and> c \<noteq> CHR '']'')"

definition logger_syslog_init ::
  "logger_syslog \<Rightarrow> cptr \<Rightarrow> logger_syslog_config_t option \<Rightarrow> domain \<Rightarrow> (errno + unit) \<times> logger_syslog \<times> domain" where
  "logger_syslog_init s0 ident0 configp d =
     (case configp of
        None \<Rightarrow> (Inl EINVAL, s0, d)
      | Some config \<Rightarrow>
        let s = zero_syslog in
        if sc_facility config AND 7 \<noteq> 0 \<or> 23 * 8 < sc_facility config \<or>
           LOGGER_SYSLOG_START_DEFERRED < as_unsigned (sc_startup config) \<or> 60000 < sc_reconnect_interval_ms config
        then (Inl EINVAL, s, d)
        else
          let s1 = s\<lparr>s_facility := sc_facility config,
                     reconnect_interval_ms := \<lparr>duration_value =
                       (if sc_reconnect_interval_ms config \<noteq> 0 then sc_reconnect_interval_ms config else 1000)\<rparr>\<rparr>;
              ident = (case ident0 of None \<Rightarrow> ''app'' | Some x \<Rightarrow> if x = [] then ''app'' else x);
              n = c_strnlen SYSLOG_IDENT_SIZE ident
          in if SYSLOG_IDENT_SIZE \<le> n then (Inl ENAMETOOLONG, s1, d)
             else if \<not> list_all ident_char (take n ident) then (Inl EINVAL, s1, d)
             else case copy_path (s1\<lparr>s_ident := ident\<rparr>) (sc_path config) d of
               (Inl e, s2, d2) \<Rightarrow> (Inl e, s2, d2)
             | (Inr _, s2, d2) \<Rightarrow>
               (case monotonic_ms d2 of
                  (Inl e, d3) \<Rightarrow> (Inl e, s2, d3)
                | (Inr now, d3) \<Rightarrow>
                  (case connect_once (s2\<lparr>retry_from_ms := now\<rparr>) d3 of (r, deferable, s4, d4) \<Rightarrow>
                     case r of
                       Inr _ \<Rightarrow> (Inr (), s4, d4)
                     | Inl e \<Rightarrow> if sc_startup config = LOGGER_SYSLOG_START_DEFERRED \<and> deferable then (Inr (), s4, d4)
                               else (Inl e, s4, d4))))"

definition record_failure :: "logger_syslog \<Rightarrow> errno \<Rightarrow> (errno + unit) \<times> logger_syslog" where
  "record_failure s e0 =
     (let e = errno_or e0 EIO;
          s1 = note_metrics (\<lambda>m. m\<lparr>sm_failed_records := sm_failed_records m + 1\<rparr>) s;
          s2 = (if backpressure e then note_metrics (\<lambda>m. m\<lparr>backpressure_records := backpressure_records m + 1\<rparr>) s1 else s1)
      in (Inl e, note_metrics (\<lambda>m. m\<lparr>sm_last_error := e\<rparr>) s2))"

text \<open>
  The bounded send loop: \<^const>\<open>None\<close> when a datagram was sent whole, else the error that ended it;
  \<open>error\<close> is what the variable holds when the attempts are used up.
\<close>

fun send_loop :: "nat \<Rightarrow> errno \<Rightarrow> int \<Rightarrow> string \<Rightarrow> logger_syslog \<Rightarrow> domain \<Rightarrow> errno option \<times> logger_syslog \<times> domain" where
  "send_loop 0 error fd packet s d = (Some error, s, d)"
| "send_loop (Suc k) error fd packet s d =
     (let s1 = note_metrics (\<lambda>m. m\<lparr>send_attempts := send_attempts m + 1\<rparr>) s in
      case sys_send fd packet d of
        (Inr sent, d1) \<Rightarrow>
          if sent = length packet
          then (None, note_metrics (\<lambda>m. m\<lparr>sent_records := sent_records m + 1, sm_last_error := 0\<rparr>) s1, d1)
          else (Some EIO, s1, d1)
      | (Inl e, d1) \<Rightarrow>
          let err = errno_or e EIO in
          if err \<noteq> EINTR then (Some err, s1, d1)
          else send_loop k err fd packet
                 (note_metrics (\<lambda>m. m\<lparr>interrupted_calls := interrupted_calls m + 1\<rparr>) s1) d1)"

definition packet_prefix :: "logger_syslog \<Rightarrow> logger_level_t \<Rightarrow> int \<Rightarrow> string" where
  "packet_prefix s level pid =
     ''<'' @ dec_nat (unat (s_facility s OR priority level)) @ ''>'' @ s_ident s @ ''['' @ dec_int pid @ '']: ''"

text \<open>The part of \<^verbatim>\<open>logger_syslog_write\<close> that reconnects: the error, or a connected object.\<close>

definition syslog_reconnect :: "logger_syslog \<Rightarrow> domain \<Rightarrow> (errno + unit) \<times> logger_syslog \<times> domain" where
  "syslog_reconnect s d =
     (case monotonic_ms d of
        (Inl e, d1) \<Rightarrow> (Inl e, s, d1)
      | (Inr now, d1) \<Rightarrow>
        let s1 = (if retry_clock_pending s \<or> logger_monotonic_ms_before now (retry_from_ms s)
                  then s\<lparr>retry_from_ms := now, retry_clock_pending := False\<rparr> else s)
        in if \<not> logger_monotonic_ms_elapsed now (retry_from_ms s1) (reconnect_interval_ms s1)
           then (Inl (if connection_error s1 \<noteq> 0 then connection_error s1 else ENOTCONN),
                 note_metrics (\<lambda>m. m\<lparr>cooldown_records := cooldown_records m + 1\<rparr>) s1, d1)
           else case connect_once (s1\<lparr>retry_from_ms := now\<rparr>) d1 of (r, deferable, s2, d2) \<Rightarrow> (r, s2, d2))"

text \<open>The part after the send loop failed with \<open>error\<close>.\<close>

definition after_send_failure :: "errno \<Rightarrow> logger_syslog \<Rightarrow> domain \<Rightarrow> (errno + unit) \<times> logger_syslog \<times> domain" where
  "after_send_failure error s d =
     (case (if broken_association error
            then case logger_syslog_close s d of (s1, d1) \<Rightarrow>
              let s2 = s1\<lparr>connection_error := error\<rparr> in
              (case monotonic_ms d1 of
                 (Inl e, d2) \<Rightarrow> (s2\<lparr>retry_clock_pending := True\<rparr>, d2)
               | (Inr now, d2) \<Rightarrow> (s2\<lparr>retry_from_ms := now\<rparr>, d2))
            else (s, d)) of (s3, d3) \<Rightarrow>
        case record_failure s3 error of (r, s4) \<Rightarrow> (r, s4, d3))"

definition logger_syslog_write ::
  "logger_syslog \<Rightarrow> logger_level_t \<Rightarrow> string option \<Rightarrow> size_t \<Rightarrow> domain \<Rightarrow> (errno + unit) \<times> logger_syslog \<times> domain" where
  "logger_syslog_write s0 level linep n0 d =
     (let s = note_metrics (\<lambda>m. m\<lparr>submitted_records := submitted_records m + 1\<rparr>) s0;
          failed = (\<lambda>s e d. case record_failure s e of (r, s') \<Rightarrow> (r, s', d))
      in case linep of
        None \<Rightarrow> failed s EINVAL d
      | Some line \<Rightarrow>
        if LOGGER_OFF \<le> as_unsigned level then failed s EINVAL d
        else if of_nat SYSLOG_PACKET_MAX < n0 then failed s EMSGSIZE d
        else case logger_libc_snprintf (packet_prefix s level (k_pid d)) d of
          (Inl e, d1) \<Rightarrow> failed s (errno_or e EILSEQ) d1
        | (Inr prefix, d1) \<Rightarrow>
          if SYSLOG_PACKET_MAX \<le> length prefix then failed s EOVERFLOW d1
          else
            let n = (if n0 \<noteq> 0 \<and> line ! (unat n0 - 1) = CHR ''\<newline>'' then unat n0 - 1 else unat n0) in
            if SYSLOG_PACKET_MAX - length prefix < n then failed s EMSGSIZE d1
            else
              let packet = prefix @ take n line in
              case (if \<not> logger_fd_valid (s_fd s) then syslog_reconnect s d1 else (Inr (), s, d1)) of
                (Inl e, s2, d2) \<Rightarrow> failed s2 e d2
              | (Inr _, s2, d2) \<Rightarrow>
                (case send_loop SYSLOG_SEND_ATTEMPTS EINTR (logger_fd_number (s_fd s2)) packet s2 d2 of
                   (None, s3, d3) \<Rightarrow> (Inr (), s3, d3)
                 | (Some error, s3, d3) \<Rightarrow> after_send_failure error s3 d3))"

end
