(* ===== verification/Logger_Instance.thy ===== *)
theory Logger_Instance
  imports Logger_Queue Logger_Format Logger_Syslog Logger_Process Logger_Rotate
begin

text \<open>
  The logger instance of \<^verbatim>\<open>src/logger_internal.h\<close> with the configuration, the sticky error states, the
  thread's log context and the capture of record metadata of \<^verbatim>\<open>src/logger.c\<close>, and the structure copy
  of \<^verbatim>\<open>src/logger_uapi.h\<close>.

  Atomic fields are fields of the record; an operation runs with no other thread in between, except
  where the code waits for the worker. The emit, progress and control locks take their outcome from
  the schedule of \<^verbatim>\<open>pthread\<close> calls, through the guards of \<^verbatim>\<open>src/logger_cleanup.h\<close>; their lock order is the
  subject of the theory \<open>Logger_Lockdep\<close>.
\<close>

section \<open>Configuration\<close>

abbreviation LOGGER_CONFIG_VERSION :: u32 where "LOGGER_CONFIG_VERSION \<equiv> 1"
abbreviation LOGGER_CONFIG_SIZE :: nat where "LOGGER_CONFIG_SIZE \<equiv> 144"
abbreviation LOGGER_OVERFLOW_DROP :: int where "LOGGER_OVERFLOW_DROP \<equiv> 0"
abbreviation LOGGER_OVERFLOW_SYNC :: int where "LOGGER_OVERFLOW_SYNC \<equiv> 1"

record logger_config_t =
  c_struct_size :: u32
  c_version :: u32
  c_level :: logger_level_t
  c_detail :: logger_detail_t
  c_outputs :: u32
  c_file_path :: cptr
  c_rotation :: logger_rotation_config_t
  c_file_mode :: u32
  c_async_mode :: int
  c_queue_capacity :: size_t
  c_flush_level :: logger_level_t
  c_include_pid :: int
  c_include_tid :: int
  c_include_source :: int
  c_ident :: cptr
  c_overflow :: "int list"
  c_syslog :: logger_syslog_config_t

text \<open>
  The source of a structure copy: the structure the library knows, and the bytes the caller has
  after it. The result is the code and what was copied to the destination, if anything.
\<close>

definition logger_uapi_copy_struct ::
  "nat \<Rightarrow> ('a \<times> u8 list) option \<Rightarrow> u32 \<Rightarrow> u32 \<Rightarrow> u32 \<Rightarrow> int \<times> 'a option" where
  "logger_uapi_copy_struct known_size src struct_size version expected_version =
     (case src of
        None \<Rightarrow> (- EINVAL, None)
      | Some (known, tail) \<Rightarrow>
        if version \<noteq> expected_version then (- EPROTONOSUPPORT, None)
        else if unat struct_size < known_size then (- EINVAL, None)
        else if known_size < unat struct_size \<and> list_ex (\<lambda>b. b \<noteq> 0) (take (unat struct_size - known_size) tail)
        then (- E2BIG, Some known)
        else (0, Some known))"

definition copy_logger_config :: "(logger_config_t \<times> u8 list) option \<Rightarrow> errno + logger_config_t" where
  "copy_logger_config src =
     (case src of
        None \<Rightarrow> Inl EINVAL
      | Some (c, tail) \<Rightarrow>
        (case logger_uapi_copy_struct LOGGER_CONFIG_SIZE src (c_struct_size c) (c_version c) LOGGER_CONFIG_VERSION of (rc, out) \<Rightarrow>
           if rc \<noteq> 0 then Inl (- rc)
           else Inr ((the out)\<lparr>c_struct_size := of_nat LOGGER_CONFIG_SIZE, c_version := LOGGER_CONFIG_VERSION\<rparr>)))"

definition validate_logger_config :: "logger_config_t \<Rightarrow> int" where
  "validate_logger_config cfg =
     (let output_mask = LOGGER_OUT_STDERR OR LOGGER_OUT_FILE OR LOGGER_OUT_SYSLOG in
      if LOGGER_OFF < as_unsigned (c_level cfg) \<or> LOGGER_DETAIL_DEBUG < as_unsigned (c_detail cfg) \<or> c_outputs cfg = 0 \<or>
         c_outputs cfg AND NOT output_mask \<noteq> 0 \<or> LOGGER_ROTATE_EXTERNAL < as_unsigned (rot_mode (c_rotation cfg)) \<or>
         c_file_mode cfg AND NOT 0x1FF \<noteq> 0 \<or> LOGGER_OFF < as_unsigned (c_flush_level cfg)
      then - EINVAL
      else if list_ex (\<lambda>i. LOGGER_OVERFLOW_SYNC < as_unsigned (c_overflow cfg ! i)) [0..<6] then - EINVAL else 0)"

section \<open>The instance\<close>

datatype logger_state_t = LOGGER_STATE_CREATED | LOGGER_STATE_RUNNING | LOGGER_STATE_STOPPING | LOGGER_STATE_STOPPED

text \<open>The worker's buffers; the arrays that only hold pointers into them are left out.\<close>

record logger_worker_workspace =
  w_address :: nat
  w_parts :: "nat list"
  w_capacity :: nat
  w_batch :: "logger_message list"

record logger =
  l_level :: logger_level_t
  l_state :: logger_state_t
  default_borrowed :: bool
  l_detail :: logger_detail_t
  l_outputs :: u32
  l_file_mode :: u32
  async_mode :: bool
  include_pid :: bool
  include_tid :: bool
  include_source :: bool
  flush_level :: logger_level_t
  capture_mask :: u32
  l_pid :: int
  l_ident :: "char list"
  file_backend :: logger_file
  syslog_backend :: logger_syslog
  completed_pos :: size_t
  async_completed :: u64
  sync_completed :: u64
  emitted_records :: u64
  failed_records :: u64
  first_error :: errno
  lifecycle_error :: errno
  synchronization_error :: errno
  l_q :: logger_queue
  worker_workspace :: "logger_worker_workspace option"
  l_running :: bool
  l_overflow :: "int list"
  dropped_by_level :: "u64 list"
  enqueued :: u64
  sync_fallbacks :: u64
  queue_high_watermark :: u64
  consumer_batches :: u64
  consumer_records :: u64

definition logger_internal_detail :: "logger \<Rightarrow> logger_detail_t" where
  "logger_internal_detail l = l_detail l"

definition logger_internal_include_pid :: "logger \<Rightarrow> bool" where
  "logger_internal_include_pid l = include_pid l"

definition logger_internal_include_tid :: "logger \<Rightarrow> bool" where
  "logger_internal_include_tid l = include_tid l"

definition logger_internal_include_source :: "logger \<Rightarrow> bool" where
  "logger_internal_include_source l = include_source l"

text \<open>What the formatter reads of the instance, through the four functions above.\<close>

definition format_config :: "logger \<Rightarrow> line_config" where
  "format_config l = \<lparr>fc_detail = logger_internal_detail l, fc_include_pid = logger_internal_include_pid l,
     fc_include_tid = logger_internal_include_tid l, fc_include_source = logger_internal_include_source l\<rparr>"

section \<open>Sticky errors\<close>

definition logger_note_io_error :: "logger \<Rightarrow> errno \<Rightarrow> logger" where
  "logger_note_io_error l e = (if e \<le> 0 then l else l\<lparr>first_error := sticky (first_error l) e\<rparr>)"

definition logger_note_lifecycle_error :: "logger \<Rightarrow> errno \<Rightarrow> logger" where
  "logger_note_lifecycle_error l e =
     (if e = 0 then l
      else l\<lparr>lifecycle_error := sticky (lifecycle_error l) (\<bar>e\<bar>), l_state := LOGGER_STATE_STOPPING, l_running := False\<rparr>)"

definition logger_note_synchronization_error :: "logger \<Rightarrow> errno \<Rightarrow> logger" where
  "logger_note_synchronization_error l e =
     (if e = 0 then l
      else logger_note_lifecycle_error (l\<lparr>synchronization_error := sticky (synchronization_error l) (\<bar>e\<bar>)\<rparr>) (\<bar>e\<bar>))"

definition logger_ctor_note_proof_error :: "logger \<Rightarrow> int \<Rightarrow> logger" where
  "logger_ctor_note_proof_error l rc =
     (let e = (if rc < 0 then - rc else rc) in
      if e = 0 then l else l\<lparr>lifecycle_error := sticky (lifecycle_error l) e\<rparr>)"

section \<open>The calling thread\<close>

text \<open>
  The thread-local variables of \<^verbatim>\<open>logger.c\<close>, \<^verbatim>\<open>logger_format.c\<close> and \<^verbatim>\<open>logger_queue.c\<close>. The pointers of
  \<^verbatim>\<open>g_ctx\<close> are null or point to the arrays, so their values are read from the arrays.
\<close>

record thread_state =
  g_request_id :: "char list"
  g_session_id :: "char list"
  g_trace_id :: "char list"
  destroy_receipt :: bool
  th_cache :: timestamp_cache
  th_spill :: spill_tls
  th_tid :: int
  th_format :: format_env

record logger_context_t =
  ctx_request_id :: cptr
  ctx_session_id :: cptr
  ctx_trace_id :: cptr

definition copy_ctx :: "char list \<Rightarrow> nat \<Rightarrow> cptr \<Rightarrow> char list" where
  "copy_ctx d n sp =
     (case sp of
        None \<Rightarrow> d[0 := NUL]
      | Some s \<Rightarrow> let len = c_strnlen (n - 1) s in (memcpy_at d 0 s len)[len := NUL])"

definition ctx_pointer :: "char list \<Rightarrow> cptr" where
  "ctx_pointer a = (if a ! 0 \<noteq> NUL then Some (cstr a) else None)"

definition g_ctx :: "thread_state \<Rightarrow> logger_context_t" where
  "g_ctx t = \<lparr>ctx_request_id = ctx_pointer (g_request_id t), ctx_session_id = ctx_pointer (g_session_id t),
     ctx_trace_id = ctx_pointer (g_trace_id t)\<rparr>"

text \<open>
  A public entry: the call scope around a body that works on some state. \<^verbatim>\<open>errno\<close> is restored, so only
  the code is returned.
\<close>

definition in_scope :: "('s \<Rightarrow> domain \<Rightarrow> int \<times> 's \<times> domain) \<Rightarrow> 's \<Rightarrow> domain \<Rightarrow> int \<times> 's \<times> domain" where
  "in_scope body s d =
     (case logger_scope_begin d of (rc, d1) \<Rightarrow>
        if rc \<noteq> 0 then (rc, s, d1)
        else case body s d1 of (rc2, s2, d2) \<Rightarrow>
          case logger_scope_end 0 rc2 d2 of (rc3, _, d3) \<Rightarrow> (rc3, s2, d3))"

definition logger_context_set :: "logger_context_t option \<Rightarrow> thread_state \<Rightarrow> domain \<Rightarrow> int \<times> thread_state \<times> domain" where
  "logger_context_set c = in_scope (\<lambda>t d.
     let blank = replicate 64 NUL;
         request = copy_ctx blank 64 (case c of Some x \<Rightarrow> ctx_request_id x | None \<Rightarrow> None);
         session = copy_ctx blank 64 (case c of Some x \<Rightarrow> ctx_session_id x | None \<Rightarrow> None);
         trace = copy_ctx blank 64 (case c of Some x \<Rightarrow> ctx_trace_id x | None \<Rightarrow> None)
     in (0, t\<lparr>g_request_id := request, g_session_id := session, g_trace_id := trace\<rparr>, d))"

definition logger_context_clear :: "thread_state \<Rightarrow> domain \<Rightarrow> int \<times> thread_state \<times> domain" where
  "logger_context_clear = logger_context_set None"

text \<open>The value written to \<^verbatim>\<open>*out\<close>, if any; \<open>out\<close> says whether the pointer is set.\<close>

definition logger_context_get :: "bool \<Rightarrow> thread_state \<Rightarrow> domain \<Rightarrow> int \<times> logger_context_t option \<times> domain" where
  "logger_context_get out t d =
     (case in_scope (\<lambda>_ d. if \<not> out then (- EINVAL, None, d) else (0, Some (g_ctx t), d)) None d of (rc, snapshot, d1) \<Rightarrow>
        (rc, if rc = 0 then snapshot else None, d1))"

definition capture_context :: "thread_state \<Rightarrow> logger_message \<Rightarrow> logger_message" where
  "capture_context t m =
     (let c = g_ctx t in
      m\<lparr>m_request_id := copy_ctx (m_request_id m) 64 (ctx_request_id c),
        m_session_id := copy_ctx (m_session_id m) 64 (ctx_session_id c),
        m_trace_id := copy_ctx (m_trace_id m) 64 (ctx_trace_id c)\<rparr>)"

definition logger_destroy_receipt_reset :: "thread_state \<Rightarrow> thread_state" where
  "logger_destroy_receipt_reset t = t\<lparr>destroy_receipt := False\<rparr>"

definition logger_destroy_receipt_read :: "thread_state \<Rightarrow> bool" where
  "logger_destroy_receipt_read t = destroy_receipt t"

definition logger_context_reset_child :: "thread_state \<Rightarrow> thread_state" where
  "logger_context_reset_child t = logger_destroy_receipt_reset
     (t\<lparr>g_request_id := (g_request_id t)[0 := NUL], g_session_id := (g_session_id t)[0 := NUL],
        g_trace_id := (g_trace_id t)[0 := NUL]\<rparr>)"

section \<open>Record metadata\<close>

abbreviation LOGGER_CAPTURE_MODULE :: u32 where "LOGGER_CAPTURE_MODULE \<equiv> 1"
abbreviation LOGGER_CAPTURE_CONTEXT :: u32 where "LOGGER_CAPTURE_CONTEXT \<equiv> 2"
abbreviation LOGGER_CAPTURE_SOURCE :: u32 where "LOGGER_CAPTURE_SOURCE \<equiv> 4"
abbreviation LOGGER_CAPTURE_PID :: u32 where "LOGGER_CAPTURE_PID \<equiv> 8"
abbreviation LOGGER_CAPTURE_TID :: u32 where "LOGGER_CAPTURE_TID \<equiv> 16"
abbreviation LOGGER_CAPTURE_RECORD_MASK :: u32 where "LOGGER_CAPTURE_RECORD_MASK \<equiv> 7"

definition capture_mask_from_config :: "logger_config_t \<Rightarrow> u32" where
  "capture_mask_from_config cfg =
     (let m0 = 0;
          m1 = (if LOGGER_DETAIL_NORMAL \<le> c_detail cfg then m0 OR LOGGER_CAPTURE_MODULE else m0);
          m2 = (if LOGGER_DETAIL_VERBOSE \<le> c_detail cfg \<and> c_include_pid cfg \<noteq> 0 then m1 OR LOGGER_CAPTURE_PID else m1);
          m3 = (if LOGGER_DETAIL_VERBOSE \<le> c_detail cfg \<and> c_include_tid cfg \<noteq> 0 then m2 OR LOGGER_CAPTURE_TID else m2);
          m4 = (if LOGGER_DETAIL_DEBUG \<le> c_detail cfg then m3 OR LOGGER_CAPTURE_CONTEXT else m3);
          m5 = (if LOGGER_DETAIL_DEBUG \<le> c_detail cfg \<and> c_include_source cfg \<noteq> 0 then m4 OR LOGGER_CAPTURE_SOURCE else m4)
      in m5)"

record logger_source_t =
  src_module :: cptr
  src_file :: cptr
  src_func :: cptr
  src_line :: int

text \<open>\<^verbatim>\<open>struct logger_message m = { .level = lv }\<close>.\<close>

definition blank_message :: "logger_level_t \<Rightarrow> logger_message" where
  "blank_message lv = \<lparr>m_level = lv, m_ts = \<lparr>tv_sec = 0, tv_nsec = 0\<rparr>, m_pid = 0, m_tid = 0, m_file = None, m_func = None,
     m_module = None, m_line = 0, m_metadata_mask = 0, m_request_id = replicate 64 NUL, m_session_id = replicate 64 NUL,
     m_trace_id = replicate 64 NUL, m_text_len = 0, m_text = replicate LOGGER_MESSAGE_MAX NUL,
     m_module_storage = replicate 128 NUL, m_file_storage = replicate 256 NUL, m_function_storage = replicate 128 NUL\<rparr>"

definition prepare_record_metadata :: "logger \<Rightarrow> thread_state \<Rightarrow> logger_message \<Rightarrow> logger_source_t \<Rightarrow> logger_message" where
  "prepare_record_metadata l t m src =
     (let mask = capture_mask l;
          m0 = m\<lparr>m_metadata_mask := ucast (mask AND LOGGER_CAPTURE_RECORD_MASK)\<rparr>;
          m1 = (if mask AND LOGGER_CAPTURE_MODULE \<noteq> 0 then m0\<lparr>m_module := src_module src\<rparr> else m0);
          m2 = (if mask AND LOGGER_CAPTURE_PID \<noteq> 0 then m1\<lparr>m_pid := l_pid l\<rparr> else m1);
          m3 = (if mask AND LOGGER_CAPTURE_TID \<noteq> 0 then m2\<lparr>m_tid := th_tid t\<rparr> else m2);
          m4 = (if mask AND LOGGER_CAPTURE_SOURCE \<noteq> 0
                then m3\<lparr>m_file := src_file src, m_line := src_line src, m_func := src_func src\<rparr> else m3)
      in if mask AND LOGGER_CAPTURE_CONTEXT \<noteq> 0 then capture_context t m4 else m4)"

end
