(* ===== verification/Logger_Emit.thy ===== *)
theory Logger_Emit
  imports Logger_Instance
begin

text \<open>
  \<^verbatim>\<open>src/logger_sigpipe.h\<close> and \<^verbatim>\<open>src/logger_worker.c\<close>: the signal guard, writing to \<^verbatim>\<open>stderr\<close>, the
  worker's workspace, emitting one record and a batch, and the worker's loop.

  The formatter's environment and timestamp cache belong to the calling thread. The stack buffer of
  a line starts with zeros. The worker waits on its condition variable: \<open>events\<close> lists, for the
  coming waits, the code the wait returns and what the other threads did to the instance and the
  domain meanwhile; when it is
  used up the worker sleeps for ever and has no result. The protocol around the wait is the subject
  of the theory \<open>Logger_Wakeup\<close>.
\<close>

section \<open>The signal guard\<close>

record logger_sigpipe_guard =
  old_mask :: bool
  was_pending :: bool

definition logger_sigpipe_begin :: "domain \<Rightarrow> int \<times> logger_sigpipe_guard \<times> domain" where
  "logger_sigpipe_begin d =
     (case sys_block_sigpipe d of (rc, old, d1) \<Rightarrow>
        if rc \<noteq> 0 then (- rc, \<lparr>old_mask = old, was_pending = False\<rparr>, d1)
        else case sys_sigpending d1 of
          (Inl e, d2) \<Rightarrow> (- errno_or e EIO, \<lparr>old_mask = old, was_pending = False\<rparr>, snd (sys_restore_sigmask old d2))
        | (Inr member, d2) \<Rightarrow> (0, \<lparr>old_mask = old, was_pending = member\<rparr>, d2))"

function sigtimedwait_loop :: "domain \<Rightarrow> domain" where
  "sigtimedwait_loop d =
     (case sys_sigtimedwait d of
        (Inr _, d1) \<Rightarrow> d1
      | (Inl e, d1) \<Rightarrow> if e = EAGAIN then d1 else if e = EINTR then sigtimedwait_loop d1 else d1)"
  by pat_completeness auto
termination
  by (relation "measure (\<lambda>d. length (k_locks d))")
    (auto simp: sys_sigtimedwait_def pthread_call_def split: list.splits if_splits prod.splits)

declare sigtimedwait_loop.simps [simp del]

definition logger_sigpipe_consume_new :: "bool \<Rightarrow> domain \<Rightarrow> domain" where
  "logger_sigpipe_consume_new pending_before d =
     (if pending_before then d
      else case sys_sigpending d of
        (Inl e, d1) \<Rightarrow> d1
      | (Inr member, d1) \<Rightarrow> if \<not> member then d1 else sigtimedwait_loop d1)"

definition logger_sigpipe_end :: "logger_sigpipe_guard \<Rightarrow> int \<Rightarrow> bool \<Rightarrow> domain \<Rightarrow> int \<times> domain" where
  "logger_sigpipe_end guard rc saw_epipe d =
     (let d1 = (if saw_epipe then logger_sigpipe_consume_new (was_pending guard) d else d) in
      case sys_restore_sigmask (old_mask guard) d1 of (restore, d2) \<Rightarrow>
        (if rc = 0 \<and> restore \<noteq> 0 then - restore else rc, d2))"

section \<open>Writing to stderr\<close>

text \<open>The loop of \<^verbatim>\<open>logger_stderr_writev_all\<close> over the entries still to write.\<close>

function stderr_loop :: "string list \<Rightarrow> domain \<Rightarrow> int \<times> domain" where
  "stderr_loop [] d = (0, d)"
| "stderr_loop (v # vs) d =
     (case sys_write_stderr (concat (v # vs)) d of
        (Inl e, d1) \<Rightarrow> if e = EINTR then stderr_loop (v # vs) d1 else (- errno_or e EIO, d1)
      | (Inr n, d1) \<Rightarrow> if n = 0 then (- EIO, d1) else stderr_loop (iov_advance n (v # vs)) d1)"
  by pat_completeness auto
termination
proof (relation "measure (\<lambda>(vs, d). length (concat vs) + length vs + length (k_calls d))", goal_cases)
  case (2 v vs d x d1 e)
  then show ?case using sys_write_stderr_progress [of "concat (v # vs)" d "Inl EINTR" d1] by auto
next
  case (3 v vs d x d1 n)
  have n: "n \<le> length (concat (v # vs))" "length (k_calls d1) \<le> length (k_calls d)"
    using 3 sys_write_stderr_progress [of "concat (v # vs)" d "Inr n" d1] by auto
  then have "length (concat (iov_advance n (v # vs))) + n = length (concat (v # vs))"
    by (simp only: concat_iov_advance length_drop)
  then show ?case using 3 n length_iov_advance [of n "v # vs"] by auto
qed auto

declare stderr_loop.simps(2) [simp del]

definition logger_stderr_writev_all :: "string list \<Rightarrow> domain \<Rightarrow> int \<times> domain" where
  "logger_stderr_writev_all v d =
     (case logger_sigpipe_begin d of (rc, guard, d1) \<Rightarrow>
        if rc \<noteq> 0 then (rc, d1)
        else case stderr_loop v d1 of (rc2, d2) \<Rightarrow> logger_sigpipe_end guard rc2 (rc2 = - EPIPE) d2)"

section \<open>The workspace\<close>

abbreviation BATCH_MAX :: nat where "BATCH_MAX \<equiv> 256"

text \<open>Sizes on LP64 of the workspace, a message, an \<^verbatim>\<open>iovec\<close> and a \<^verbatim>\<open>size_t\<close>.\<close>

abbreviation SIZEOF_WORKSPACE :: size_t where "SIZEOF_WORKSPACE \<equiv> 56"
abbreviation SIZEOF_MESSAGE :: size_t where "SIZEOF_MESSAGE \<equiv> 4864"
abbreviation SIZEOF_IOVEC :: size_t where "SIZEOF_IOVEC \<equiv> 16"

fun release_parts :: "nat list \<Rightarrow> domain \<Rightarrow> domain" where
  "release_parts [] d = d"
| "release_parts (a # as) d = release_parts as (snd (logger_runtime_free (Some a) d))"

text \<open>
  Allocate in order; a failure frees what was allocated, the latest first, as the cleanup attributes
  do. \<open>got\<close> holds the addresses, the latest first.
\<close>

fun allocate_parts :: "(size_t \<times> size_t) list \<Rightarrow> nat list \<Rightarrow> domain \<Rightarrow> (errno + nat list) \<times> domain" where
  "allocate_parts [] got d = (Inr got, d)"
| "allocate_parts ((count, each) # ps) got d =
     (case logger_runtime_calloc count each d of
        (Inl e, d1) \<Rightarrow> (Inl e, release_parts got d1)
      | (Inr a, d1) \<Rightarrow> allocate_parts ps (a # got) d1)"

definition logger_worker_workspace_create :: "size_t \<Rightarrow> domain \<Rightarrow> (errno + logger_worker_workspace) \<times> domain" where
  "logger_worker_workspace_create queue_cap d =
     (let c0 = (if queue_cap < of_nat BATCH_MAX then queue_cap else of_nat BATCH_MAX);
          capacity = (if c0 = 0 then 1 else c0) in
      case allocate_parts [(1, SIZEOF_WORKSPACE), (capacity, SIZEOF_MESSAGE), (capacity, SIZEOF_IOVEC), (capacity, SIZEOF_IOVEC),
          (1, capacity * of_nat LOGGER_LINE_MAX), (capacity, 8), (capacity, 1)] [] d of
        (Inl e, d1) \<Rightarrow> (Inl e, d1)
      | (Inr got, d1) \<Rightarrow> (Inr \<lparr>w_address = last got, w_parts = butlast got, w_capacity = unat capacity,
          w_batch = replicate (unat capacity) (blank_message 0)\<rparr>, d1))"

definition logger_worker_workspace_destroy :: "logger_worker_workspace option \<Rightarrow> domain \<Rightarrow> domain" where
  "logger_worker_workspace_destroy w d =
     (case w of None \<Rightarrow> d | Some ws \<Rightarrow> snd (logger_runtime_free (Some (w_address ws)) (release_parts (w_parts ws) d)))"

section \<open>One record\<close>

abbreviation fresh_line :: "char list" where "fresh_line \<equiv> replicate LOGGER_LINE_MAX NUL"

definition count_failed :: "logger \<Rightarrow> logger" where
  "count_failed l = l\<lparr>failed_records := failed_records l + 1, sync_completed := sync_completed l + 1\<rparr>"

text \<open>The three outputs in order, first error kept, with the emit lock held.\<close>

definition emit_outputs :: "logger \<Rightarrow> logger_message \<Rightarrow> bool \<Rightarrow> char list \<Rightarrow> nat \<Rightarrow> domain \<Rightarrow> int \<times> logger \<times> domain" where
  "emit_outputs l m force_sync line n d =
     (case (if l_outputs l AND LOGGER_OUT_STDERR \<noteq> 0 then logger_stderr_writev_all [take n line] d else (0, d)) of (rc1, d1) \<Rightarrow>
      case (if l_outputs l AND LOGGER_OUT_FILE \<noteq> 0
            then (case logger_file_write (file_backend l) (Some line) (of_nat n) (Some (m_ts m)) (force_sync \<or> flush_level l \<le> m_level m) d1 of
                    (x, f, d2) \<Rightarrow> (if rc1 = 0 then x else rc1, l\<lparr>file_backend := f\<rparr>, d2))
            else (rc1, l, d1)) of (rc2, l2, d2) \<Rightarrow>
      if l_outputs l2 AND LOGGER_OUT_SYSLOG \<noteq> 0
      then (case logger_syslog_write (syslog_backend l2) (m_level m) (Some line) (of_nat n) d2 of (r, s, d3) \<Rightarrow>
              (case r of Inl e \<Rightarrow> if rc2 = 0 then - errno_or e EIO else rc2 | Inr _ \<Rightarrow> rc2, l2\<lparr>syslog_backend := s\<rparr>, d3))
      else (rc2, l2, d2))"

definition logger_emit_status ::
  "logger \<Rightarrow> logger_message \<Rightarrow> bool \<Rightarrow> thread_state \<Rightarrow> domain \<Rightarrow> int \<times> logger \<times> thread_state \<times> domain" where
  "logger_emit_status l m force_sync t d =
     (case (if force_sync
            then (case logger_format_line_checked (th_format t) (th_cache t) (Some (format_config l)) (Some m) (Some fresh_line)
                         LOGGER_LINE_MAX True of (rc, n, line, cache) \<Rightarrow> (rc, n, the line, t\<lparr>th_cache := cache\<rparr>, l))
            else (case logger_format_line (th_format t) (th_cache t) (Some (format_config l)) (Some m) (Some fresh_line)
                         LOGGER_LINE_MAX of (n, err, line, cache) \<Rightarrow>
                    let t1 = t\<lparr>th_cache := cache\<rparr> in
                    if n = 0 then (let e = errno_or err EILSEQ in (- e, 0, the line, t1, count_failed (logger_note_io_error l e)))
                    else (0, n, the line, t1, l)))
      of (rc, n, line, t1, l1) \<Rightarrow>
        if rc \<noteq> 0 then (rc, l1, t1, d)
        else if synchronization_error l1 \<noteq> 0
        then (- synchronization_error l1, count_failed (logger_note_io_error l1 (synchronization_error l1)), t1, d)
        else case pthread_call d of (locked, d1) \<Rightarrow>
          if locked \<noteq> 0 then (- locked, count_failed (logger_note_io_error l1 locked), t1, d1)
          else case emit_outputs l1 m force_sync line n d1 of (rc2, l2, d2) \<Rightarrow>
            case pthread_call d2 of (unlocked, d3) \<Rightarrow>
              let l3 = (if unlocked \<noteq> 0 then logger_note_synchronization_error l2 (- unlocked) else l2);
                  rc3 = (if unlocked \<noteq> 0 \<and> rc2 = 0 then - unlocked else rc2);
                  l4 = (if rc3 < 0
                        then (let l' = logger_note_io_error l3 (- rc3) in l'\<lparr>failed_records := failed_records l' + 1\<rparr>)
                        else l3\<lparr>emitted_records := emitted_records l3 + 1\<rparr>)
              in (rc3, l4\<lparr>sync_completed := sync_completed l4 + 1\<rparr>, t1, d3))"

section \<open>A batch\<close>

text \<open>The lines of a batch, their lengths and the first format error (0 for none).\<close>

fun format_batch :: "logger \<Rightarrow> errno \<Rightarrow> logger_message list \<Rightarrow> thread_state \<Rightarrow> (char list \<times> nat) list \<times> errno \<times> thread_state" where
  "format_batch l format_error [] t = ([], format_error, t)"
| "format_batch l format_error (m # ms) t =
     (case logger_format_line (th_format t) (th_cache t) (Some (format_config l)) (Some m) (Some fresh_line) LOGGER_LINE_MAX of
        (n, err, line, cache) \<Rightarrow>
          case format_batch l (if n = 0 \<and> format_error = 0 then errno_or err EILSEQ else format_error) ms (t\<lparr>th_cache := cache\<rparr>) of
            (lines, e, t') \<Rightarrow> ((the line, n) # lines, e, t'))"

fun syslog_batch :: "logger_message list \<Rightarrow> (char list \<times> nat) list \<Rightarrow> bool list \<Rightarrow> logger \<Rightarrow> domain \<Rightarrow> bool list \<times> logger \<times> domain" where
  "syslog_batch (m # ms) ((line, n) # lines) (b # bs) l d =
     (case logger_syslog_write (syslog_backend l) (m_level m) (Some line) (of_nat n) d of (r, s, d1) \<Rightarrow>
        let l1 = l\<lparr>syslog_backend := s\<rparr> in
        case (case r of Inl e \<Rightarrow> (True, logger_note_io_error l1 (errno_or e EIO)) | Inr _ \<Rightarrow> (b, l1)) of (b', l2) \<Rightarrow>
          case syslog_batch ms lines bs l2 d1 of (bs', l3, d2) \<Rightarrow> (b' # bs', l3, d2))"
| "syslog_batch ms lines bs l d = (bs, l, d)"

definition batch_stderr :: "string list \<Rightarrow> bool list \<Rightarrow> logger \<Rightarrow> domain \<Rightarrow> bool list \<times> logger \<times> domain" where
  "batch_stderr vec failed l d =
     (if l_outputs l AND LOGGER_OUT_STDERR \<noteq> 0
      then (case logger_stderr_writev_all vec d of (rc, d1) \<Rightarrow>
              if rc < 0 then (map (\<lambda>_. True) failed, logger_note_io_error l (- rc), d1) else (failed, l, d1))
      else (failed, l, d))"

definition batch_file :: "logger_message list \<Rightarrow> string list \<Rightarrow> bool list \<Rightarrow> logger \<Rightarrow> domain \<Rightarrow> bool list \<times> logger \<times> domain" where
  "batch_file ms vec failed l d =
     (if l_outputs l AND LOGGER_OUT_FILE \<noteq> 0
      then (let bytes = of_nat (sum_list (map length vec));
                need_sync = list_ex (\<lambda>m. flush_level l \<le> m_level m) ms
            in case logger_file_writev (file_backend l) vec bytes (Some (m_ts (last ms))) need_sync d of (rc, f, d1) \<Rightarrow>
                 let l1 = l\<lparr>file_backend := f\<rparr> in
                 if rc < 0 then (map (\<lambda>_. True) failed, logger_note_io_error l1 (- rc), d1) else (failed, l1, d1))
      else (failed, l, d))"

definition batch_outputs :: "logger_message list \<Rightarrow> (char list \<times> nat) list \<Rightarrow> bool list \<Rightarrow> logger \<Rightarrow> domain \<Rightarrow> bool list \<times> logger \<times> domain" where
  "batch_outputs ms lines failed l d =
     (let vec = map (\<lambda>(line, n). take n line) lines in
      case batch_stderr vec failed l d of (failed1, l1, d1) \<Rightarrow>
      case batch_file ms vec failed1 l1 d1 of (failed2, l2, d2) \<Rightarrow>
        if l_outputs l2 AND LOGGER_OUT_SYSLOG \<noteq> 0 then syslog_batch ms lines failed2 l2 d2 else (failed2, l2, d2))"

definition account_batch :: "bool list \<Rightarrow> logger \<Rightarrow> logger" where
  "account_batch failed l =
     (let bad = of_nat (length (filter id failed)) in
      l\<lparr>failed_records := failed_records l + bad, emitted_records := emitted_records l + (of_nat (length failed) - bad)\<rparr>)"

definition emit_batch :: "logger \<Rightarrow> logger_message list \<Rightarrow> thread_state \<Rightarrow> domain \<Rightarrow> logger \<times> thread_state \<times> domain" where
  "emit_batch l ms t d =
     (let none_failed = replicate (length ms) False; all_failed = replicate (length ms) True in
      case format_batch l 0 ms t of (lines, format_error, t1) \<Rightarrow>
        if format_error \<noteq> 0 then (account_batch all_failed (logger_note_io_error l format_error), t1, d)
        else case pthread_call d of (locked, d1) \<Rightarrow>
          if locked \<noteq> 0
          then (account_batch all_failed (logger_note_lifecycle_error (logger_note_io_error l locked) locked), t1, d1)
          else case batch_outputs ms lines none_failed l d1 of (failed, l1, d2) \<Rightarrow>
            case pthread_call d2 of (unlocked, d3) \<Rightarrow>
              if unlocked \<noteq> 0
              then (account_batch all_failed (logger_note_synchronization_error (logger_note_io_error l1 unlocked) (- unlocked)), t1, d3)
              else (account_batch failed l1, t1, d3))"

section \<open>The worker\<close>

type_synonym wait_event = "errno \<times> (logger \<times> domain \<Rightarrow> logger \<times> domain)"

fun wait_loop :: "wait_event list \<Rightarrow> logger \<Rightarrow> domain \<Rightarrow> (logger \<times> domain \<times> wait_event list) option" where
  "wait_loop events l d =
     (if logger_queue_empty (l_q l) \<and> l_running l
      then let l1 = l\<lparr>l_q := logger_queue_wait_arm_recheck (l_q l)\<rparr> in
        if \<not> logger_queue_empty (l_q l1) \<or> \<not> l_running l1 then Some (l1, d, events)
        else let l2 = l1\<lparr>l_q := (l_q l1)\<lparr>q_wait_count := q_wait_count (l_q l1) + 1\<rparr>\<rparr> in
          case events of
            [] \<Rightarrow> None
          | (wait_rc, others) # events' \<Rightarrow>
            (case others (l2, d) of (l3, d3) \<Rightarrow>
               if wait_rc \<noteq> 0
               then Some (l3\<lparr>lifecycle_error := sticky (lifecycle_error l3) wait_rc, l_state := LOGGER_STATE_STOPPING, l_running := False\<rparr>, d3, events')
               else wait_loop events' l3 d3)
      else Some (l, d, events))"

declare wait_loop.simps [simp del]

text \<open>The final broadcast when the worker leaves with an error.\<close>

definition worker_leave :: "logger \<Rightarrow> domain \<Rightarrow> logger \<times> domain" where
  "worker_leave l d =
     (case (if lifecycle_error l \<noteq> 0
            then (case pthread_call d of (rc, d1) \<Rightarrow>
                    if rc = 0 then (case pthread_call d1 of (_, d2) \<Rightarrow> case pthread_call d2 of (unlocked, d3) \<Rightarrow>
                      (if unlocked \<noteq> 0 then logger_note_synchronization_error l (- unlocked) else l, d3))
                    else (logger_note_lifecycle_error l rc, d1))
            else (l, d)) of (l1, d4) \<Rightarrow> (l1, logger_scope_worker_leave d4))"

text \<open>Publishing progress after a batch: the instance, the domain, and whether the worker leaves.\<close>

definition worker_progress :: "logger \<Rightarrow> domain \<Rightarrow> bool \<times> logger \<times> domain" where
  "worker_progress l d =
     (case pthread_call d of (locked, d1) \<Rightarrow>
        if locked \<noteq> 0 then (False, logger_note_lifecycle_error l locked, d1)
        else let l1 = l\<lparr>completed_pos := q_dequeue_pos (l_q l)\<rparr> in
          case pthread_call d1 of (_, d2) \<Rightarrow> case pthread_call d2 of (unlocked, d3) \<Rightarrow>
            if unlocked \<noteq> 0 then (True, logger_note_synchronization_error l1 (- unlocked), d3) else (False, l1, d3))"

text \<open>A non-empty batch: count, emit, complete, publish.\<close>

definition worker_batch :: "logger \<Rightarrow> logger_message list \<Rightarrow> thread_state \<Rightarrow> domain \<Rightarrow> bool \<times> logger \<times> thread_state \<times> domain" where
  "worker_batch l ms t d =
     (let l1 = l\<lparr>consumer_batches := consumer_batches l + 1, consumer_records := consumer_records l + of_nat (length ms)\<rparr> in
      case emit_batch l1 ms t d of (l2, t2, d2) \<Rightarrow>
        let l3 = l2\<lparr>async_completed := async_completed l2 + of_nat (length ms)\<rparr> in
        if synchronization_error l3 \<noteq> 0 then (True, l3, t2, d2)
        else case worker_progress l3 d2 of (leave, l4, d3) \<Rightarrow> (leave, l4, t2, d3))"

text \<open>An empty queue: wait under the lock; the result says whether the worker leaves.\<close>

definition worker_wait :: "wait_event list \<Rightarrow> logger \<Rightarrow> domain \<Rightarrow> (bool \<times> wait_event list \<times> logger \<times> domain) option" where
  "worker_wait events l d =
     (case pthread_call d of (locked, d1) \<Rightarrow>
        if locked \<noteq> 0 then Some (True, events, logger_note_lifecycle_error l locked, d1)
        else case wait_loop events l d1 of
          None \<Rightarrow> None
        | Some (l1, dw, events1) \<Rightarrow>
          let l2 = l1\<lparr>l_q := logger_queue_wait_disarm (l_q l1)\<rparr>;
              stop = (\<not> l_running l2 \<and> logger_queue_empty (l_q l2))
          in case pthread_call dw of (unlocked, d2) \<Rightarrow>
               if unlocked \<noteq> 0 then Some (True, events1, logger_note_synchronization_error l2 (- unlocked), d2)
               else Some (stop, events1, l2, d2))"

text \<open>
  The loop of \<^verbatim>\<open>logger_worker_main\<close>. \<open>fuel\<close> bounds the iterations; the result is \<^const>\<open>None\<close> when it is
  used up or the worker sleeps for ever.
\<close>

fun worker_loop :: "nat \<Rightarrow> wait_event list \<Rightarrow> logger \<Rightarrow> thread_state \<Rightarrow> domain \<Rightarrow> (logger \<times> thread_state \<times> domain) option" where
  "worker_loop 0 events l t d = None"
| "worker_loop (Suc fuel) events l t d =
     (case worker_workspace l of
        None \<Rightarrow> None
      | Some ws \<Rightarrow>
        (case logger_queue_drain (l_q l) (w_batch ws) of (q, ms) \<Rightarrow>
           let l1 = l\<lparr>l_q := q, worker_workspace := Some (ws\<lparr>w_batch := ms @ drop (length ms) (w_batch ws)\<rparr>)\<rparr> in
           if ms \<noteq> []
           then (case worker_batch l1 ms t d of (leave, l2, t2, d2) \<Rightarrow>
                   if leave then Some (l2, t2, d2) else worker_loop fuel events l2 t2 d2)
           else (case worker_wait events l1 d of
                   None \<Rightarrow> None
                 | Some (leave, events2, l2, d2) \<Rightarrow>
                   if leave then Some (l2, t, d2) else worker_loop fuel events2 l2 t d2)))"

definition logger_worker_main ::
  "nat \<Rightarrow> wait_event list \<Rightarrow> logger \<Rightarrow> thread_state \<Rightarrow> domain \<Rightarrow> (logger \<times> thread_state \<times> domain) option" where
  "logger_worker_main fuel events l t d =
     map_option (\<lambda>(l1, t1, d1). case worker_leave l1 d1 of (l2, d2) \<Rightarrow> (l2, t1, d2))
       (worker_loop fuel events l t (logger_scope_worker_enter d))"

end
