(* ===== verification/Logger_View.thy ===== *)
theory Logger_View
  imports Logger_Frame Logger_Process
begin

text \<open>
  What the operations on descriptors, locks, memory and the log file leave alone. A view is any part of
  the process state that the schedule, the descriptor table, the directory with its inodes and the
  bookkeeping of the resource gate do not reach. The locale proves once that every operation keeps
  every view; the theories that need a particular one interpret it.
\<close>

text \<open>The fields of the runtime object that only its owners touch: the live instances, the default binding, the console.\<close>

definition runtime_kept :: "(logger_runtime \<Rightarrow> logger_runtime) \<Rightarrow> bool" where
  "runtime_kept g \<longleftrightarrow> (\<forall>r. live_objects (g r) = live_objects r \<and> global_logger (g r) = global_logger r \<and>
     global_ticket (g r) = global_ticket r \<and> global_lock_error (g r) = global_lock_error r \<and>
     console_config (g r) = console_config r \<and> console_lock_error (g r) = console_lock_error r)"

locale domain_view =
  fixes view :: "domain \<Rightarrow> 'v"
  assumes view_kernel [simp]:
    "view (d\<lparr>k_calls := a\<rparr>) = view d" "view (d\<lparr>k_locks := b\<rparr>) = view d" "view (d\<lparr>k_table := c\<rparr>) = view d"
    "view (d\<lparr>k_flocks := e\<rparr>) = view d" "view (d\<lparr>k_tick := g\<rparr>) = view d" "view (d\<lparr>k_dir := h\<rparr>) = view d"
    "view (d\<lparr>k_inodes := i\<rparr>) = view d"
  and view_domain [simp]:
    "view (d\<lparr>in_gate := x2\<rparr>) = view d" "view (d\<lparr>poisons := x3\<rparr>) = view d" "view (d\<lparr>entered := x4\<rparr>) = view d"
    "view (d\<lparr>directory_lease := x5\<rparr>) = view d" "view (d\<lparr>in_runtime := x6\<rparr>) = view d" "view (d\<lparr>next_address := x7\<rparr>) = view d"
  and view_runtime: "runtime_kept f \<Longrightarrow> view (update_runtime f d) = view d"
begin

lemma next_call_view [simp]: "view (snd (next_call k)) = view k"
  by (simp add: next_call_def split: list.splits)

lemma syscall_view:
  assumes "\<And>k. view (snd (op k)) = view k"
  shows "view (snd (syscall op k)) = view k"
  using assms by (simp add: syscall_def case_prod_beta split: outcome.splits)

lemma pure_view [simp]: "view (snd (syscall (\<lambda>k. (r, k)) k)) = view k"
  by (rule syscall_view) simp

lemma install_view [simp]: "view (snd (install_obj x k)) = view k"
  by (simp add: install_obj_def Let_def)

lemma existing_view [simp]: "view (snd (open_existing fl i k)) = view k"
  by (simp add: open_existing_def split: option.splits)

lemma calls_view [simp]:
  "view (snd (sys_fstat fd k)) = view k" "view (snd (sys_fstatat fd name k)) = view k"
  "view (snd (sys_fpathconf fd k)) = view k" "view (snd (sys_fsync fd k)) = view k"
  "view (snd (sys_flock fd k)) = view k" "view (snd (sys_realtime k)) = view k"
  "view (snd (sys_monotonic k)) = view k" "view (snd (sys_time k)) = view k"
  "view (snd (sys_getcwd n k)) = view k" "view (snd (sys_socket k)) = view k"
  "view (snd (sys_connect fd p k)) = view k" "view (snd (sys_open_dir p k)) = view k"
  "view (snd (sys_openat fd name fl k)) = view k" "view (snd (sys_unlinkat fd name k)) = view k"
  "view (snd (sys_renameat2_noreplace fd a b k)) = view k"
  unfolding sys_fstat_def sys_fstatat_def sys_fpathconf_def sys_fsync_def sys_flock_def sys_realtime_def
    sys_monotonic_def sys_time_def tick_def sys_getcwd_def sys_socket_def sys_connect_def sys_open_dir_def
    sys_openat_def sys_unlinkat_def sys_renameat2_noreplace_def create_file_def
  by (rule syscall_view; simp split: frame_splits | simp)+

lemma close_write_view [simp]:
  "view (snd (sys_close fd k)) = view k" "view (append_data i p k) = view k"
  "view (snd (sys_write fd p k)) = view k"
  by (simp_all add: sys_close_def release_fd_def sys_write_def append_data_def case_prod_beta split: frame_splits)

lemma gate_view [simp]:
  "view (snd (pthread_call k)) = view k"
  "view (logger_fork_resource_poison e d) = view d" "view (waited d) = view d"
  by (simp_all add: pthread_call_def logger_fork_resource_poison_def waited_def Let_def view_runtime runtime_kept_def split: list.splits)

lemma enter_leave_view [simp]:
  "view (snd (logger_fork_resource_enter d)) = view d" "view (snd (logger_fork_resource_leave e d)) = view d"
  by (simp_all add: logger_fork_resource_enter_def logger_fork_resource_leave_def Let_def case_prod_beta)

lemma bitmap_view [simp]:
  "view (snd (grow_for fd d)) = view d" "view (snd (register_fd fd d)) = view d"
  "view (unregister_fd fd d) = view d" "view (snd (release_empty d)) = view d"
  by (simp_all add: grow_for_def register_fd_def unregister_fd_def release_empty_def Let_def view_runtime runtime_kept_def
      case_prod_beta split: frame_splits)

lemma libc_view [simp]:
  "view (snd (libc_begin d)) = view d" "view (snd (libc_end e d)) = view d"
  by (simp_all add: libc_begin_def libc_end_def Let_def case_prod_beta)

lemma libc_calls_view [simp]:
  "view (snd (logger_libc_vsnprintf s d)) = view d" "view (snd (logger_libc_snprintf s d)) = view d"
  "view (snd (logger_libc_localtime_r sec d)) = view d" "view (snd (logger_libc_gmtime_r sec d)) = view d"
  "view (snd (logger_libc_strftime n s d)) = view d"
  by (simp_all add: logger_libc_vsnprintf_def logger_libc_snprintf_def logger_libc_localtime_r_def
      logger_libc_gmtime_r_def logger_libc_strftime_def libc_call_def Let_def case_prod_beta split: frame_splits)

lemma acquired_view [simp]: "view (snd (acquired r d)) = view d"
  by (simp add: acquired_def Let_def case_prod_beta split: sum.splits)

lemma fork_view [simp]:
  "view (snd (logger_fork_open p d)) = view d" "view (snd (logger_fork_openat fd p fl d)) = view d"
  "view (snd (logger_fork_socket d)) = view d" "view (snd (logger_fork_close fd d)) = view d"
  "view (snd (logger_fork_closedir fd d)) = view d"
  by (simp_all add: logger_fork_open_def logger_fork_openat_def logger_fork_socket_def logger_fork_close_def
      logger_fork_closedir_def Let_def case_prod_beta)

lemma fdopendir_view [simp]: "view (snd (logger_fork_fdopendir fd d)) = view d"
proof -
  have "view (snd (syscall (\<lambda>k. if is_dir_fd k fd then (Inr (map fst (k_dir k)), k) else (Inl ENOTDIR, k)) k)) = view k"
    for k
    by (rule syscall_view) simp
  then show ?thesis by (simp add: logger_fork_fdopendir_def Let_def case_prod_beta split: sum.splits)
qed

lemma owner_view [simp]:
  "view (snd (snd (logger_fd_close_status owner d))) = view d"
  "view (logger_fd_cleanup owner d) = view d"
  "view (snd (snd (logger_fd_fdopendir owner d))) = view d"
  by (simp_all add: logger_fd_close_status_def logger_fd_cleanup_def logger_fd_take_def logger_fd_fdopendir_def
      case_prod_beta split: sum.splits)


section \<open>The file backend\<close>

lemma fsync_retry_view [simp]: "view (snd (fsync_retry fd d)) = view d"
proof (induction fd d rule: fsync_retry.induct)
  case (1 fd d)
  obtain r d1 where call: "sys_fsync fd d = (r, d1)" by fastforce
  then have "view d1 = view d" using calls_view(4) [of fd d] by simp
  then show ?case using 1 [OF call [symmetric]] by (simp add: fsync_retry.simps [of fd d] call)
qed

lemma query_view [simp]:
  "view (snd (wall_day sec d)) = view d" "view (snd (check_named_fd a b c d)) = view d"
  by (simp_all add: wall_day_def check_named_fd_def case_prod_beta split: sum.splits)

lemma check_view [simp]:
  "view (snd (check_owner f d)) = view d" "view (snd (check_active f d)) = view d"
  by (simp_all add: check_owner_def check_active_def case_prod_beta split: sum.splits)

lemma archive_view [simp]:
  "view (snd (timestamp_valid t d)) = view d" "view (snd (snd (advance_microsecond t d))) = view d"
  "view (snd (archive_name f t cap d)) = view d" "view (snd (archive_start f d)) = view d"
  by (simp_all add: timestamp_valid_def advance_microsecond_def archive_name_def archive_start_def Let_def
      case_prod_beta split: sum.splits)

lemma sync_view [simp]:
  "view (snd (snd (sync_data f fd d))) = view d" "view (snd (snd (sync_directory f d))) = view d"
  "view (snd (snd (logger_file_sync f d))) = view d"
  by (simp_all add: sync_data_def sync_directory_def logger_file_sync_def Let_def case_prod_beta split: sum.splits)

lemma open_view [simp]:
  "view (snd (snd (open_candidate f x d))) = view d" "view (snd (snd (open_next f t d))) = view d"
  by (simp_all add: open_candidate_def open_next_def Let_def case_prod_beta split: sum.splits)

lemma rename_view [simp]: "view (snd (logger_file_rename_noreplace fd a b d)) = view d"
  by (simp add: logger_file_rename_noreplace_def case_prod_beta split: sum.splits)

lemma archive_loop_view [simp]: "view (snd (snd (archive_loop n f t d))) = view d"
  by (induction n arbitrary: t d) (simp_all add: case_prod_beta split: sum.splits)

lemma retention_loop_view [simp]: "view (snd (snd (snd (retention_loop f now s names c d)))) = view d"
  by (induction names arbitrary: f c d) (subst retention_loop.simps, simp add: case_prod_beta split: sum.splits)+

lemma retention_view [simp]: "view (snd (snd (retention f now d))) = view d"
  by (simp add: retention_def Let_def case_prod_beta split: sum.splits)

lemma rotate_view [simp]:
  "view (snd (snd (rotate_impl f d))) = view d" "view (snd (snd (rotate_file f d))) = view d"
  by (simp_all add: rotate_impl_def rotate_file_def Let_def case_prod_beta split: sum.splits)

lemma prepare_view [simp]: "view (snd (snd (prepare_write f n t d))) = view d"
  by (simp add: prepare_write_def Let_def case_prod_beta split: sum.splits option.splits)

lemma write_all_view [simp]: "view (snd (snd (snd (write_all f fd p w d)))) = view d"
proof (induction f fd p w d rule: write_all.induct)
  case (1 f fd p w d)
  obtain r d1 where call: "sys_write fd p d = (r, d1)" by fastforce
  then have "view d1 = view d" using close_write_view(3) [of fd p d] by simp
  then show ?case using 1 [OF _ refl call [symmetric]]
    by (subst write_all.simps) (auto simp: call Let_def split: sum.splits)
qed

lemma write_vall_view [simp]: "view (snd (snd (snd (write_vall f vs w d)))) = view d"
proof (induction f vs w d rule: write_vall.induct)
  case (2 f v vs w d)
  let ?p = "concat (take (nat (f_iov_max f)) (v # vs))"
  obtain r d1 where call: "sys_write (file_data_fd f) ?p d = (r, d1)" by fastforce
  then have "view d1 = view d" using close_write_view(3) [of "file_data_fd f" ?p d] by simp
  then show ?case using 2(1) 2(2,3) [OF _ refl refl call [symmetric]]
    by (subst write_vall.simps) (auto simp del: concat.simps take_Suc_Cons simp: call Let_def split: sum.splits)
qed simp

lemma file_write_view [simp]:
  "view (snd (snd (finish_write rc w sync f d))) = view d"
  "view (snd (snd (logger_file_write f p n t sync d))) = view d"
  "view (snd (snd (logger_file_writev f v n t sync d))) = view d"
  by (simp_all add: finish_write_def logger_file_write_def logger_file_writev_def Let_def case_prod_beta split: option.splits)

end

end
