(* ===== verification/Logger_Streams.thy ===== *)
theory Logger_Streams
  imports Logger_View
begin

text \<open>
  What the operations on files, descriptors and locks leave alone of the other outputs:
  \<open>streams_of\<close> is everything written to \<^verbatim>\<open>stderr\<close>, every datagram sent, the signal state and the process number.
\<close>

definition streams_of :: "'a kernel_scheme \<Rightarrow> string \<times> string list \<times> bool \<times> bool \<times> nat \<times> int" where
  "streams_of k = (k_stderr k, k_sent k, k_sig_blocked k, k_sig_pending k, k_sig_raised k, k_pid k)"

lemma streams_of_updates [simp]:
  "streams_of (k\<lparr>k_calls := a\<rparr>) = streams_of k" "streams_of (k\<lparr>k_locks := b\<rparr>) = streams_of k"
  "streams_of (k\<lparr>k_table := c\<rparr>) = streams_of k" "streams_of (k\<lparr>k_flocks := e\<rparr>) = streams_of k"
  "streams_of (k\<lparr>k_tick := g\<rparr>) = streams_of k" "streams_of (k\<lparr>k_dir := h\<rparr>) = streams_of k"
  "streams_of (k\<lparr>k_inodes := i\<rparr>) = streams_of k"
  by (simp_all add: streams_of_def)

lemma streams_of_domain [simp]:
  "streams_of (d\<lparr>current := x1\<rparr>) = streams_of d" "streams_of (d\<lparr>in_gate := x2\<rparr>) = streams_of d"
  "streams_of (d\<lparr>poisons := x3\<rparr>) = streams_of d" "streams_of (d\<lparr>entered := x4\<rparr>) = streams_of d"
  "streams_of (d\<lparr>directory_lease := x5\<rparr>) = streams_of d" "streams_of (d\<lparr>in_runtime := x6\<rparr>) = streams_of d"
  "streams_of (d\<lparr>next_address := x7\<rparr>) = streams_of d" "streams_of (d\<lparr>in_global := x8\<rparr>) = streams_of d"
  by (simp_all add: streams_of_def)

interpretation streams: domain_view streams_of
  by unfold_locales (simp_all add: update_runtime_def)

lemma update_streams [simp]: "streams_of (update_runtime g d) = streams_of d"
  by (simp add: update_runtime_def)

end
