(* ===== verification/Logger_Syslog_Props.thy ===== *)
theory Logger_Syslog_Props
  imports Logger_Syslog Logger_Streams Logger_File_Main
begin

text \<open>
  Properties of the datagram backend: every record is accounted for once, a datagram is sent at most
  once and whole on success, reconnection respects the cooldown, and initialisation admits only
  identities that cannot forge the envelope.
\<close>

section \<open>Accounting\<close>

definition syslog_ok :: "logger_syslog \<Rightarrow> bool" where
  "syslog_ok s \<longleftrightarrow> submitted_records (s_metrics s) = sent_records (s_metrics s) + sm_failed_records (s_metrics s) \<and>
     (connected (s_metrics s) \<longleftrightarrow> logger_fd_valid (s_fd s))"

text \<open>The record counters, and everything the object keeps from its configuration.\<close>

definition record_counts :: "logger_syslog \<Rightarrow> u64 \<times> u64 \<times> u64" where
  "record_counts s = (submitted_records (s_metrics s), sent_records (s_metrics s), sm_failed_records (s_metrics s))"

definition syslog_settings :: "logger_syslog \<Rightarrow> string \<times> string \<times> u32 \<times> logger_duration_ms" where
  "syslog_settings s = (s_ident s, s_path s, s_facility s, reconnect_interval_ms s)"

lemma note_metrics_fields [simp]:
  "s_metrics (note_metrics g s) = g (s_metrics s)" "s_fd (note_metrics g s) = s_fd s" "s_ident (note_metrics g s) = s_ident s"
  "s_path (note_metrics g s) = s_path s" "s_facility (note_metrics g s) = s_facility s"
  "reconnect_interval_ms (note_metrics g s) = reconnect_interval_ms s" "retry_from_ms (note_metrics g s) = retry_from_ms s"
  "retry_clock_pending (note_metrics g s) = retry_clock_pending s" "connection_error (note_metrics g s) = connection_error s"
  by (simp_all add: note_metrics_def)

lemmas syslog_views = record_counts_def syslog_settings_def

lemma fork_socket_fd: "fst (logger_fork_socket d) = Inr fd \<Longrightarrow> 0 \<le> fd"
  by (auto simp: logger_fork_socket_def acquired_def sys_socket_def syscall_def install_obj_def Let_def case_prod_beta
      split: if_splits sum.splits outcome.splits)

lemma monotonic_ms_frame [simp]:
  "streams_of (snd (monotonic_ms d)) = streams_of d" "files_of (snd (monotonic_ms d)) = files_of d"
  by (simp_all add: monotonic_ms_def Let_def case_prod_beta split: sum.splits)

lemma socket_frame [simp]: "files_of (snd (logger_fork_socket d)) = files_of d"
proof -
  have "files_of (snd (sys_socket k)) = files_of k" for k :: domain
    unfolding sys_socket_def by (rule syscall_frame) (simp add: install_obj_def Let_def)
  then show ?thesis
    by (simp add: logger_fork_socket_def acquired_def Let_def case_prod_beta split: sum.splits)
qed

lemma connect_frame [simp]: "files_of (snd (sys_connect fd p k)) = files_of k"
  unfolding sys_connect_def by (rule syscall_frame) (simp split: frame_splits)

lemma connect_failed_keeps [simp]:
  "submitted_records (s_metrics (connect_failed e s)) = submitted_records (s_metrics s)"
  "sent_records (s_metrics (connect_failed e s)) = sent_records (s_metrics s)"
  "sm_failed_records (s_metrics (connect_failed e s)) = sm_failed_records (s_metrics s)"
  "s_ident (connect_failed e s) = s_ident s" "s_path (connect_failed e s) = s_path s"
  "s_facility (connect_failed e s) = s_facility s" "reconnect_interval_ms (connect_failed e s) = reconnect_interval_ms s"
  "send_attempts (s_metrics (connect_failed e s)) = send_attempts (s_metrics s)"
  "connect_attempts (s_metrics (connect_failed e s)) = connect_attempts (s_metrics s)"
  "connected (s_metrics (connect_failed e s)) = connected (s_metrics s)" "s_fd (connect_failed e s) = s_fd s"
  "retry_from_ms (connect_failed e s) = retry_from_ms s"
  by (simp_all add: connect_failed_def Let_def)

lemma connect_once_facts:
  assumes "connect_once s d = (r, deferable, s', d')"
  shows "record_counts s' = record_counts s" "syslog_settings s' = syslog_settings s"
    "send_attempts (s_metrics s') = send_attempts (s_metrics s)" "retry_from_ms s' = retry_from_ms s"
    "connect_attempts (s_metrics s') = connect_attempts (s_metrics s) + 1"
    "streams_of d' = streams_of d" "files_of d' = files_of d"
    "\<not> logger_fd_valid (s_fd s) \<Longrightarrow> \<not> connected (s_metrics s) \<Longrightarrow> connected (s_metrics s') \<longleftrightarrow> logger_fd_valid (s_fd s')"
    "r = Inr () \<Longrightarrow> logger_fd_valid (s_fd s')"
proof -
  obtain r1 d1 where c1: "logger_fork_socket d = (r1, d1)" by fastforce
  have f1: "streams_of d1 = streams_of d" "files_of d1 = files_of d"
    using streams.fork_view(3) [of d] socket_frame [of d] c1 by simp_all
  have fd1: "r1 = Inr fd \<Longrightarrow> 0 \<le> fd" for fd using fork_socket_fd [of d fd] c1 by simp
  obtain r2 d2 where c2: "sys_connect (projr r1) (s_path s) d1 = (r2, d2)" by fastforce
  have f2: "streams_of d2 = streams_of d1" "files_of d2 = files_of d1"
    using streams.calls_view(11) [of "projr r1" "s_path s" d1] connect_frame [of "projr r1" "s_path s" d1] c2 by simp_all
  obtain rc sp d3 where c3: "logger_fd_close_status \<lparr>fd_value = projr r1\<rparr> d2 = (rc, sp, d3)" using prod_cases3 by blast
  have f3: "streams_of d3 = streams_of d2" "files_of d3 = files_of d2"
    using streams.owner_view(1) [of "\<lparr>fd_value = projr r1\<rparr>" d2] close_frame(6) [of "\<lparr>fd_value = projr r1\<rparr>" d2] c3 by simp_all
  note eqs = assms [unfolded connect_once_def c1 Let_def] c2 c3 f1 f2 f3 fd1
  show "record_counts s' = record_counts s" "syslog_settings s' = syslog_settings s"
    "send_attempts (s_metrics s') = send_attempts (s_metrics s)" "retry_from_ms s' = retry_from_ms s"
    "connect_attempts (s_metrics s') = connect_attempts (s_metrics s) + 1"
    "streams_of d' = streams_of d" "files_of d' = files_of d"
    "\<not> logger_fd_valid (s_fd s) \<Longrightarrow> \<not> connected (s_metrics s) \<Longrightarrow> connected (s_metrics s') \<longleftrightarrow> logger_fd_valid (s_fd s')"
    "r = Inr () \<Longrightarrow> logger_fd_valid (s_fd s')"
    using eqs
    by (auto simp: logger_fd_own_def logger_fd_number_def logger_fd_move_def logger_fd_take_def logger_fd_valid_def
        syslog_views split: sum.splits if_splits)
qed


section \<open>Sending\<close>

lemma sys_send_facts:
  assumes "sys_send fd p k = (r, k')"
  shows "files_of k' = files_of k" "(k_stderr k', k_pid k') = (k_stderr k, k_pid k)"
    "\<forall>e. r = Inl e \<longrightarrow> k_sent k' = k_sent k" "\<forall>n. r = Inr n \<longrightarrow> n \<le> length p \<and> k_sent k' = k_sent k @ [take n p]"
  using assms
  by (auto simp: sys_send_def transfer_def next_call_def files_of_def split: prod.splits frame_splits)

text \<open>The send loop keeps the connection, tries at most as often as it may, and sends at most one datagram.\<close>

lemma send_loop_facts:
  assumes "send_loop k e fd p s d = (r, s', d')"
  shows "s_fd s' = s_fd s \<and> connected (s_metrics s') = connected (s_metrics s) \<and> syslog_settings s' = syslog_settings s \<and>
    connect_attempts (s_metrics s') = connect_attempts (s_metrics s) \<and> retry_from_ms s' = retry_from_ms s \<and>
    submitted_records (s_metrics s') = submitted_records (s_metrics s) \<and>
    sm_failed_records (s_metrics s') = sm_failed_records (s_metrics s) \<and>
    files_of d' = files_of d \<and> (k_stderr d', k_pid d') = (k_stderr d, k_pid d) \<and>
    (\<exists>j\<le>k. send_attempts (s_metrics s') = send_attempts (s_metrics s) + of_nat j) \<and>
    (r = None \<longrightarrow> sent_records (s_metrics s') = sent_records (s_metrics s) + 1 \<and> k_sent d' = k_sent d @ [p]) \<and>
    (r \<noteq> None \<longrightarrow> sent_records (s_metrics s') = sent_records (s_metrics s) \<and>
       (k_sent d' = k_sent d \<or> (\<exists>n<length p. k_sent d' = k_sent d @ [take n p])))"
  using assms
proof (induction k arbitrary: e s d)
  case 0
  then show ?case by auto
next
  case (Suc k)
  obtain c d1 where c: "sys_send fd p d = (c, d1)" by fastforce
  note f = sys_send_facts [OF c]
  let ?s1 = "note_metrics (\<lambda>m. m\<lparr>send_attempts := send_attempts m + 1\<rparr>) s"
  let ?s2 = "note_metrics (\<lambda>m. m\<lparr>interrupted_calls := interrupted_calls m + 1\<rparr>) ?s1"
  have one: "\<exists>j\<le>Suc k. send_attempts (s_metrics s) + 1 = send_attempts (s_metrics s) + of_nat j" by (rule exI [of _ 1]) simp
  show ?case
  proof (cases c)
    case (Inr n)
    have short: "n \<noteq> length p \<Longrightarrow> \<exists>na<length p. take n p = take na p" using f Inr by (intro exI [of _ n]) auto
    show ?thesis using Suc.prems c f one Inr short by (cases "n = length p") (auto simp: syslog_settings_def Let_def)
  next
    case (Inl e1)
    show ?thesis
    proof (cases "errno_or e1 EIO = EINTR")
      case False
      then show ?thesis using Suc.prems c f one Inl by (auto simp: syslog_settings_def Let_def)
    next
      case True
      then have "send_loop k EINTR fd p ?s2 d1 = (r, s', d')" using Suc.prems c Inl by (simp add: Let_def)
      note ih = Suc.IH [OF this]
      obtain j where "j \<le> k" "send_attempts (s_metrics s') = send_attempts (s_metrics s) + 1 + of_nat j" using ih by auto
      then have "\<exists>j\<le>Suc k. send_attempts (s_metrics s') = send_attempts (s_metrics s) + of_nat j"
        by (intro exI [of _ "Suc j"]) simp
      then show ?thesis using ih f Inl by (simp add: syslog_settings_def)
    qed
  qed
qed

lemma syslog_close_facts:
  assumes "logger_syslog_close_status s d = (rc, s', d')"
  shows "record_counts s' = record_counts s" "syslog_settings s' = syslog_settings s" "\<not> logger_fd_valid (s_fd s')"
    "send_attempts (s_metrics s') = send_attempts (s_metrics s)" "connect_attempts (s_metrics s') = connect_attempts (s_metrics s)"
    "syslog_ok s \<Longrightarrow> \<not> connected (s_metrics s')" "streams_of d' = streams_of d" "files_of d' = files_of d"
proof -
  obtain rc1 fd d1 where c: "logger_fd_close_status (s_fd s) d = (rc1, fd, d1)" using prod_cases3 by blast
  have "streams_of d1 = streams_of d" "files_of d1 = files_of d" "fd_value fd = - 1"
    using streams.owner_view(1) [of "s_fd s" d] close_frame(6) [of "s_fd s" d] c
    by (auto simp: logger_fd_close_status_def logger_fd_take_def split: if_splits prod.splits sum.splits)
  then show "record_counts s' = record_counts s" "syslog_settings s' = syslog_settings s" "\<not> logger_fd_valid (s_fd s')"
    "send_attempts (s_metrics s') = send_attempts (s_metrics s)" "connect_attempts (s_metrics s') = connect_attempts (s_metrics s)"
    "syslog_ok s \<Longrightarrow> \<not> connected (s_metrics s')" "streams_of d' = streams_of d" "files_of d' = files_of d"
    using assms c by (auto simp: logger_syslog_close_status_def Let_def syslog_views syslog_ok_def logger_fd_valid_def split: if_splits)
qed

lemma record_failure_facts:
  assumes "record_failure s e = (r, s')"
  shows "r = Inl (errno_or e EIO)" "submitted_records (s_metrics s') = submitted_records (s_metrics s)"
    "sent_records (s_metrics s') = sent_records (s_metrics s)" "sm_failed_records (s_metrics s') = sm_failed_records (s_metrics s) + 1"
    "s_fd s' = s_fd s" "connected (s_metrics s') = connected (s_metrics s)" "send_attempts (s_metrics s') = send_attempts (s_metrics s)"
    "connect_attempts (s_metrics s') = connect_attempts (s_metrics s)" "retry_from_ms s' = retry_from_ms s" "syslog_settings s' = syslog_settings s"
  using assms by (auto simp: record_failure_def Let_def syslog_settings_def split: if_splits)

lemma reconnect_facts:
  assumes "syslog_reconnect s d = (r, s', d')" "\<not> logger_fd_valid (s_fd s)" "\<not> connected (s_metrics s)"
  shows "record_counts s' = record_counts s" "syslog_settings s' = syslog_settings s"
    "send_attempts (s_metrics s') = send_attempts (s_metrics s)" "streams_of d' = streams_of d" "files_of d' = files_of d"
    "connected (s_metrics s') \<longleftrightarrow> logger_fd_valid (s_fd s')" "r = Inr () \<Longrightarrow> logger_fd_valid (s_fd s')"
    "connect_attempts (s_metrics s') \<noteq> connect_attempts (s_metrics s) \<Longrightarrow>
       connect_attempts (s_metrics s') = connect_attempts (s_metrics s) + 1 \<and>
       (\<exists>now d1. monotonic_ms d = (Inr now, d1) \<and> retry_from_ms s' = now \<and>
          (logger_monotonic_ms_elapsed now (retry_from_ms s) (reconnect_interval_ms s) \<or> duration_value (reconnect_interval_ms s) = 0))"
proof -
  obtain r1 d1 where c1: "monotonic_ms d = (r1, d1)" by fastforce
  have f1: "streams_of d1 = streams_of d" "files_of d1 = files_of d" using monotonic_ms_frame [of d] c1 by simp_all
  let ?now = "projr r1"
  define s1 where "s1 = (if retry_clock_pending s \<or> logger_monotonic_ms_before ?now (retry_from_ms s)
      then s\<lparr>retry_from_ms := ?now, retry_clock_pending := False\<rparr> else s)"
  have s1: "record_counts s1 = record_counts s" "syslog_settings s1 = syslog_settings s" "s_metrics s1 = s_metrics s" "s_fd s1 = s_fd s"
    "reconnect_interval_ms s1 = reconnect_interval_ms s"
    by (simp_all add: s1_def syslog_views)
  have el: "logger_monotonic_ms_elapsed ?now (retry_from_ms s1) (reconnect_interval_ms s) \<Longrightarrow>
      logger_monotonic_ms_elapsed ?now (retry_from_ms s) (reconnect_interval_ms s) \<or> duration_value (reconnect_interval_ms s) = 0"
    by (auto simp: s1_def logger_monotonic_ms_elapsed_def unsigned_eq_0_iff split: if_splits)
  obtain r2 df s2 d2 where c2: "connect_once (s1\<lparr>retry_from_ms := ?now\<rparr>) d1 = (r2, df, s2, d2)" using prod_cases4 by blast
  note k = connect_once_facts [OF c2]
  have cases: "(\<exists>e. r1 = Inl e \<and> r = Inl e \<and> s' = s \<and> d' = d1) \<or>
     (\<exists>now e. r1 = Inr now \<and> r = Inl e \<and> s' = note_metrics (\<lambda>m. m\<lparr>cooldown_records := cooldown_records m + 1\<rparr>) s1 \<and> d' = d1) \<or>
     (\<exists>now. r1 = Inr now \<and> logger_monotonic_ms_elapsed now (retry_from_ms s1) (reconnect_interval_ms s) \<and> r = r2 \<and> s' = s2 \<and> d' = d2)"
  proof (cases r1)
    case (Inr now)
    then have "(if retry_clock_pending s \<or> logger_monotonic_ms_before now (retry_from_ms s)
      then s\<lparr>retry_from_ms := now, retry_clock_pending := False\<rparr> else s) = s1" by (simp add: s1_def)
    then have "syslog_reconnect s d =
      (if \<not> logger_monotonic_ms_elapsed now (retry_from_ms s1) (reconnect_interval_ms s1)
       then (Inl (if connection_error s1 \<noteq> 0 then connection_error s1 else ENOTCONN),
             note_metrics (\<lambda>m. m\<lparr>cooldown_records := cooldown_records m + 1\<rparr>) s1, d1)
       else (r2, s2, d2))"
      using c1 c2 Inr unfolding syslog_reconnect_def Let_def by (simp only: prod.case sum.case sum.sel)
    then show ?thesis using assms(1) Inr s1(5) by (auto split: if_splits)
  qed (use assms(1) c1 in \<open>simp add: syslog_reconnect_def\<close>)
  show "record_counts s' = record_counts s" "syslog_settings s' = syslog_settings s"
    "send_attempts (s_metrics s') = send_attempts (s_metrics s)" "streams_of d' = streams_of d" "files_of d' = files_of d"
    "connected (s_metrics s') \<longleftrightarrow> logger_fd_valid (s_fd s')" "r = Inr () \<Longrightarrow> logger_fd_valid (s_fd s')"
    using cases k s1 f1 assms(2,3) by (auto simp: syslog_views)
  show "connect_attempts (s_metrics s') \<noteq> connect_attempts (s_metrics s) \<Longrightarrow>
       connect_attempts (s_metrics s') = connect_attempts (s_metrics s) + 1 \<and>
       (\<exists>now d1. monotonic_ms d = (Inr now, d1) \<and> retry_from_ms s' = now \<and>
          (logger_monotonic_ms_elapsed now (retry_from_ms s) (reconnect_interval_ms s) \<or> duration_value (reconnect_interval_ms s) = 0))"
    using cases k(4,5) s1 c1 el by auto
qed


section \<open>A record\<close>

lemma snprintf_Inr: "logger_libc_snprintf x d = (Inr out, d') \<Longrightarrow> out = x"
  by (auto simp: logger_libc_snprintf_def logger_libc_vsnprintf_def libc_call_def syscall_def next_call_def effective_def
      split: prod.splits if_splits sum.splits outcome.splits list.splits)

text \<open>The record without a final newline, and the datagram that carries it.\<close>

definition payload :: "string \<Rightarrow> size_t \<Rightarrow> string" where
  "payload line n = take (if n \<noteq> 0 \<and> line ! (unat n - 1) = CHR ''\<newline>'' then unat n - 1 else unat n) line"

definition datagram :: "logger_syslog \<Rightarrow> logger_level_t \<Rightarrow> string \<Rightarrow> size_t \<Rightarrow> domain \<Rightarrow> string" where
  "datagram s level line n d = packet_prefix s level (k_pid d) @ payload line n"

text \<open>
  What one call does: the record is counted once as submitted and once as sent or failed, success is
  one whole datagram, a failure leaves no datagram or the short one the kernel reported, at most four
  sends are tried, and no other output changes.
\<close>

definition syslog_wrote :: "logger_syslog \<Rightarrow> domain \<Rightarrow> string \<Rightarrow> errno + unit \<Rightarrow> logger_syslog \<Rightarrow> domain \<Rightarrow> bool" where
  "syslog_wrote s d packet r s' d' \<longleftrightarrow>
     syslog_ok s' \<and> syslog_settings s' = syslog_settings s \<and>
     submitted_records (s_metrics s') = submitted_records (s_metrics s) + 1 \<and>
     (\<exists>j\<le>SYSLOG_SEND_ATTEMPTS. send_attempts (s_metrics s') = send_attempts (s_metrics s) + of_nat j) \<and>
     files_of d' = files_of d \<and> (k_stderr d', k_pid d') = (k_stderr d, k_pid d) \<and>
     (r = Inr () \<longrightarrow> sent_records (s_metrics s') = sent_records (s_metrics s) + 1 \<and> k_sent d' = k_sent d @ [packet]) \<and>
     (\<forall>e. r = Inl e \<longrightarrow> e \<noteq> 0 \<and> sm_failed_records (s_metrics s') = sm_failed_records (s_metrics s) + 1 \<and>
        (k_sent d' = k_sent d \<or> (\<exists>m<length packet. k_sent d' = k_sent d @ [take m packet])))"

lemma record_failure_wrote:
  assumes "record_failure s1 e = (r, s')" "syslog_ok s" "syslog_settings s1 = syslog_settings s"
    "record_counts s1 = (submitted_records (s_metrics s) + 1, sent_records (s_metrics s), sm_failed_records (s_metrics s))"
    "connected (s_metrics s1) \<longleftrightarrow> logger_fd_valid (s_fd s1)" "files_of d' = files_of d" "(k_stderr d', k_pid d') = (k_stderr d, k_pid d)"
    "\<exists>j\<le>SYSLOG_SEND_ATTEMPTS. send_attempts (s_metrics s1) = send_attempts (s_metrics s) + of_nat j"
    "k_sent d' = k_sent d \<or> (\<exists>m<length packet. k_sent d' = k_sent d @ [take m packet])"
  shows "syslog_wrote s d packet r s' d'"
  using record_failure_facts [OF assms(1)] assms(2-)
  by (auto simp: syslog_wrote_def syslog_ok_def record_counts_def)

lemma after_failure_wrote:
  assumes "after_send_failure e s1 d1 = (r, s', d')" "syslog_ok s" "syslog_settings s1 = syslog_settings s"
    "record_counts s1 = (submitted_records (s_metrics s) + 1, sent_records (s_metrics s), sm_failed_records (s_metrics s))"
    "connected (s_metrics s1) \<longleftrightarrow> logger_fd_valid (s_fd s1)" "files_of d1 = files_of d" "(k_stderr d1, k_pid d1) = (k_stderr d, k_pid d)"
    "\<exists>j\<le>SYSLOG_SEND_ATTEMPTS. send_attempts (s_metrics s1) = send_attempts (s_metrics s) + of_nat j"
    "k_sent d1 = k_sent d \<or> (\<exists>m<length packet. k_sent d1 = k_sent d @ [take m packet])"
  shows "syslog_wrote s d packet r s' d'"
proof (cases "broken_association e")
  case False
  then show ?thesis
    using assms record_failure_wrote [OF _ assms(2-9)] by (auto simp: after_send_failure_def split: prod.splits)
next
  case True
  obtain rc s2 d2 where c2: "logger_syslog_close_status s1 d1 = (rc, s2, d2)" using prod_cases3 by blast
  note f2 = syslog_close_facts [OF c2]
  obtain m d3 where c3: "monotonic_ms d2 = (m, d3)" by fastforce
  have f3: "streams_of d3 = streams_of d2" "files_of d3 = files_of d2" using monotonic_ms_frame [of d2] c3 by simp_all
  define s3 where "s3 = (case m of Inl _ \<Rightarrow> s2\<lparr>connection_error := e, retry_clock_pending := True\<rparr>
     | Inr now \<Rightarrow> s2\<lparr>connection_error := e, retry_from_ms := now\<rparr>)"
  have s3: "record_counts s3 = record_counts s2" "syslog_settings s3 = syslog_settings s2" "s_metrics s3 = s_metrics s2" "s_fd s3 = s_fd s2"
    by (auto simp: s3_def syslog_views split: sum.splits)
  have "record_failure s3 e = (r, s')" "d' = d3"
    using assms(1) True c2 c3
    by (auto simp: after_send_failure_def logger_syslog_close_def s3_def Let_def split: prod.splits sum.splits)
  moreover have "\<not> connected (s_metrics s2)"
    using c2 assms(5) by (auto simp: logger_syslog_close_status_def Let_def split: if_splits prod.splits)
  moreover have "k_sent d3 = k_sent d1" "(k_stderr d3, k_pid d3) = (k_stderr d1, k_pid d1)" "files_of d3 = files_of d1"
    using f2(7,8) f3 by (auto simp: streams_of_def)
  ultimately show ?thesis
    using record_failure_wrote [of s3 e r s' s d3 d packet] assms(2-) f2(1-4) s3 by simp
qed


abbreviation submitted :: "logger_syslog \<Rightarrow> logger_syslog" where
  "submitted s \<equiv> note_metrics (\<lambda>m. m\<lparr>submitted_records := submitted_records m + 1\<rparr>) s"

abbreviation reached :: "logger_syslog \<Rightarrow> domain \<Rightarrow> (errno + unit) \<times> logger_syslog \<times> domain" where
  "reached s d \<equiv> (if \<not> logger_fd_valid (s_fd s) then syslog_reconnect s d else (Inr (), s, d))"

text \<open>The ways a write ends.\<close>

lemma syslog_write_stages:
  assumes "logger_syslog_write s level (Some line) n d = (r, s', d')"
  obtains (early) e where "record_failure (submitted s) e = (r, s')" "streams_of d' = streams_of d" "files_of d' = files_of d"
    | (late) e d1 s2 where "streams_of d1 = streams_of d" "files_of d1 = files_of d" "reached (submitted s) d1 = (Inl e, s2, d')"
        "record_failure s2 e = (r, s')"
    | (reached) d1 s2 d2 r3 s3 d3 where "streams_of d1 = streams_of d" "files_of d1 = files_of d"
        "reached (submitted s) d1 = (Inr (), s2, d2)"
        "send_loop SYSLOG_SEND_ATTEMPTS EINTR (logger_fd_number (s_fd s2)) (datagram s level line n d) s2 d2 = (r3, s3, d3)"
        "case r3 of None \<Rightarrow> r = Inr () \<and> s' = s3 \<and> d' = d3 | Some e \<Rightarrow> after_send_failure e s3 d3 = (r, s', d')"
proof -
  let ?p = "packet_prefix (submitted s) level (k_pid d)"
  define s1 where "s1 = submitted s"
  obtain r1 d1 where c1: "logger_libc_snprintf (packet_prefix s1 level (k_pid d)) d = (r1, d1)" by fastforce
  have f1: "streams_of d1 = streams_of d" "files_of d1 = files_of d"
    using streams.libc_calls_view(2) [of "packet_prefix s1 level (k_pid d)" d] libc_calls_frame(3) [of "packet_prefix s1 level (k_pid d)" d] c1
    by simp_all
  have pk: "r1 = Inr prefix \<Longrightarrow> prefix @ payload line n = datagram s level line n d" for prefix
    using snprintf_Inr [of ?p d prefix d1] c1 by (simp add: datagram_def s1_def packet_prefix_def)
  define len where "len = (if n \<noteq> 0 \<and> line ! (unat n - 1) = CHR ''\<newline>'' then unat n - 1 else unat n)"
  note run = assms [unfolded logger_syslog_write_def Let_def s1_def [symmetric] option.case c1 prod.case len_def [symmetric]]
  have early': thesis if "record_failure s1 e = (r, s')" "d' = d \<or> d' = d1" for e
    using that early f1 by (auto simp: s1_def)
  obtain r2 s2 d2 where c2: "reached s1 d1 = (r2, s2, d2)" using prod_cases3 by blast
  obtain r3 s3 d3 where c3: "send_loop SYSLOG_SEND_ATTEMPTS EINTR (logger_fd_number (s_fd s2)) (datagram s level line n d) s2 d2 = (r3, s3, d3)"
    using prod_cases3 by blast
  show thesis
  proof (cases "LOGGER_OFF \<le> as_unsigned level \<or> of_nat SYSLOG_PACKET_MAX < n")
    case True
    then show ?thesis using run early' by (auto split: prod.splits if_splits)
  next
    case ok: False
    show ?thesis
    proof (cases r1)
      case (Inl e)
      then show ?thesis using run ok early' by (auto split: prod.splits)
    next
      case (Inr prefix)
      show ?thesis
      proof (cases "SYSLOG_PACKET_MAX \<le> length prefix \<or> SYSLOG_PACKET_MAX - length prefix < len")
        case True
        then show ?thesis using run ok Inr early' by (auto split: prod.splits if_splits)
      next
        case fits: False
        have "prefix @ take len line = datagram s level line n d" using pk [OF Inr] by (simp add: payload_def len_def)
        then have eq: "(case r2 of Inl e \<Rightarrow> (case record_failure s2 e of (r, s) \<Rightarrow> (r, s, d2))
            | Inr _ \<Rightarrow> (case r3 of None \<Rightarrow> (Inr (), s3, d3) | Some e \<Rightarrow> after_send_failure e s3 d3)) = (r, s', d')"
          using run ok Inr fits c2 c3 by (auto split: sum.splits option.splits)
        show ?thesis
        proof (cases r2)
          case (Inl e)
          then have "record_failure s2 e = (r, s')" "d2 = d'" using eq by (auto split: prod.splits)
          then show ?thesis using late [OF f1 _ _] c2 Inl by (simp only: s1_def)
        next
          case (Inr u)
          show ?thesis
          proof (rule reached [OF f1 _ c3])
            have "r2 = Inr ()" using Inr by simp
            then show "reached (submitted s) d1 = (Inr (), s2, d2)" using c2 by (simp only: s1_def)
            show "case r3 of None \<Rightarrow> r = Inr () \<and> s' = s3 \<and> d' = d3 | Some e \<Rightarrow> after_send_failure e s3 d3 = (r, s', d')"
              using eq Inr by (auto split: option.splits)
          qed
        qed
      qed
    qed
  qed
qed

lemma reached_facts:
  assumes "reached (submitted s) d1 = (r2, s2, d2)" "syslog_ok s"
  shows "record_counts s2 = (submitted_records (s_metrics s) + 1, sent_records (s_metrics s), sm_failed_records (s_metrics s))"
    "syslog_settings s2 = syslog_settings s" "send_attempts (s_metrics s2) = send_attempts (s_metrics s)"
    "connected (s_metrics s2) \<longleftrightarrow> logger_fd_valid (s_fd s2)" "streams_of d2 = streams_of d1" "files_of d2 = files_of d1"
  using reconnect_facts [of "submitted s" d1 r2 s2 d2] assms by (auto simp: syslog_ok_def syslog_views split: if_splits)

lemma syslog_write_wrote:
  assumes "logger_syslog_write s level (Some line) n d = (r, s', d')" "syslog_ok s"
  shows "syslog_wrote s d (datagram s level line n d) r s' d'"
  using assms(1)
proof (cases rule: syslog_write_stages)
  case early
  have "\<exists>j\<le>SYSLOG_SEND_ATTEMPTS. send_attempts (s_metrics s) = send_attempts (s_metrics s) + of_nat j"
    by (rule exI [of _ 0]) simp
  then show ?thesis
    using record_failure_wrote [OF early(1) assms(2)] early(2,3) assms(2) by (auto simp: streams_of_def syslog_views syslog_ok_def)
next
  case (late e d1 s2)
  note k = reached_facts [OF late(3) assms(2)]
  have "\<exists>j\<le>SYSLOG_SEND_ATTEMPTS. send_attempts (s_metrics s) = send_attempts (s_metrics s) + of_nat j"
    by (rule exI [of _ 0]) simp
  then show ?thesis
    using record_failure_wrote [OF late(4) assms(2) k(2,1,4)] k(3,5,6) late(1,2) by (auto simp: streams_of_def)
next
  case (reached d1 s2 d2 r3 s3 d3)
  note k = reached_facts [OF reached(3) assms(2)] and l = send_loop_facts [OF reached(4)]
  show ?thesis
  proof (cases r3)
    case None
    then show ?thesis
      using reached(1,2,5) k l assms(2) by (auto simp: syslog_wrote_def syslog_ok_def streams_of_def syslog_views)
  next
    case (Some e)
    then show ?thesis
      using after_failure_wrote [of e s3 d3 r s' d' s d] reached(1,2,5) k l assms(2) by (auto simp: streams_of_def syslog_views)
  qed
qed

text \<open>A reconnection is tried only after the interval.\<close>

lemma syslog_write_connects:
  assumes "logger_syslog_write s level (Some line) n d = (r, s', d')" "syslog_ok s"
    "connect_attempts (s_metrics s') \<noteq> connect_attempts (s_metrics s)"
  shows "\<not> logger_fd_valid (s_fd s) \<and> connect_attempts (s_metrics s') = connect_attempts (s_metrics s) + 1 \<and>
    (\<exists>now d1 d2. monotonic_ms d1 = (Inr now, d2) \<and>
       (logger_monotonic_ms_elapsed now (retry_from_ms s) (reconnect_interval_ms s) \<or> duration_value (reconnect_interval_ms s) = 0))"
proof -
  have rc: ?thesis if "reached (submitted s) d1 = (r2, s2, d2)" "connect_attempts (s_metrics s') = connect_attempts (s_metrics s2)" for d1 r2 s2 d2
  proof -
    have "\<not> logger_fd_valid (s_fd s)" "syslog_reconnect (submitted s) d1 = (r2, s2, d2)"
      using that assms(3) by (auto split: if_splits)
    then show ?thesis
      using reconnect_facts(8) [of "submitted s" d1 r2 s2 d2] assms(2,3) that(2) by (auto simp: syslog_ok_def)
  qed
  have sf: "after_send_failure e x k = (r', x', k') \<Longrightarrow> connect_attempts (s_metrics x') = connect_attempts (s_metrics x)" for e x k r' x' k'
  proof -
    have "snd (logger_syslog_close_status x k) = (x1, k1) \<Longrightarrow> connect_attempts (s_metrics x1) = connect_attempts (s_metrics x)" for x1 k1
      by (metis prod.collapse syslog_close_facts(5))
    then show "after_send_failure e x k = (r', x', k') \<Longrightarrow> connect_attempts (s_metrics x') = connect_attempts (s_metrics x)"
      by (auto simp: after_send_failure_def logger_syslog_close_def Let_def dest!: record_failure_facts(8)
          split: prod.splits sum.splits if_splits)
  qed
  show ?thesis using assms(1)
  proof (cases rule: syslog_write_stages)
    case early
    then show ?thesis using record_failure_facts(8) [OF early(1)] assms(3) by simp
  next
    case late
    then show ?thesis using record_failure_facts(8) [OF late(4)] rc [OF late(3)] by simp
  next
    case (reached d1 s2 d2 r3 s3 d3)
    then have "connect_attempts (s_metrics s') = connect_attempts (s_metrics s2)"
      using send_loop_facts [OF reached(4)] sf by (auto split: option.splits)
    then show ?thesis using rc [OF reached(3)] by simp
  qed
qed


section \<open>Initialisation\<close>

definition syslog_configured :: "logger_syslog \<Rightarrow> bool" where
  "syslog_configured s \<longleftrightarrow> s_ident s \<noteq> [] \<and> length (s_ident s) < SYSLOG_IDENT_SIZE \<and> list_all ident_char (s_ident s) \<and>
     length (s_path s) < SYSLOG_PATH_SIZE \<and> (\<exists>rest. s_path s = CHR ''/'' # rest) \<and>
     s_facility s AND 7 = 0 \<and> s_facility s \<le> 184 \<and>
     0 < duration_value (reconnect_interval_ms s) \<and> duration_value (reconnect_interval_ms s) \<le> 60000"

lemma copy_path_facts:
  assumes "copy_path s p d = (r, s', d')" "nul_free (str_or p ''/dev/log'')" "\<exists>rest. k_cwd d = CHR ''/'' # rest"
  shows "s_ident s' = s_ident s \<and> s_facility s' = s_facility s \<and> reconnect_interval_ms s' = reconnect_interval_ms s \<and>
    s_fd s' = s_fd s \<and> s_metrics s' = s_metrics s \<and>
    (r = Inr () \<longrightarrow> length (s_path s') < SYSLOG_PATH_SIZE \<and> (\<exists>rest. s_path s' = CHR ''/'' # rest))"
proof -
  obtain rest where rest: "k_cwd d = CHR ''/'' # rest" using assms(3) by blast
  have cwd: "sys_getcwd n d = (Inr c, k) \<Longrightarrow> c = CHR ''/'' # rest" for n c k
    using rest by (auto simp: sys_getcwd_def syscall_def next_call_def split: prod.splits outcome.splits if_splits list.splits)
  have "c_strnlen SYSLOG_PATH_SIZE (str_or p ''/dev/log'') = min SYSLOG_PATH_SIZE (length (str_or p ''/dev/log''))"
    using assms(2) by (simp add: c_strnlen_cstr nul_free_cstr_id)
  then show ?thesis
    using assms(1)
    by (cases "str_or p ''/dev/log''") (auto simp: copy_path_def Let_def min_def dest!: cwd split: if_splits prod.splits sum.splits)
qed

lemma syslog_init_ok:
  assumes "logger_syslog_init s0 ident (Some config) d = (Inr (), s, d')"
    "\<forall>x. ident = Some x \<longrightarrow> nul_free x" "\<forall>x. sc_path config = Some x \<longrightarrow> nul_free x" "\<exists>rest. k_cwd d = CHR ''/'' # rest"
  shows "syslog_ok s \<and> syslog_configured s \<and>
    (\<not> connected (s_metrics s) \<longrightarrow> sc_startup config = LOGGER_SYSLOG_START_DEFERRED)"
proof -
  define name where "name = (case ident of None \<Rightarrow> ''app'' | Some x \<Rightarrow> if x = [] then ''app'' else x)"
  define s1 where "s1 = zero_syslog\<lparr>s_facility := sc_facility config,
      reconnect_interval_ms := \<lparr>duration_value =
        (if sc_reconnect_interval_ms config \<noteq> 0 then sc_reconnect_interval_ms config else 1000)\<rparr>\<rparr>"
  have len: "c_strnlen SYSLOG_IDENT_SIZE name = min SYSLOG_IDENT_SIZE (length name)"
    using assms(2) by (auto simp: c_strnlen_cstr nul_free_cstr_id name_def nul_free_def split: option.splits)
  obtain r2 s2 d2 where c2: "copy_path (s1\<lparr>s_ident := name\<rparr>) (sc_path config) d = (r2, s2, d2)" using prod_cases3 by blast
  have "nul_free (str_or (sc_path config) ''/dev/log'')" using assms(3) by (auto simp: str_or_def nul_free_def split: option.splits)
  note p = copy_path_facts [OF c2 this assms(4)]
  obtain r3 d3 where c3: "monotonic_ms d2 = (r3, d3)" by fastforce
  obtain r4 df s4 d4 where c4: "connect_once (s2\<lparr>retry_from_ms := projr r3\<rparr>) d3 = (r4, df, s4, d4)" using prod_cases4 by blast
  note k = connect_once_facts [OF c4]
  have run: "sc_facility config AND 7 = 0" "sc_facility config \<le> 23 * 8" "sc_reconnect_interval_ms config \<le> 60000"
    "length name < SYSLOG_IDENT_SIZE" "list_all ident_char name" "r2 = Inr ()" "s = s4"
    "r4 = Inr () \<or> sc_startup config = LOGGER_SYSLOG_START_DEFERRED"
    using assms(1) c2 c3 c4 len
    unfolding logger_syslog_init_def Let_def option.case name_def [symmetric] s1_def [symmetric]
    by (auto simp: not_less split: if_splits sum.splits prod.splits)
  have n: "name \<noteq> []" by (auto simp: name_def split: option.splits)
  have s2: "s_ident s2 = name" "s_facility s2 = sc_facility config" "s_fd s2 = logger_fd_own (- 1)" "s_metrics s2 = zero_syslog_metrics"
    "reconnect_interval_ms s2 = reconnect_interval_ms s1"
    using p by (simp_all add: s1_def zero_syslog_def)
  have conf: "syslog_configured s"
    using k(2) s2 run n p by (auto simp: syslog_settings_def syslog_configured_def s1_def word_neq_0_conv)
  moreover have "syslog_ok s" and "r4 = Inr () \<Longrightarrow> connected (s_metrics s)"
    using k(1,8,9) s2 run(7) by (auto simp: syslog_ok_def record_counts_def zero_syslog_metrics_def logger_fd_valid_def logger_fd_own_def)
  ultimately show ?thesis using run(8) by auto
qed


text \<open>The identity holds no delimiter, so a reader finds the end of the header at the first colon.\<close>

lemma no_colon_dec: "CHR '':'' \<notin> set (dec_nat n)" "CHR '':'' \<notin> set (dec_int x)"
proof -
  have "\<not> dec_digit (CHR '':'')" by (simp add: dec_digit_def)
  then have *: "CHR '':'' \<notin> set (dec_nat n)" for n using dec_nat_digits [of n] by (auto simp: list_all_iff)
  show "CHR '':'' \<notin> set (dec_nat n)" by (rule *)
  show "CHR '':'' \<notin> set (dec_int x)" using * by (simp add: dec_int_def)
qed

lemma envelope_end:
  assumes "list_all ident_char (s_ident s)"
  shows "takeWhile (\<lambda>c. c \<noteq> CHR '':'') (datagram s level line n d) @ '': '' = packet_prefix s level (k_pid d)"
proof -
  define tag where "tag = ''<'' @ dec_nat (unat (s_facility s OR priority level)) @ ''>'' @ s_ident s @ ''['' @ dec_int (k_pid d) @ '']''"
  have "CHR '':'' \<notin> set (s_ident s)" using assms by (auto simp: list_all_iff ident_char_def)
  then have "\<forall>c\<in>set tag. c \<noteq> CHR '':''" using no_colon_dec by (auto simp: tag_def)
  then have "takeWhile (\<lambda>c. c \<noteq> CHR '':'') (tag @ CHR '':'' # rest) = tag" for rest
    by (simp add: takeWhile_append2)
  moreover have "datagram s level line n d = tag @ CHR '':'' # '' '' @ payload line n" "packet_prefix s level (k_pid d) = tag @ '': ''"
    by (simp_all add: datagram_def packet_prefix_def tag_def)
  ultimately show ?thesis by simp
qed

section \<open>Properties\<close>

definition sample_syslog :: logger_syslog where
  "sample_syslog = zero_syslog\<lparr>s_fd := \<lparr>fd_value = 6\<rparr>, s_ident := ''app'', s_path := ''/dev/log'', s_facility := 8,
     reconnect_interval_ms := \<lparr>duration_value = 1000\<rparr>, s_metrics := zero_syslog_metrics\<lparr>connected := True, connect_attempts := 1\<rparr>\<rparr>"

definition sample_socket_domain :: "outcome list \<Rightarrow> domain" where
  "sample_socket_domain calls = (sample_domain calls)\<lparr>k_table := k_table (sample_domain calls) @ [Some (Socket (Some ''/dev/log''))]\<rparr>"

text \<open>C22. \<^verbatim>\<open>logger_syslog_write\<close>, whatever calls fail: the record is counted once as submitted and once as
  sent or failed (so submitted is always sent plus failed), success means that exactly one datagram,
  holding the header and the whole record without its newline, was sent; a failure sent nothing or
  the one short datagram the kernel reported, and never a second one; at most four sends are tried;
  the connected flag stays equal to owning a descriptor; files and \<^verbatim>\<open>stderr\<close> are untouched.\<close>

theorem syslog_write_correct:
  assumes "syslog_ok s" "logger_syslog_write s level (Some line) n d = (r, s', d')"
  shows "syslog_wrote s d (datagram s level line n d) r s' d'"
  using syslog_write_wrote [OF assms(2,1)] .

theorem syslog_write_correct_witness:
  "\<exists>s' d'. logger_syslog_write sample_syslog LOGGER_ERROR (Some ''fault\<newline>'') 6 (sample_socket_domain [Done, Fail EINTR]) = (Inr (), s', d') \<and>
     k_sent d' = [''<11>app[7]: fault''] \<and> send_attempts (s_metrics s') = 2"
proof -
  let ?w = "logger_syslog_write sample_syslog LOGGER_ERROR (Some ''fault\<newline>'') 6 (sample_socket_domain [Done, Fail EINTR])"
  obtain r s' d' where w: "?w = (r, s', d')" using prod_cases3 by blast
  have "fst ?w = Inr ()" "send_attempts (s_metrics (fst (snd ?w))) = 2" by code_simp+
  then have r: "r = Inr ()" "send_attempts (s_metrics s') = 2" using w by simp_all
  have p: "datagram sample_syslog LOGGER_ERROR ''fault\<newline>'' 6 (sample_socket_domain [Done, Fail EINTR]) = ''<11>app[7]: fault''"
    by code_simp
  have "syslog_ok sample_syslog"
    by (simp add: syslog_ok_def sample_syslog_def zero_syslog_def zero_syslog_metrics_def logger_fd_valid_def)
  then have "k_sent d' = [''<11>app[7]: fault'']"
    using syslog_write_correct [OF _ w] r p by (simp add: syslog_wrote_def sample_socket_domain_def sample_domain_def)
  then show ?thesis using w r by simp
qed



text \<open>C24. A successful \<^verbatim>\<open>logger_syslog_init\<close> leaves consistent counters and a valid configuration: a
  non-empty printable identity without header delimiters, an absolute path within the socket address,
  a facility of the standard range, an interval from 1 to 60000 ms. It may be disconnected only when
  deferred start was asked for. No record can then forge the header: the first colon of any
  datagram is the end of the tag.\<close>

theorem syslog_init_correct:
  assumes "logger_syslog_init s0 ident (Some config) d = (Inr (), s, d')"
    "\<forall>x. ident = Some x \<longrightarrow> nul_free x" "\<forall>x. sc_path config = Some x \<longrightarrow> nul_free x" "\<exists>rest. k_cwd d = CHR ''/'' # rest"
  shows "syslog_ok s \<and> syslog_configured s \<and>
    (\<not> connected (s_metrics s) \<longrightarrow> sc_startup config = LOGGER_SYSLOG_START_DEFERRED) \<and>
    takeWhile (\<lambda>c. c \<noteq> CHR '':'') (datagram s level line n d2) @ '': '' = packet_prefix s level (k_pid d2)"
  using syslog_init_ok [OF assms] envelope_end [of s level line n d2] by (simp add: syslog_configured_def)

theorem syslog_init_correct_witness:
  "\<exists>s d'. logger_syslog_init zero_syslog (Some ''srv'') (Some \<lparr>sc_path = Some ''log.sock'', sc_facility = 128, sc_reconnect_interval_ms = 0,
       sc_startup = LOGGER_SYSLOG_START_REQUIRED\<rparr>) (sample_domain []) = (Inr (), s, d') \<and> s_path s = ''/srv/log.sock'' \<and> connected (s_metrics s)"
proof -
  let ?c = "\<lparr>sc_path = Some ''log.sock'', sc_facility = 128, sc_reconnect_interval_ms = 0, sc_startup = LOGGER_SYSLOG_START_REQUIRED\<rparr>"
  let ?i = "logger_syslog_init zero_syslog (Some ''srv'') (Some ?c) (sample_domain [])"
  obtain r s d' where w: "?i = (r, s, d')" using prod_cases3 by blast
  have "fst ?i = Inr ()" "s_path (fst (snd ?i)) = ''/srv/log.sock''" by code_simp+
  then have r: "r = Inr ()" "s_path s = ''/srv/log.sock''" using w by simp_all
  have "connected (s_metrics s)"
    using syslog_init_correct [OF w [unfolded r(1)]] by (simp add: nul_free_def sample_domain_def)
  then show ?thesis using w r by simp
qed

end
