(* ===== verification/Logger_Emit_Props.thy ===== *)
theory Logger_Emit_Props
  imports Logger_Emit Logger_Streams Logger_Syslog_Props Logger_Format_Props
begin

text \<open>
  Properties of the output path: writing to \<^verbatim>\<open>stderr\<close> under the signal guard, the accounting and the
  delivery of one record, the accounting of a batch, and the worker's shutdown.
\<close>

section \<open>Writing to stderr\<close>

lemma write_stderr_facts:
  assumes "sys_write_stderr p k = (r, k')"
  shows "files_of k' = files_of k" "k_table k' = k_table k" "k_sent k' = k_sent k" "k_locks k' = k_locks k \<and> k_pid k' = k_pid k"
    "k_sig_blocked k' = k_sig_blocked k" "k_sig_blocked k \<Longrightarrow> k_sig_raised k' = k_sig_raised k"
    "r \<noteq> Inl EPIPE \<Longrightarrow> k_sig_pending k' = k_sig_pending k \<and> k_sig_raised k' = k_sig_raised k"
    "k_sig_pending k \<Longrightarrow> k_sig_pending k'"
    "\<And>e. r = Inl e \<Longrightarrow> 0 < e \<and> k_stderr k' = k_stderr k" "\<And>n. r = Inr n \<Longrightarrow> n \<le> length p \<and> k_stderr k' = k_stderr k @ take n p"
  using assms
  by (auto simp: sys_write_stderr_def transfer_def next_call_def effective_def raise_sigpipe_def files_of_def
      split: prod.splits outcome.splits list.splits if_splits)

lemma stderr_loop_facts:
  assumes "stderr_loop vs d = (rc, d')"
  shows "files_of d' = files_of d \<and> k_table d' = k_table d \<and> k_sent d' = k_sent d \<and> k_locks d' = k_locks d \<and> k_pid d' = k_pid d \<and>
    k_sig_blocked d' = k_sig_blocked d \<and> (k_sig_blocked d \<longrightarrow> k_sig_raised d' = k_sig_raised d) \<and>
    (rc \<noteq> - EPIPE \<longrightarrow> k_sig_pending d' = k_sig_pending d) \<and> (k_sig_pending d \<longrightarrow> k_sig_pending d') \<and> rc \<le> 0 \<and>
    (\<exists>m\<le>length (concat vs). k_stderr d' = k_stderr d @ take m (concat vs) \<and> (rc = 0 \<longrightarrow> m = length (concat vs)))"
  using assms
proof (induction vs d rule: stderr_loop.induct)
  case (1 d)
  then show ?case by auto
next
  case (2 v vs d)
  let ?all = "concat (v # vs)"
  obtain r d1 where c: "sys_write_stderr ?all d = (r, d1)" by fastforce
  note f = write_stderr_facts [OF c]
  show ?case
  proof (cases r)
    case (Inl e)
    show ?thesis
    proof (cases "e = EINTR")
      case True
      then have "stderr_loop (v # vs) d1 = (rc, d')" using 2(3) c Inl by (subst (asm) stderr_loop.simps(2)) simp
      then show ?thesis using 2(1) [OF c [symmetric] Inl True] f Inl True by simp
    next
      case False
      then have "rc = - e" "d' = d1" using 2(3) c Inl f(9) by (auto simp: stderr_loop.simps(2) errno_or_def)
      then show ?thesis using f Inl by auto
    qed
  next
    case (Inr n)
    show ?thesis
    proof (cases "n = 0")
      case True
      then have "rc = - EIO" "d' = d1" using 2(3) c Inr by (auto simp: stderr_loop.simps(2))
      then show ?thesis using f Inr True by auto
    next
      case False
      have n: "n \<le> length ?all" "k_stderr d1 = k_stderr d @ take n ?all" using f(10) Inr by auto
      have "stderr_loop (iov_advance n (v # vs)) d1 = (rc, d')" using 2(3) c Inr False by (subst (asm) stderr_loop.simps(2)) simp
      note ih = 2(2) [OF c [symmetric] Inr False this]
      have rest: "concat (iov_advance n (v # vs)) = drop n ?all" using n(1) by (rule concat_iov_advance)
      have "\<exists>m\<le>length (drop n ?all). k_stderr d' = k_stderr d1 @ take m (drop n ?all) \<and> (rc = 0 \<longrightarrow> m = length (drop n ?all))"
        using ih unfolding rest by blast
      then obtain m where "m \<le> length ?all - n" "k_stderr d' = k_stderr d1 @ take m (drop n ?all)" "rc = 0 \<longrightarrow> m = length ?all - n"
        unfolding length_drop by blast
      then have "\<exists>m\<le>length ?all. k_stderr d' = k_stderr d @ take m ?all \<and> (rc = 0 \<longrightarrow> m = length ?all)"
        using n by (intro exI [of _ "n + m"]) (simp add: take_add del: concat.simps)
      then show ?thesis using ih f(1-8) Inr by (simp del: concat.simps)
    qed
  qed
qed

text \<open>With signal calls that succeed, the guard contains the signal of a broken pipe.\<close>

lemma pthread_call_empty: "k_locks k = [] \<Longrightarrow> pthread_call k = (0, k)"
  by (simp add: pthread_call_def)

lemma sigtimedwait_takes: "k_locks d = [] \<Longrightarrow> k_sig_pending d \<Longrightarrow> sigtimedwait_loop d = d\<lparr>k_sig_pending := False\<rparr>"
  by (subst sigtimedwait_loop.simps) (simp add: sys_sigtimedwait_def pthread_call_empty)

definition signals_of :: "'a kernel_scheme \<Rightarrow> bool \<times> bool \<times> nat" where
  "signals_of k = (k_sig_blocked k, k_sig_pending k, k_sig_raised k)"

definition signals_ok :: "'a kernel_scheme \<Rightarrow> bool" where
  "signals_ok k \<longleftrightarrow> k_locks k = [] \<and> (k_sig_pending k \<longrightarrow> k_sig_blocked k)"

text \<open>With the signal blocked, output leaves it pending at most when it reports a broken pipe.\<close>

definition held_back :: "domain \<Rightarrow> bool \<Rightarrow> domain \<Rightarrow> bool" where
  "held_back d saw d' \<longleftrightarrow> k_locks d' = [] \<and> k_sig_blocked d' \<and> k_sig_raised d' = k_sig_raised d \<and>
     (k_sig_pending d \<longrightarrow> k_sig_pending d') \<and> (k_sig_pending d' \<longrightarrow> k_sig_pending d \<or> saw)"

text \<open>The guard contains what was held back.\<close>

lemma guard_contains:
  assumes ok: "signals_ok d" and start: "logger_sigpipe_begin d = (0, guard, d1)"
    and held: "held_back d saw d2" and stop: "logger_sigpipe_end guard rc saw d2 = (rc', d')"
  shows "rc' = rc" "signals_of d' = signals_of d" "k_locks d' = []"
proof -
  have g: "guard = \<lparr>old_mask = k_sig_blocked d, was_pending = k_sig_pending d\<rparr>"
    using ok start by (auto simp: logger_sigpipe_begin_def sys_block_sigpipe_def sys_sigpending_def pthread_call_def signals_ok_def)
  define d3 where "d3 = (if saw then logger_sigpipe_consume_new (k_sig_pending d) d2 else d2)"
  have d3: "k_locks d3 = []" "k_sig_pending d3 = k_sig_pending d" "k_sig_raised d3 = k_sig_raised d"
    using held by (auto simp: held_back_def d3_def logger_sigpipe_consume_new_def sys_sigpending_def pthread_call_empty sigtimedwait_takes split: if_splits)
  have "sys_restore_sigmask (k_sig_blocked d) d3 = (0, set_sigmask (k_sig_blocked d) d3)"
    using d3(1) by (simp add: sys_restore_sigmask_def pthread_call_empty)
  then have "rc' = rc" "d' = set_sigmask (k_sig_blocked d) d3"
    using stop unfolding logger_sigpipe_end_def Let_def g logger_sigpipe_guard.simps d3_def [symmetric] by auto
  then show "rc' = rc" "signals_of d' = signals_of d" "k_locks d' = []"
    using d3 ok by (auto simp: set_sigmask_def signals_of_def signals_ok_def)
qed

lemma guard_started:
  assumes "signals_ok d"
  shows "\<exists>guard d1. logger_sigpipe_begin d = (0, guard, d1) \<and> held_back d False d1"
  using assms by (auto simp: logger_sigpipe_begin_def sys_block_sigpipe_def sys_sigpending_def pthread_call_def signals_ok_def held_back_def)

lemma stderr_signals:
  assumes "logger_stderr_writev_all v d = (rc, d')" "signals_ok d"
  shows "signals_of d' = signals_of d \<and> k_locks d' = []"
proof -
  obtain guard d1 where started: "logger_sigpipe_begin d = (0, guard, d1)" and h1: "held_back d False d1"
    using guard_started [OF assms(2)] by blast
  obtain rc2 d2 where c: "stderr_loop v d1 = (rc2, d2)" by fastforce
  have h2: "held_back d (rc2 = - EPIPE) d2" using stderr_loop_facts [OF c] h1 by (auto simp: held_back_def)
  have "logger_sigpipe_end guard rc2 (rc2 = - EPIPE) d2 = (rc, d')"
    using assms(1) started c by (simp add: logger_stderr_writev_all_def)
  from guard_contains [OF assms(2) started h2 this] show ?thesis by simp
qed

lemma signal_calls_frame:
  "files_of (snd (pthread_call k)) = files_of k" "k_sent (snd (pthread_call k)) = k_sent k" "k_stderr (snd (pthread_call k)) = k_stderr k"
  by (simp_all add: pthread_call_def split: list.splits)

definition written_of :: "'a kernel_scheme \<Rightarrow> ((string \<times> nat) list \<times> inode list) \<times> fd_object option list \<times> string list \<times> string \<times> int" where
  "written_of k = (files_of k, k_table k, k_sent k, k_stderr k, k_pid k)"

lemma written_updates [simp]:
  "written_of (k\<lparr>k_locks := a\<rparr>) = written_of k" "written_of (k\<lparr>k_sig_blocked := b\<rparr>) = written_of k"
  "written_of (k\<lparr>k_sig_pending := c\<rparr>) = written_of k" "written_of (k\<lparr>k_sig_raised := n\<rparr>) = written_of k"
  by (simp_all add: written_of_def)

lemma signal_calls_written [simp]:
  "written_of (snd (pthread_call k)) = written_of k" "written_of (set_sigmask b k) = written_of k"
  "written_of (snd (sys_restore_sigmask b k)) = written_of k" "written_of (snd (sys_sigpending k)) = written_of k"
  "written_of (snd (snd (sys_block_sigpipe k))) = written_of k" "written_of (snd (sys_sigtimedwait k)) = written_of k"
proof -
  show p: "written_of (snd (pthread_call k)) = written_of k" for k :: "'a kernel_scheme"
    by (simp add: pthread_call_def split: list.splits)
  show m: "written_of (set_sigmask b k) = written_of k" for k :: "'a kernel_scheme" by (simp add: set_sigmask_def)
  show "written_of (snd (sys_restore_sigmask b k)) = written_of k" "written_of (snd (sys_sigpending k)) = written_of k"
    "written_of (snd (snd (sys_block_sigpipe k))) = written_of k" "written_of (snd (sys_sigtimedwait k)) = written_of k"
    using p m by (simp_all add: sys_restore_sigmask_def sys_sigpending_def sys_block_sigpipe_def sys_sigtimedwait_def case_prod_beta)
qed

lemma sigtimedwait_written [simp]: "written_of (sigtimedwait_loop d) = written_of d"
proof (induction d rule: sigtimedwait_loop.induct)
  case (1 d)
  obtain r d1 where c: "sys_sigtimedwait d = (r, d1)" by fastforce
  then have "written_of d1 = written_of d" using signal_calls_written(6) [of d] by simp
  then show ?case using 1 [OF c [symmetric]] by (subst sigtimedwait_loop.simps) (auto simp: c split: sum.splits)
qed

lemma guard_written [simp]:
  "written_of (snd (snd (logger_sigpipe_begin d))) = written_of d" "written_of (logger_sigpipe_consume_new b d) = written_of d"
  "written_of (snd (logger_sigpipe_end g rc e d)) = written_of d"
  by (simp_all add: logger_sigpipe_begin_def logger_sigpipe_consume_new_def logger_sigpipe_end_def Let_def case_prod_beta split: sum.splits)

lemma stderr_writev_facts:
  assumes "logger_stderr_writev_all v d = (rc, d')"
  shows "files_of d' = files_of d \<and> k_table d' = k_table d \<and> k_sent d' = k_sent d \<and> k_pid d' = k_pid d \<and>
    (\<exists>m\<le>length (concat v). k_stderr d' = k_stderr d @ take m (concat v) \<and> (rc = 0 \<longrightarrow> m = length (concat v)))"
proof -
  obtain rc1 g d1 where c1: "logger_sigpipe_begin d = (rc1, g, d1)" using prod_cases3 by blast
  have w1: "written_of d1 = written_of d" using guard_written(1) [of d] c1 by simp
  show ?thesis
  proof (cases "rc1 = 0")
    case False
    then have "rc = rc1" "d' = d1" using assms c1 by (simp_all add: logger_stderr_writev_all_def)
    then show ?thesis using w1 False by (auto simp: written_of_def)
  next
    case True
    obtain rc2 d2 where c2: "stderr_loop v d1 = (rc2, d2)" by fastforce
    have c3: "logger_sigpipe_end g rc2 (rc2 = - EPIPE) d2 = (rc, d')" using assms c1 c2 True by (simp add: logger_stderr_writev_all_def)
    then have "written_of d' = written_of d2" using guard_written(3) [of g rc2 "rc2 = - EPIPE" d2] by simp
    moreover have "rc = 0 \<longrightarrow> rc2 = 0" using c3 by (auto simp: logger_sigpipe_end_def Let_def split: prod.splits if_splits)
    ultimately show ?thesis using stderr_loop_facts [OF c2] w1 by (auto simp: written_of_def)
  qed
qed


section \<open>One record\<close>

text \<open>
  \<open>file_gained f d s f' d'\<close>: exactly \<open>s\<close> went to the end of the active file, the one open before or one
  newly created by rotation, and no other content changed.
\<close>

definition file_gained :: "logger_file \<Rightarrow> domain \<Rightarrow> string \<Rightarrow> logger_file \<Rightarrow> domain \<Rightarrow> bool" where
  "file_gained f d s f' d' \<longleftrightarrow>
     (f_inode f' = f_inode f \<and> (\<forall>i<length (k_inodes d). i < length (k_inodes d') \<and>
        i_data (k_inodes d' ! i) = i_data (k_inodes d ! i) @ (if i = f_inode f then s else []))) \<or>
     (f_inode f' = length (k_inodes d) \<and> contents_kept d d' \<and> i_data (k_inodes d' ! f_inode f') = s)"

lemma wrote_gained: "wrote f d s 0 f' d' \<Longrightarrow> file_gained f d s f' d'"
  by (auto simp: wrote_def file_gained_def)

lemma file_gained_frame:
  assumes "file_gained f d s f' d'" "files_of d0 = files_of d" "files_of d1 = files_of d'"
  shows "file_gained f d0 s f' d1"
proof -
  have "k_inodes d0 = k_inodes d" "k_inodes d1 = k_inodes d'" using assms(2,3) by (simp_all add: files_of_def)
  then show ?thesis using assms(1) by (simp add: file_gained_def contents_kept_def)
qed

text \<open>What each output holds after a call that selected the outputs \<open>out\<close>.\<close>

definition delivered :: "u32 \<Rightarrow> logger \<Rightarrow> domain \<Rightarrow> string \<Rightarrow> string list \<Rightarrow> logger \<Rightarrow> domain \<Rightarrow> bool" where
  "delivered out l d s packets l' d' \<longleftrightarrow>
     k_stderr d' = k_stderr d @ (if out AND LOGGER_OUT_STDERR \<noteq> 0 then s else []) \<and>
     (if out AND LOGGER_OUT_FILE \<noteq> 0 then file_gained (file_backend l) d s (file_backend l') d' else files_of d' = files_of d) \<and>
     k_sent d' = k_sent d @ (if out AND LOGGER_OUT_SYSLOG \<noteq> 0 then packets else [])"

definition outputs_ok :: "logger \<Rightarrow> domain \<Rightarrow> bool" where
  "outputs_ok l d \<longleftrightarrow> (l_outputs l AND LOGGER_OUT_FILE \<noteq> 0 \<longrightarrow> log_ok (file_backend l) d) \<and>
     (l_outputs l AND LOGGER_OUT_SYSLOG \<noteq> 0 \<longrightarrow> syslog_ok (syslog_backend l))"

lemma log_ok_frame: "log_ok f d \<Longrightarrow> files_of d' = files_of d \<Longrightarrow> k_table d' = k_table d \<Longrightarrow> log_ok f d'"
  using log_ok_same [of f d d' f] by (simp add: fds_kept_same)

lemma unat_of_nat_line: "n \<le> LOGGER_LINE_MAX \<Longrightarrow> unat (of_nat n :: size_t) = n"
  by (simp add: unsigned_of_nat take_bit_nat_eq_self)

lemma file_stage:
  assumes "logger_file_write f (Some line) (of_nat n) t sync d = (0, f', d')" "log_ok f d" "n \<le> length line" "n \<le> LOGGER_LINE_MAX"
  shows "file_gained f d (take n line) f' d'" "streams_of d' = streams_of d"
proof -
  have "wrote f d (take (unat (of_nat n :: size_t)) line) 0 f' d'"
    using file_write_wrote [OF assms(1,2)] assms(3,4) by (simp add: unat_of_nat_line)
  then show "file_gained f d (take n line) f' d'" using wrote_gained assms(4) by (simp add: unat_of_nat_line)
  show "streams_of d' = streams_of d" using streams.file_write_view(2) [of f "Some line" "of_nat n" t sync d] assms(1) by simp
qed

lemma emit_outputs_delivers:
  assumes "emit_outputs l m fs line n d = (0, l', d')" "outputs_ok l d" "n \<le> length line" "n \<le> LOGGER_LINE_MAX"
  shows "delivered (l_outputs l) l d (take n line) [datagram (syslog_backend l) (m_level m) line (of_nat n) d] l' d'"
proof -
  let ?s = "take n line"
  let ?out = "l_outputs l"
  obtain rc1 d1 where c1: "(if ?out AND LOGGER_OUT_STDERR \<noteq> 0 then logger_stderr_writev_all [?s] d else (0, d)) = (rc1, d1)" by fastforce
  have f1: "files_of d1 = files_of d" "k_table d1 = k_table d" "k_sent d1 = k_sent d" "k_pid d1 = k_pid d"
    "rc1 = 0 \<Longrightarrow> k_stderr d1 = k_stderr d @ (if ?out AND LOGGER_OUT_STDERR \<noteq> 0 then ?s else [])"
    using c1 stderr_writev_facts [of "[?s]" d rc1 d1] by (auto simp: min_absorb2 [OF assms(3)] split: if_splits)
  obtain rc2 l2 d2 where c2: "(if ?out AND LOGGER_OUT_FILE \<noteq> 0
            then (case logger_file_write (file_backend l) (Some line) (of_nat n) (Some (m_ts m)) (fs \<or> flush_level l \<le> m_level m) d1 of
                    (x, f, d2) \<Rightarrow> (if rc1 = 0 then x else rc1, l\<lparr>file_backend := f\<rparr>, d2))
            else (rc1, l, d1)) = (rc2, l2, d2)" using prod_cases3 by blast
  have l2: "l_outputs l2 = ?out" "syslog_backend l2 = syslog_backend l" using c2 by (auto split: if_splits prod.splits)
  have c3: "(if ?out AND LOGGER_OUT_SYSLOG \<noteq> 0
      then (case logger_syslog_write (syslog_backend l) (m_level m) (Some line) (of_nat n) d2 of (r, s, d3) \<Rightarrow>
              (case r of Inl e \<Rightarrow> if rc2 = 0 then - errno_or e EIO else rc2 | Inr _ \<Rightarrow> rc2, l2\<lparr>syslog_backend := s\<rparr>, d3))
      else (rc2, l2, d2)) = (0, l', d')"
    using assms(1) unfolding emit_outputs_def c1 prod.case c2 l2 by (simp only: l2)
  have rc2: "rc2 = 0" using c3 by (auto simp: errno_or_def split: if_splits prod.splits sum.splits)
  then have rc1: "rc1 = 0" using c2 by (auto split: if_splits prod.splits)
  have f2: "streams_of d2 = streams_of d1"
    "if ?out AND LOGGER_OUT_FILE \<noteq> 0 then file_gained (file_backend l) d1 ?s (file_backend l2) d2 else files_of d2 = files_of d1"
    using c2 rc1 rc2 file_stage [OF _ log_ok_frame [OF _ f1(1,2)] assms(3,4)] assms(2)
    by (auto simp: outputs_ok_def split: if_splits prod.splits)
  have pid: "datagram (syslog_backend l) (m_level m) line (of_nat n) d2 = datagram (syslog_backend l) (m_level m) line (of_nat n) d"
    using f1(4) f2(1) by (simp add: datagram_def streams_of_def)
  have f3: "k_stderr d' = k_stderr d2" "files_of d' = files_of d2" "file_backend l' = file_backend l2"
    "k_sent d' = k_sent d2 @ (if ?out AND LOGGER_OUT_SYSLOG \<noteq> 0 then [datagram (syslog_backend l) (m_level m) line (of_nat n) d] else [])"
    using c3 rc2 syslog_write_wrote [of "syslog_backend l" "m_level m" line "of_nat n" d2] assms(2) pid
    by (auto simp: outputs_ok_def syslog_wrote_def errno_or_def split: if_splits prod.splits sum.splits)
  have "k_stderr d2 = k_stderr d1" "k_sent d2 = k_sent d1" using f2(1) by (simp_all add: streams_of_def)
  then show ?thesis
    using f1 rc1 f2(2) f3 file_gained_frame [of "file_backend l" d1 ?s "file_backend l2" d2 d d']
    by (auto simp: delivered_def split: if_splits)
qed


text \<open>The formatters stay inside the line, whatever the texts and failures.\<close>

definition line_fits :: "line_buffer \<Rightarrow> bool" where
  "line_fits line \<longleftrightarrow> lb_used line \<le> lb_cap line - 1 \<and> lb_cap line \<le> length (lb_out line)"

lemma append_shape:
  assumes "append line fl s = (rc, line')" "line_fits line"
  shows "line_fits line' \<and> lb_cap line' = lb_cap line \<and> length (lb_out line') = length (lb_out line)"
proof (cases "lb_cap line - 1 \<le> lb_used line \<or> fl \<noteq> None")
  case True
  then show ?thesis using assms by (auto simp: append_def append_overflow_def line_fits_def Let_def split: if_splits option.splits)
next
  case False
  let ?room = "lb_cap line - lb_used line"
  let ?st = "take (?room - 1) s @ [NUL]"
  have "lb_used line + length ?st \<le> length (lb_out line)" using False assms(2) by (auto simp: line_fits_def)
  then have "length (memcpy_at (lb_out line) (lb_used line) ?st (length ?st)) = length (lb_out line)" by simp
  then show ?thesis using False assms by (auto simp: append_def append_overflow_def line_fits_def Let_def split: if_splits)
qed

lemma append_all_shape:
  assumes "append_all fls k line ss = (rc, line')" "line_fits line"
  shows "line_fits line' \<and> lb_cap line' = lb_cap line \<and> length (lb_out line') = length (lb_out line)"
  using assms
proof (induction fls k line ss rule: append_all.induct)
  case (2 fls k line s ss)
  obtain rc1 line1 where a: "append line (fls k) s = (rc1, line1)" by fastforce
  show ?case using 2 a append_shape [OF a "2.prems"(2)] by (auto split: if_splits)
qed simp

lemma format_line_shape:
  assumes "format_line env cache (Some c) (Some m) (Some out) cap strict = (rc, len, outp, cache')" "length out = cap"
  shows "(\<forall>n. len = Some n \<longrightarrow> n < cap \<and> rc = 0) \<and> (\<exists>out'. outp = Some out' \<and> length out' = cap)"
proof -
  let ?t = "refresh_time env cache (tv_sec (m_ts m))"
  let ?start = "\<lparr>lb_out = out[0 := NUL], lb_cap = cap - 1, lb_used = 0, lb_strict = strict, lb_truncated = False\<rparr>"
  obtain rc1 line where a: "append_all (fe_vsnprintf env) 0 ?start (line_pieces ?t c m) = (rc1, line)" by fastforce
  have "line_fits ?start" using assms(2) by (simp add: line_fits_def)
  then have "lb_used line \<le> cap - 2" "length (lb_out line) = cap"
    using append_all_shape [OF a] assms(2) by (auto simp: line_fits_def)
  moreover have "Suc (lb_used line) < length out" if "out \<noteq> []" "length out \<noteq> Suc 0"
    using that calculation assms(2) by (cases out; cases "tl out") auto
  ultimately show ?thesis using assms a by (auto simp: format_line_def Let_def split: if_splits)
qed

lemma format_plain_shape:
  assumes "logger_format_line env cache (Some c) (Some m) (Some out) cap = (n, e, outp, cache')" "length out = cap"
  shows "n \<le> cap" "length (the outp) = cap"
proof -
  obtain rc len o1 k where f: "format_line env cache (Some c) (Some m) (Some out) cap False = (rc, len, o1, k)" using prod_cases4 by blast
  show "n \<le> cap" "length (the outp) = cap"
    using format_line_shape [OF f assms(2)] assms(1) f by (auto simp: logger_format_line_def clear_first_def split: option.splits if_splits)
qed

lemma format_checked_shape:
  assumes "logger_format_line_checked env cache (Some c) (Some m) (Some out) cap True = (rc, n, outp, cache')" "length out = cap"
  shows "n \<le> cap" "length (the outp) = cap"
proof -
  obtain rc1 len o1 k where f: "format_line env cache (Some c) (Some m) (Some out) cap True = (rc1, len, o1, k)" using prod_cases4 by blast
  show "n \<le> cap" "length (the outp) = cap"
    using format_line_shape [OF f assms(2)] assms(1) f by (auto simp: logger_format_line_checked_def clear_first_def split: option.splits if_splits)
qed

text \<open>The line a record becomes, with its length: the strict formatter for acknowledged records.\<close>

definition record_line :: "logger \<Rightarrow> logger_message \<Rightarrow> bool \<Rightarrow> thread_state \<Rightarrow> char list \<times> nat" where
  "record_line l m force_sync t =
     (if force_sync
      then (case logger_format_line_checked (th_format t) (th_cache t) (Some (format_config l)) (Some m) (Some fresh_line) LOGGER_LINE_MAX True of
              (rc, n, line, cache) \<Rightarrow> (the line, n))
      else (case logger_format_line (th_format t) (th_cache t) (Some (format_config l)) (Some m) (Some fresh_line) LOGGER_LINE_MAX of
              (n, err, line, cache) \<Rightarrow> (the line, n)))"

definition record_counters :: "logger \<Rightarrow> u64 \<times> u64 \<times> u64 \<times> u64" where
  "record_counters l = (emitted_records l, failed_records l, sync_completed l, async_completed l)"

lemma note_counters [simp]:
  "emitted_records (logger_note_io_error l e) = emitted_records l" "failed_records (logger_note_io_error l e) = failed_records l"
  "sync_completed (logger_note_io_error l e) = sync_completed l" "async_completed (logger_note_io_error l e) = async_completed l"
  "emitted_records (logger_note_lifecycle_error l e) = emitted_records l" "failed_records (logger_note_lifecycle_error l e) = failed_records l"
  "sync_completed (logger_note_lifecycle_error l e) = sync_completed l" "async_completed (logger_note_lifecycle_error l e) = async_completed l"
  "emitted_records (logger_note_synchronization_error l e) = emitted_records l"
  "failed_records (logger_note_synchronization_error l e) = failed_records l"
  "sync_completed (logger_note_synchronization_error l e) = sync_completed l"
  "async_completed (logger_note_synchronization_error l e) = async_completed l"
  by (simp_all add: logger_note_io_error_def logger_note_lifecycle_error_def logger_note_synchronization_error_def)

lemma note_io_keeps [simp]:
  "l_running (logger_note_io_error l e) = l_running l" "l_q (logger_note_io_error l e) = l_q l"
  "worker_workspace (logger_note_io_error l e) = worker_workspace l" "consumer_records (logger_note_io_error l e) = consumer_records l"
  "synchronization_error (logger_note_io_error l e) = synchronization_error l"
  by (simp_all add: logger_note_io_error_def)

lemma note_life_keeps [simp]:
  "l_q (logger_note_lifecycle_error l e) = l_q l" "worker_workspace (logger_note_lifecycle_error l e) = worker_workspace l"
  "consumer_records (logger_note_lifecycle_error l e) = consumer_records l"
  "synchronization_error (logger_note_lifecycle_error l e) = synchronization_error l"
  "l_q (logger_note_synchronization_error l e) = l_q l" "worker_workspace (logger_note_synchronization_error l e) = worker_workspace l"
  "consumer_records (logger_note_synchronization_error l e) = consumer_records l"
  "\<not> l_running l \<Longrightarrow> \<not> l_running (logger_note_lifecycle_error l e)"
  "\<not> l_running l \<Longrightarrow> \<not> l_running (logger_note_synchronization_error l e)"
  by (simp_all add: logger_note_lifecycle_error_def logger_note_synchronization_error_def)

lemma note_backends [simp]:
  "file_backend (logger_note_io_error l e) = file_backend l" "syslog_backend (logger_note_io_error l e) = syslog_backend l"
  "file_backend (logger_note_synchronization_error l e) = file_backend l"
  "l_outputs (logger_note_io_error l e) = l_outputs l"
  by (simp_all add: logger_note_io_error_def logger_note_lifecycle_error_def logger_note_synchronization_error_def)

lemma emit_outputs_counters:
  assumes "emit_outputs l m fs line n d = (rc, l', d')"
  shows "record_counters l' = record_counters l"
  using assms by (auto simp: emit_outputs_def record_counters_def split: prod.splits if_splits)

text \<open>The counting at the end of a record that reached the outputs.\<close>

definition settle_record :: "int \<Rightarrow> logger \<Rightarrow> logger" where
  "settle_record rc l =
     (let l4 = (if rc < 0 then (let l' = logger_note_io_error l (- rc) in l'\<lparr>failed_records := failed_records l' + 1\<rparr>)
                else l\<lparr>emitted_records := emitted_records l + 1\<rparr>)
      in l4\<lparr>sync_completed := sync_completed l4 + 1\<rparr>)"

text \<open>The two ways through \<^verbatim>\<open>logger_emit_status\<close>: refused by the strict formatter, or counted once.\<close>

lemma emit_status_stages:
  assumes "logger_emit_status l m fs t d = (rc, l', t', d')"
  obtains (refused) "fs" "rc \<noteq> 0" "l' = l" "d' = d"
    | (lost) e where "rc \<noteq> 0" "l' = count_failed (logger_note_io_error l e)" "written_of d' = written_of d"
    | (written) d1 rc2 l2 d2 e where "written_of d1 = written_of d" "written_of d' = written_of d2"
        "emit_outputs l m fs (fst (record_line l m fs t)) (snd (record_line l m fs t)) d1 = (rc2, l2, d2)"
        "rc = first_rc rc2 (- e)" "file_backend l' = file_backend l2"
        "record_counters l' = (if rc < 0 then (emitted_records l, failed_records l + 1, sync_completed l + 1, async_completed l)
           else (emitted_records l + 1, failed_records l, sync_completed l + 1, async_completed l))"
        "l' = settle_record rc (if e \<noteq> 0 then logger_note_synchronization_error l2 (- e) else l2)"
proof -
  define res where "res = (if fs
            then (case logger_format_line_checked (th_format t) (th_cache t) (Some (format_config l)) (Some m) (Some fresh_line)
                         LOGGER_LINE_MAX True of (rc, n, line, cache) \<Rightarrow> (rc, n, the line, t\<lparr>th_cache := cache\<rparr>, l))
            else (case logger_format_line (th_format t) (th_cache t) (Some (format_config l)) (Some m) (Some fresh_line)
                         LOGGER_LINE_MAX of (n, err, line, cache) \<Rightarrow>
                    let t1 = t\<lparr>th_cache := cache\<rparr> in
                    if n = 0 then (let e = errno_or err EILSEQ in (- e, 0, the line, t1, count_failed (logger_note_io_error l e)))
                    else (0, n, the line, t1, l)))"
  obtain rc0 n line t1 l1 where r: "res = (rc0, n, line, t1, l1)" using prod_cases5 by blast
  have line: "rc0 = 0 \<Longrightarrow> l1 = l \<and> line = fst (record_line l m fs t) \<and> n = snd (record_line l m fs t)"
    using r by (auto simp: res_def record_line_def Let_def errno_or_def split: prod.splits if_splits)
  note run = assms [unfolded logger_emit_status_def res_def [symmetric] r prod.case]
  show thesis
  proof (cases "rc0 = 0")
    case False
    then have out: "rc = rc0" "l' = l1" "d' = d" using run by auto
    show ?thesis
    proof (cases fs)
      case True
      then have "l1 = l" using r by (auto simp: res_def split: prod.splits)
      then show ?thesis using refused True out False by simp
    next
      case fs: False
      then have "\<exists>e. l1 = count_failed (logger_note_io_error l e)"
        using r False by (auto simp: res_def Let_def split: prod.splits if_splits)
      then show ?thesis using lost out False by blast
    qed
  next
    case True
    note L = line [OF True]
    obtain locked d1 where c1: "pthread_call d = (locked, d1)" by fastforce
    have w1: "written_of d1 = written_of d" using signal_calls_written(1) [of d] c1 by simp
    show ?thesis
    proof (cases "synchronization_error l \<noteq> 0 \<or> locked \<noteq> 0")
      case bad: True
      then have "rc \<noteq> 0" "\<exists>e. l' = count_failed (logger_note_io_error l e)" "d' = d \<or> d' = d1"
        using run True L c1 by (auto split: if_splits)
      then show ?thesis using lost w1 by metis
    next
      case good: False
      obtain rc2 l2 d2 where c2: "emit_outputs l m fs line n d1 = (rc2, l2, d2)" using prod_cases3 by blast
      obtain unlocked d3 where c3: "pthread_call d2 = (unlocked, d3)" by fastforce
      have w3: "written_of d3 = written_of d2" using signal_calls_written(1) [of d2] c3 by simp
      note cnt = emit_outputs_counters [OF c2]
      define l3 where "l3 = (if unlocked \<noteq> 0 then logger_note_synchronization_error l2 (- unlocked) else l2)"
      define rc3 where "rc3 = (if unlocked \<noteq> 0 \<and> rc2 = 0 then - unlocked else rc2)"
      have l3: "record_counters l3 = record_counters l" "file_backend l3 = file_backend l2"
        using cnt by (simp_all add: l3_def record_counters_def)
      have rc3: "rc3 = first_rc rc2 (- unlocked)" by (simp add: rc3_def first_rc_def)
      have "rc = rc3" "d' = d3"
        "l' = settle_record rc3 l3"
        using run True L c1 c2 c3 good unfolding l3_def rc3_def Let_def settle_record_def by auto
      moreover have "record_counters (settle_record rc3 l3) =
          (if rc3 < 0 then (emitted_records l, failed_records l + 1, sync_completed l + 1, async_completed l)
           else (emitted_records l + 1, failed_records l, sync_completed l + 1, async_completed l))"
        "file_backend (settle_record rc3 l3) = file_backend l2"
        using l3 by (simp_all add: settle_record_def record_counters_def)
      ultimately have "written_of d' = written_of d2"
        "emit_outputs l m fs (fst (record_line l m fs t)) (snd (record_line l m fs t)) d1 = (rc2, l2, d2)"
        "rc = first_rc rc2 (- unlocked)" "file_backend l' = file_backend l2"
        "record_counters l' = (if rc < 0 then (emitted_records l, failed_records l + 1, sync_completed l + 1, async_completed l)
           else (emitted_records l + 1, failed_records l, sync_completed l + 1, async_completed l))"
        "l' = settle_record rc (if unlocked \<noteq> 0 then logger_note_synchronization_error l2 (- unlocked) else l2)"
        using w3 c2 L rc3 by (simp_all add: l3_def)
      with w1 show ?thesis by (rule written)
    qed
  qed
qed


lemma delivered_frame:
  assumes "delivered out l d1 s packets l2 d2" "written_of d1 = written_of d" "written_of d' = written_of d2" "file_backend l' = file_backend l2"
  shows "delivered out l d s packets l' d'"
proof -
  have e: "files_of d = files_of d1" "files_of d' = files_of d2" "k_sent d1 = k_sent d" "k_sent d' = k_sent d2"
    "k_stderr d1 = k_stderr d" "k_stderr d' = k_stderr d2"
    using assms(2,3) by (simp_all add: written_of_def)
  then show ?thesis
    using assms(1,4) file_gained_frame [of "file_backend l" d1 s "file_backend l2" d2 d d'] by (auto simp: delivered_def split: if_splits)
qed

lemma outputs_ok_frame: "outputs_ok l d \<Longrightarrow> written_of d1 = written_of d \<Longrightarrow> outputs_ok l d1"
  using log_ok_frame [of "file_backend l" d d1] by (auto simp: outputs_ok_def written_of_def)

lemma record_line_shape: "snd (record_line l m fs t) \<le> LOGGER_LINE_MAX" "length (fst (record_line l m fs t)) = LOGGER_LINE_MAX"
  using format_plain_shape [of "th_format t" "th_cache t" "format_config l" m fresh_line LOGGER_LINE_MAX]
    format_checked_shape [of "th_format t" "th_cache t" "format_config l" m fresh_line LOGGER_LINE_MAX]
  by (auto simp: record_line_def split: prod.splits)

abbreviation line_text :: "logger \<Rightarrow> logger_message \<Rightarrow> bool \<Rightarrow> thread_state \<Rightarrow> string" where
  "line_text l m fs t \<equiv> take (snd (record_line l m fs t)) (fst (record_line l m fs t))"

abbreviation line_datagram :: "logger \<Rightarrow> logger_message \<Rightarrow> bool \<Rightarrow> thread_state \<Rightarrow> domain \<Rightarrow> string" where
  "line_datagram l m fs t d \<equiv>
     datagram (syslog_backend l) (m_level m) (fst (record_line l m fs t)) (of_nat (snd (record_line l m fs t))) d"

lemma emit_status_delivers:
  assumes "logger_emit_status l m fs t d = (rc, l', t', d')" "outputs_ok l d"
  shows "fs \<and> rc \<noteq> 0 \<and> l' = l \<and> d' = d \<or>
    sync_completed l' = sync_completed l + 1 \<and> async_completed l' = async_completed l \<and>
    (emitted_records l' = emitted_records l + 1 \<and> failed_records l' = failed_records l \<or>
     emitted_records l' = emitted_records l \<and> failed_records l' = failed_records l + 1) \<and>
    (rc = 0 \<longrightarrow> emitted_records l' = emitted_records l + 1 \<and>
       delivered (l_outputs l) l d (line_text l m fs t) [line_datagram l m fs t d] l' d')"
  using assms(1)
proof (cases rule: emit_status_stages)
  case refused
  then show ?thesis by simp
next
  case lost
  then show ?thesis by (simp add: count_failed_def)
next
  case (written d1 rc2 l2 d2 e)
  have "delivered (l_outputs l) l d (line_text l m fs t) [line_datagram l m fs t d] l' d'" if "rc = 0"
  proof -
    have "rc2 = 0" using that written(4) by simp
    then have "delivered (l_outputs l) l d1 (line_text l m fs t) [line_datagram l m fs t d1] l2 d2"
      using emit_outputs_delivers [of l m fs "fst (record_line l m fs t)" "snd (record_line l m fs t)" d1 l2 d2]
        written(3) outputs_ok_frame [OF assms(2) written(1)] record_line_shape [of l m fs t] by simp
    moreover have "line_datagram l m fs t d1 = line_datagram l m fs t d"
      using written(1) by (simp add: datagram_def written_of_def)
    ultimately show ?thesis using delivered_frame written(1,2,5) by metis
  qed
  then show ?thesis using written(6) by (auto simp: record_counters_def split: if_splits)
qed

section \<open>A batch\<close>

lemma syslog_batch_facts:
  assumes "syslog_batch ms lines bs l d = (bs', l', d')" "length lines = length ms" "length bs = length ms"
  shows "length bs' = length bs \<and> record_counters l' = record_counters l \<and> l_q l' = l_q l \<and> file_backend l' = file_backend l \<and>
    (\<not> l_running l \<longrightarrow> \<not> l_running l') \<and> worker_workspace l' = worker_workspace l \<and> list_all2 (\<lambda>b b'. b \<longrightarrow> b') bs bs' \<and>
    consumer_records l' = consumer_records l \<and> synchronization_error l' = synchronization_error l"
  using assms
proof (induction ms arbitrary: lines bs l d bs' l' d')
  case Nil
  then show ?case by simp
next
  case (Cons m ms)
  obtain line n lines1 b bs1 where eq: "lines = (line, n) # lines1" "bs = b # bs1"
    using Cons.prems(2,3) by (cases lines; cases bs) auto
  obtain r s d1 where c: "logger_syslog_write (syslog_backend l) (m_level m) (Some line) (of_nat n) d = (r, s, d1)" using prod_cases3 by blast
  obtain b1 l2 where c2: "(case r of Inl e \<Rightarrow> (True, logger_note_io_error (l\<lparr>syslog_backend := s\<rparr>) (errno_or e EIO))
      | Inr _ \<Rightarrow> (b, l\<lparr>syslog_backend := s\<rparr>)) = (b1, l2)" by fastforce
  have k: "record_counters l2 = record_counters l" "l_q l2 = l_q l" "file_backend l2 = file_backend l" "l_running l2 = l_running l"
    "worker_workspace l2 = worker_workspace l" "b \<longrightarrow> b1" "consumer_records l2 = consumer_records l"
    "synchronization_error l2 = synchronization_error l"
    using c2 by (auto simp: record_counters_def split: sum.splits)
  obtain bs2 l3 d3 where c3: "syslog_batch ms lines1 bs1 l2 d1 = (bs2, l3, d3)" using prod_cases3 by blast
  have "bs' = b1 # bs2" "l' = l3" "d' = d3" using Cons.prems(1) c c2 c3 eq by (auto simp: Let_def)
  then show ?case using Cons.IH [OF c3] Cons.prems(2,3) k eq by auto
qed


text \<open>What a batch keeps: the worker's own state, and the stop request.\<close>

definition worker_view :: "logger \<Rightarrow> logger_queue \<times> logger_worker_workspace option \<times> u64" where
  "worker_view l = (l_q l, worker_workspace l, consumer_records l)"

definition kept_by_output :: "logger \<Rightarrow> logger \<Rightarrow> bool" where
  "kept_by_output l l' \<longleftrightarrow> record_counters l' = record_counters l \<and> worker_view l' = worker_view l \<and> (\<not> l_running l \<longrightarrow> \<not> l_running l')"

lemma kept_refl [simp]: "kept_by_output l l"
  by (simp add: kept_by_output_def)

lemma kept_trans: "kept_by_output l l1 \<Longrightarrow> kept_by_output l1 l2 \<Longrightarrow> kept_by_output l l2"
  by (simp add: kept_by_output_def)

lemma kept_notes [simp]:
  "kept_by_output l (logger_note_io_error l1 e) = kept_by_output l l1" "kept_by_output l (l1\<lparr>file_backend := f\<rparr>) = kept_by_output l l1"
  "kept_by_output l l1 \<Longrightarrow> kept_by_output l (logger_note_lifecycle_error l1 e)"
  "kept_by_output l l1 \<Longrightarrow> kept_by_output l (logger_note_synchronization_error l1 e)"
  by (simp_all add: kept_by_output_def record_counters_def worker_view_def)

lemma batch_outputs_kept:
  assumes "batch_outputs ms lines failed l d = (failed', l', d')" "length lines = length ms" "length failed = length ms"
  shows "length failed' = length ms \<and> kept_by_output l l'"
proof -
  let ?vec = "map (\<lambda>(line, n). take n line) lines"
  obtain b1 l1 d1 where c1: "batch_stderr ?vec failed l d = (b1, l1, d1)" using prod_cases3 by blast
  obtain b2 l2 d2 where c2: "batch_file ms ?vec b1 l1 d1 = (b2, l2, d2)" using prod_cases3 by blast
  have k1: "length b1 = length ms" "kept_by_output l l1" using c1 assms(3) by (auto simp: batch_stderr_def split: if_splits prod.splits)
  have k2: "length b2 = length ms" "kept_by_output l1 l2"
    using c2 k1 by (auto simp: batch_file_def Let_def split: if_splits prod.splits)
  have "length failed' = length ms \<and> kept_by_output l2 l'"
  proof (cases "l_outputs l2 AND LOGGER_OUT_SYSLOG \<noteq> 0")
    case True
    then have "syslog_batch ms lines b2 l2 d2 = (failed', l', d')" using assms(1) c1 c2 by (simp add: batch_outputs_def Let_def)
    then show ?thesis using syslog_batch_facts [of ms lines b2 l2 d2 failed' l' d'] assms(2) k2
      by (simp add: kept_by_output_def worker_view_def)
  next
    case False
    then show ?thesis using assms(1) c1 c2 k2 by (simp add: batch_outputs_def Let_def)
  qed
  then show ?thesis using k1 k2 kept_trans by blast
qed

lemma format_batch_length: "format_batch l e ms t = (lines, e', t') \<Longrightarrow> length lines = length ms"
  by (induction ms arbitrary: e t lines e' t') (auto split: prod.splits)

text \<open>Every record of a batch is counted once, as emitted or as failed.\<close>

definition batch_counted :: "nat \<Rightarrow> logger \<Rightarrow> logger \<Rightarrow> bool" where
  "batch_counted n l l' \<longleftrightarrow> (\<exists>bad\<le>n. failed_records l' = failed_records l + of_nat bad \<and>
     emitted_records l' = emitted_records l + of_nat (n - bad)) \<and>
     sync_completed l' = sync_completed l \<and> async_completed l' = async_completed l \<and> worker_view l' = worker_view l \<and>
     (\<not> l_running l \<longrightarrow> \<not> l_running l')"

lemma account_batch_counted:
  assumes "kept_by_output l l1" "length bs = n"
  shows "batch_counted n l (account_batch bs l1)"
proof -
  have "length (filter id bs) \<le> n" using assms(2) length_filter_le by metis
  then show ?thesis
    using assms unfolding batch_counted_def kept_by_output_def account_batch_def record_counters_def worker_view_def Let_def
    by (intro conjI exI [of _ "length (filter id bs)"]) (auto simp: of_nat_diff)
qed

lemma emit_batch_counted:
  assumes "emit_batch l ms t d = (l', t', d')"
  shows "batch_counted (length ms) l l'"
proof -
  obtain lines e t1 where c1: "format_batch l 0 ms t = (lines, e, t1)" using prod_cases3 by blast
  note len = format_batch_length [OF c1]
  obtain locked d1 where c2: "pthread_call d = (locked, d1)" by fastforce
  obtain failed l1 d2 where c3: "batch_outputs ms lines (replicate (length ms) False) l d1 = (failed, l1, d2)" using prod_cases3 by blast
  have k: "length failed = length ms" "kept_by_output l l1" using batch_outputs_kept [OF c3 len] by simp_all
  obtain unlocked d3 where c4: "pthread_call d2 = (unlocked, d3)" by fastforce
  note run = assms [unfolded emit_batch_def Let_def c1 prod.case c2 c3 c4]
  let ?all = "replicate (length ms) True"
  have "\<exists>l1' bs. kept_by_output l l1' \<and> length bs = length ms \<and> l' = account_batch bs l1'"
  proof (cases "e \<noteq> 0")
    case True
    then show ?thesis using run by (intro exI [of _ "logger_note_io_error l e"] exI [of _ ?all]) simp
  next
    case e: False
    show ?thesis
    proof (cases "locked \<noteq> 0")
      case True
      then show ?thesis using run e
        by (intro exI [of _ "logger_note_lifecycle_error (logger_note_io_error l locked) locked"] exI [of _ ?all]) simp
    next
      case locked: False
      show ?thesis
      proof (cases "unlocked \<noteq> 0")
        case True
        then show ?thesis using run e locked k
          by (intro exI [of _ "logger_note_synchronization_error (logger_note_io_error l1 unlocked) (- unlocked)"] exI [of _ ?all]) simp
      next
        case False
        then show ?thesis using run e locked k by (intro exI [of _ l1] exI [of _ failed]) simp
      qed
    qed
  qed
  then show ?thesis using account_batch_counted by blast
qed

end
