(* ===== verification/Logger_Core.thy ===== *)
theory Logger_Core
  imports Logger_Emit
begin

text \<open>
  The public operations of \<^verbatim>\<open>src/logger.c\<close> on a live instance: logging, flushing, reopening, levels and
  the snapshots.

  A null pointer is \<^const>\<open>None\<close>. \<open>fmt\<close> is what the format string and its arguments expand to, \<^const>\<open>None\<close> for a
  null format. \<^verbatim>\<open>errno\<close> is restored by every public function, so a call has its code as result only. A
  value the caller asked for is part of the result; the caller's variable is written exactly when
  there is one. \<open>log_env\<close> holds the outcomes of the calls on the queue's wait lock, as in the queue
  theory. A call that may wait for another thread has no result (\<^const>\<open>None\<close>) when it waits for ever.
\<close>

section \<open>Admission without a scope\<close>

definition reject_access :: "domain \<Rightarrow> errno" where
  "reject_access d =
     (if logger_process_is_child d then ECHILD
      else if logger_scope_busy d then EDEADLK
      else let rc = logger_process_require d in if rc \<noteq> 0 then - rc else 0)"

text \<open>A query: refused, or \<open>-EINVAL\<close> for a null argument, or a value.\<close>

definition query :: "domain \<Rightarrow> logger option \<Rightarrow> bool \<Rightarrow> (logger \<Rightarrow> 'a) \<Rightarrow> int \<times> 'a option" where
  "query d l out read =
     (let e = reject_access d in
      if e \<noteq> 0 then (- e, None)
      else case l of
        None \<Rightarrow> (- EINVAL, None)
      | Some x \<Rightarrow> if \<not> out then (- EINVAL, None) else (0, Some (read x)))"

definition logger_get_state :: "domain \<Rightarrow> logger option \<Rightarrow> bool \<Rightarrow> int \<times> logger_state_t option" where
  "logger_get_state d l out = query d l out l_state"

definition logger_set_instance_level :: "domain \<Rightarrow> logger option \<Rightarrow> logger_level_t \<Rightarrow> int \<times> logger option" where
  "logger_set_instance_level d l v =
     (let e = reject_access d in
      if e \<noteq> 0 then (- e, l)
      else case l of
        None \<Rightarrow> (- EINVAL, l)
      | Some x \<Rightarrow> if LOGGER_OFF < as_unsigned v then (- EINVAL, l) else (0, Some (x\<lparr>l_level := v\<rparr>)))"

section \<open>Logging\<close>

record log_env =
  le_push :: queue_env
  le_wake :: queue_env

definition update_high_watermark :: "logger \<Rightarrow> logger" where
  "update_high_watermark l =
     (let depth = logger_queue_depth (l_q l); old = queue_high_watermark l in
      if old < depth then l\<lparr>queue_high_watermark := depth\<rparr> else l)"

text \<open>What \<^verbatim>\<open>vsnprintf\<close> leaves in the text of a message: at most the buffer less one byte, and a terminator.\<close>

definition store_text :: "string \<Rightarrow> logger_message \<Rightarrow> logger_message" where
  "store_text s m =
     (let n = (if length s < LOGGER_MESSAGE_MAX then length s else LOGGER_MESSAGE_MAX - 1) in
      m\<lparr>m_text := (memcpy_at (m_text m) 0 s n)[n := NUL]\<rparr>)"

text \<open>The message of a record: metadata, time and text, or the code of the call that failed.\<close>

definition build_message ::
  "logger \<Rightarrow> thread_state \<Rightarrow> logger_level_t \<Rightarrow> logger_source_t \<Rightarrow> string \<Rightarrow> domain \<Rightarrow> (int + string \<times> logger_message) \<times> domain" where
  "build_message l t lv src fmt d =
     (let m = prepare_record_metadata l t (blank_message lv) src in
      case sys_realtime d of
        (Inl e, d1) \<Rightarrow> (Inl (- errno_or e EIO), d1)
      | (Inr ts, d1) \<Rightarrow>
        (case logger_libc_vsnprintf fmt d1 of
           (Inl e, d2) \<Rightarrow> (Inl (- errno_or e EILSEQ), d2)
         | (Inr s, d2) \<Rightarrow> (Inr (s, store_text s (m\<lparr>m_ts := ts\<rparr>)), d2)))"

text \<open>A record that was published although its notification failed: no more records are admitted.\<close>

definition publish_failed :: "log_env \<Rightarrow> int \<Rightarrow> logger \<Rightarrow> logger" where
  "publish_failed env push_rc l =
     (let l1 = update_high_watermark (l\<lparr>enqueued := enqueued l + 1\<rparr>);
          l2 = logger_note_lifecycle_error (logger_note_io_error l1 (- push_rc)) (- push_rc);
          wait_error = logger_queue_wait_error (l_q l2)
      in if wait_error \<noteq> 0 then logger_note_synchronization_error l2 wait_error
         else case logger_queue_wake_force (le_wake env) (l_q l2) of (wake_rc, q) \<Rightarrow>
           let l3 = l2\<lparr>l_q := q\<rparr> in
           if wake_rc \<noteq> 0
           then (let l4 = logger_note_lifecycle_error l3 (- wake_rc); again = logger_queue_wait_error (l_q l4) in
                 if again \<noteq> 0 then logger_note_synchronization_error l4 again else l4)
           else l3)"

text \<open>The record goes to the queue, or to the outputs, or is dropped.\<close>

definition submit_record ::
  "log_env \<Rightarrow> logger \<Rightarrow> logger_message \<Rightarrow> thread_state \<Rightarrow> domain \<Rightarrow> (int \<times> logger \<times> thread_state \<times> domain) option" where
  "submit_record env l m t d =
     (if \<not> async_mode l then Some (logger_emit_status l m False t d)
      else case logger_queue_push (le_push env) (th_spill t) (l_q l) m of
        None \<Rightarrow> None
      | Some (push_rc, q, tls) \<Rightarrow>
        let l1 = l\<lparr>l_q := q\<rparr>; t1 = t\<lparr>th_spill := tls\<rparr> in
        if 0 < push_rc then Some (0, update_high_watermark (l1\<lparr>enqueued := enqueued l1 + 1\<rparr>), t1, d)
        else if push_rc < 0 then Some (push_rc, publish_failed env push_rc l1, t1, d)
        else if l_overflow l1 ! nat (m_level m) = LOGGER_OVERFLOW_SYNC
        then Some (logger_emit_status (l1\<lparr>sync_fallbacks := sync_fallbacks l1 + 1\<rparr>) m False t1 d)
        else let i = nat (m_level m) in
          Some (- EAGAIN, l1\<lparr>dropped_by_level := (dropped_by_level l1)[i := dropped_by_level l1 ! i + 1]\<rparr>, t1, d))"

definition vlog_body ::
  "log_env \<Rightarrow> logger_level_t \<Rightarrow> logger_source_t \<Rightarrow> string \<Rightarrow> logger \<Rightarrow> thread_state \<Rightarrow> domain \<Rightarrow>
   (int \<times> logger \<times> thread_state \<times> domain) option" where
  "vlog_body env lv src fmt l t d =
     (if lv < l_level l then Some (0, l, t, d)
      else case build_message l t lv src fmt d of
        (Inl rc, d1) \<Rightarrow> Some (rc, l, t, d1)
      | (Inr (s, m), d1) \<Rightarrow>
        let m1 = (if LOGGER_MESSAGE_MAX \<le> length s
                  then m\<lparr>m_text := logger_text_mark_truncated (m_text m) LOGGER_MESSAGE_MAX\<rparr> else m);
            stored = (if length s < LOGGER_MESSAGE_MAX then length s else LOGGER_MESSAGE_MAX - 1)
        in submit_record env l (m1\<lparr>m_text_len := of_nat stored\<rparr>) t d1)"

definition log_refused :: "logger option \<Rightarrow> string option \<Rightarrow> logger_level_t \<Rightarrow> int" where
  "log_refused l fmt level =
     (case l of
        None \<Rightarrow> - EINVAL
      | Some x \<Rightarrow> if fmt = None \<or> LOGGER_OFF \<le> as_unsigned level then - EINVAL
        else if l_state x \<noteq> LOGGER_STATE_RUNNING then - ESHUTDOWN else 0)"

text \<open>The call scope around a body that may wait for ever.\<close>

definition in_waiting_scope :: "('s \<Rightarrow> domain \<Rightarrow> (int \<times> 's \<times> domain) option) \<Rightarrow> 's \<Rightarrow> domain \<Rightarrow> (int \<times> 's \<times> domain) option" where
  "in_waiting_scope body s d =
     (case logger_scope_begin d of (rc, d1) \<Rightarrow>
        if rc \<noteq> 0 then Some (rc, s, d1)
        else map_option (\<lambda>(rc2, s2, d2). case logger_scope_end 0 rc2 d2 of (rc3, _, d3) \<Rightarrow> (rc3, s2, d3)) (body s d1))"

type_synonym caller = "logger option \<times> thread_state"

definition logger_vlog_internal ::
  "log_env \<Rightarrow> logger_level_t \<Rightarrow> logger_source_t \<Rightarrow> string option \<Rightarrow> caller \<Rightarrow> domain \<Rightarrow> (int \<times> caller \<times> domain) option" where
  "logger_vlog_internal env level src fmt = in_waiting_scope (\<lambda>(l, t) d.
     let rc = log_refused l fmt level in
     if rc \<noteq> 0 then Some (rc, (l, t), d)
     else map_option (\<lambda>(rc2, l2, t2, d2). (rc2, (Some l2, t2), d2)) (vlog_body env level src (the fmt) (the l) t d))"

definition logger_log ::
  "log_env \<Rightarrow> logger_level_t \<Rightarrow> cptr \<Rightarrow> cptr \<Rightarrow> int \<Rightarrow> cptr \<Rightarrow> string option \<Rightarrow> caller \<Rightarrow> domain \<Rightarrow> (int \<times> caller \<times> domain) option" where
  "logger_log env level module file line func fmt = in_waiting_scope (\<lambda>(l, t) d.
     let rc = log_refused l fmt level in
     if rc \<noteq> 0 then Some (rc, (l, t), d)
     else map_option (\<lambda>(rc2, l2, t2, d2). (rc2, (Some l2, t2), d2))
       (vlog_body env level \<lparr>src_module = module, src_file = file, src_func = func, src_line = line\<rparr> (the fmt) (the l) t d))"

definition logger_log_source ::
  "log_env \<Rightarrow> logger_level_t \<Rightarrow> logger_source_t \<Rightarrow> string option \<Rightarrow> caller \<Rightarrow> domain \<Rightarrow> (int \<times> caller \<times> domain) option" where
  "logger_log_source env level source fmt = in_waiting_scope (\<lambda>(l, t) d.
     let rc = log_refused l fmt level in
     if rc \<noteq> 0 then Some (rc, (l, t), d)
     else map_option (\<lambda>(rc2, l2, t2, d2). (rc2, (Some l2, t2), d2)) (vlog_body env level source (the fmt) (the l) t d))"

text \<open>The text length of an acknowledged record stays 0; its text is terminated.\<close>

definition sync_status_body ::
  "logger_level_t \<Rightarrow> logger_source_t \<Rightarrow> string \<Rightarrow> logger \<Rightarrow> thread_state \<Rightarrow> domain \<Rightarrow> int \<times> logger \<times> thread_state \<times> domain" where
  "sync_status_body level src fmt l t d =
     (if level < l_level l then (0, l, t, d)
      else case build_message l t level src fmt d of
        (Inl rc, d1) \<Rightarrow> (rc, l, t, d1)
      | (Inr (s, m), d1) \<Rightarrow>
        if LOGGER_MESSAGE_MAX \<le> length s then (- EOVERFLOW, l, t, d1) else logger_emit_status l m True t d1)"

definition logger_log_sync_status ::
  "logger_level_t \<Rightarrow> logger_source_t \<Rightarrow> string option \<Rightarrow> caller \<Rightarrow> domain \<Rightarrow> int \<times> caller \<times> domain" where
  "logger_log_sync_status level src fmt = in_scope (\<lambda>(l, t) d.
     let rc = log_refused l fmt level in
     if rc \<noteq> 0 then (rc, (l, t), d)
     else case sync_status_body level src (the fmt) (the l) t d of (rc2, l2, t2, d2) \<Rightarrow> (rc2, (Some l2, t2), d2))"

section \<open>Flushing and reopening\<close>

text \<open>Work under the emit lock; a failing release is recorded and reported after the work's own code.\<close>

definition with_emit_lock :: "(logger \<Rightarrow> domain \<Rightarrow> int \<times> logger \<times> domain) \<Rightarrow> logger \<Rightarrow> domain \<Rightarrow> int \<times> logger \<times> domain" where
  "with_emit_lock body l d =
     (case pthread_call d of (locked, d1) \<Rightarrow>
        if locked \<noteq> 0 then (- locked, l, d1)
        else case body l d1 of (rc, l2, d2) \<Rightarrow>
          case pthread_call d2 of (unlocked, d3) \<Rightarrow>
            if unlocked \<noteq> 0 then (first_rc rc (- unlocked), logger_note_synchronization_error l2 (- unlocked), d3)
            else (rc, l2, d3))"

definition reopen_locked :: "logger \<Rightarrow> domain \<Rightarrow> int \<times> logger \<times> domain" where
  "reopen_locked l d =
     (case logger_file_reopen (file_backend l) d of (e, f, d1) \<Rightarrow>
        let l1 = l\<lparr>file_backend := f\<rparr> in
        if e \<noteq> 0 then (- e, logger_note_io_error l1 e, d1) else (0, l1, d1))"

text \<open>The instance after a call on the handle, for the bodies below.\<close>

definition on_instance :: "(logger \<Rightarrow> domain \<Rightarrow> int \<times> logger \<times> domain) \<Rightarrow> logger option \<Rightarrow> domain \<Rightarrow> int \<times> logger option \<times> domain" where
  "on_instance body l d = (case body (the l) d of (rc, x, d1) \<Rightarrow> (rc, Some x, d1))"

definition logger_reopen :: "logger option \<Rightarrow> domain \<Rightarrow> int \<times> logger option \<times> domain" where
  "logger_reopen = in_scope (\<lambda>l d.
     case l of
       None \<Rightarrow> (- EINVAL, l, d)
     | Some x \<Rightarrow>
       if l_outputs x AND LOGGER_OUT_FILE = 0 then (- EINVAL, l, d)
       else if l_state x \<noteq> LOGGER_STATE_RUNNING then (- ESHUTDOWN, l, d)
       else on_instance (with_emit_lock reopen_locked) l d)"

text \<open>
  Waiting until the position \<open>target\<close> is completed; the codes of the waits and what happens during them
  are the list \<open>events\<close>.
\<close>

fun progress_wait :: "size_t \<Rightarrow> wait_event list \<Rightarrow> logger \<Rightarrow> domain \<Rightarrow> (int \<times> logger \<times> domain) option" where
  "progress_wait target events l d =
     (if lifecycle_error l \<noteq> 0 then Some (- lifecycle_error l, l, d)
      else if completed_pos l - target \<le> SIZE_MAX div 2 then Some (0, l, d)
      else case events of
        [] \<Rightarrow> None
      | (wait_rc, others) # events' \<Rightarrow>
        (case others (l, d) of (l1, d1) \<Rightarrow> if wait_rc \<noteq> 0 then Some (- wait_rc, l1, d1) else progress_wait target events' l1 d1))"

declare progress_wait.simps [simp del]

definition first_error_code :: "logger \<Rightarrow> int" where
  "first_error_code l = (if first_error l \<noteq> 0 then - first_error l else 0)"

definition logger_wait_for_output :: "wait_event list \<Rightarrow> logger option \<Rightarrow> domain \<Rightarrow> (int \<times> logger option \<times> domain) option" where
  "logger_wait_for_output events lp d =
     (if logger_process_is_child d then Some (- ECHILD, lp, d)
      else case lp of
        None \<Rightarrow> Some (- EINVAL, lp, d)
      | Some l \<Rightarrow>
        if synchronization_error l \<noteq> 0 then Some (- synchronization_error l, lp, d)
        else if \<not> async_mode l then Some (first_error_code l, lp, d)
        else case pthread_call d of (locked, d1) \<Rightarrow>
          if locked \<noteq> 0 then Some (- locked, lp, d1)
          else case progress_wait (q_enqueue_pos (l_q l)) events l d1 of
            None \<Rightarrow> None
          | Some (result, l2, d2) \<Rightarrow>
            (case pthread_call d2 of (unlocked, d3) \<Rightarrow>
               let l3 = (if unlocked \<noteq> 0 then logger_note_synchronization_error l2 (- unlocked) else l2);
                   result2 = (if unlocked \<noteq> 0 then first_rc result (- unlocked) else result)
               in Some (if result2 \<noteq> 0 then result2 else first_error_code l3, Some l3, d3)))"

definition logger_sync_outputs_locked :: "logger \<Rightarrow> domain \<Rightarrow> int \<times> logger \<times> domain" where
  "logger_sync_outputs_locked l d =
     (case (if l_outputs l AND LOGGER_OUT_FILE \<noteq> 0
            then (case logger_file_sync (file_backend l) d of (rc, f, d1) \<Rightarrow>
                    let l1 = l\<lparr>file_backend := f\<rparr> in (if rc < 0 then logger_note_io_error l1 (- rc) else l1, d1))
            else (l, d)) of (l2, d2) \<Rightarrow> (first_error_code l2, l2, d2))"

definition logger_flush :: "wait_event list \<Rightarrow> logger option \<Rightarrow> domain \<Rightarrow> (int \<times> logger option \<times> domain) option" where
  "logger_flush events = in_waiting_scope (\<lambda>l d.
     case l of
       None \<Rightarrow> Some (- EINVAL, l, d)
     | Some x \<Rightarrow>
       if l_state x \<noteq> LOGGER_STATE_RUNNING then Some (- ESHUTDOWN, l, d)
       else case logger_wait_for_output events l d of
         None \<Rightarrow> None
       | Some (rc, l1, d1) \<Rightarrow>
         let sync_error = synchronization_error (the l1) in
         case (if sync_error \<noteq> 0 then (- sync_error, l1, d1)
               else on_instance (with_emit_lock logger_sync_outputs_locked) l1 d1) of (sync_rc, l2, d2) \<Rightarrow>
           Some (first_rc rc sync_rc, l2, d2))"

section \<open>Snapshots\<close>

definition dropped_total :: "logger \<Rightarrow> u64" where
  "dropped_total l = foldl (+) 0 (map (\<lambda>i. dropped_by_level l ! i) [0..<6])"

definition logger_dropped :: "domain \<Rightarrow> logger option \<Rightarrow> bool \<Rightarrow> int \<times> u64 option" where
  "logger_dropped d l out = query d l out dropped_total"

record logger_metrics_t =
  me_dropped :: "u64 list"
  me_queue_high_watermark :: u64
  me_enqueued :: u64
  me_sync_fallbacks :: u64
  me_consumer_batches :: u64
  me_consumer_records :: u64

definition logger_get_metrics :: "domain \<Rightarrow> logger option \<Rightarrow> bool \<Rightarrow> int \<times> logger_metrics_t option" where
  "logger_get_metrics d l out = query d l out (\<lambda>x.
     \<lparr>me_dropped = map (\<lambda>i. dropped_by_level x ! i) [0..<6], me_queue_high_watermark = queue_high_watermark x,
      me_enqueued = enqueued x, me_sync_fallbacks = sync_fallbacks x, me_consumer_batches = consumer_batches x,
      me_consumer_records = consumer_records x\<rparr>)"

record logger_io_metrics_t =
  io_async_completed :: u64
  io_sync_completed :: u64
  io_emitted_records :: u64
  io_failed_records :: u64
  io_first_error :: errno

definition logger_get_io_metrics :: "domain \<Rightarrow> logger option \<Rightarrow> bool \<Rightarrow> int \<times> logger_io_metrics_t option" where
  "logger_get_io_metrics d l out = query d l out (\<lambda>x.
     \<lparr>io_async_completed = async_completed x, io_sync_completed = sync_completed x, io_emitted_records = emitted_records x,
      io_failed_records = failed_records x, io_first_error = first_error x\<rparr>)"

record logger_diagnostics_t =
  di_state :: logger_state_t
  di_level :: logger_level_t
  di_outputs :: u32
  di_observation_flags :: u32
  di_async_mode :: bool
  di_worker_running :: bool
  di_consumer_waiting :: u32
  di_first_error :: errno
  di_dropped_records :: u64
  di_sync_fallbacks :: u64
  di_enqueued :: u64
  di_consumer_batches :: u64
  di_consumer_records :: u64
  di_async_completed :: u64
  di_sync_completed :: u64
  di_emitted_records :: u64
  di_failed_records :: u64
  di_queue_capacity :: u64
  di_queue_depth :: u64
  di_queue_high_watermark :: u64
  di_completion_backlog :: u64
  di_queue_storage_bytes :: u64
  di_spill_capacity :: u64
  di_spill_in_use :: u64
  di_spill_exhaustions :: u64
  di_worker_wait_count :: u64
  di_producer_wake_signals :: u64
  di_force_wake_signals :: u64

abbreviation LOGGER_DIAG_DROPS_OBSERVED :: u32 where "LOGGER_DIAG_DROPS_OBSERVED \<equiv> 1"
abbreviation LOGGER_DIAG_SYNC_FALLBACKS_OBSERVED :: u32 where "LOGGER_DIAG_SYNC_FALLBACKS_OBSERVED \<equiv> 2"
abbreviation LOGGER_DIAG_QUEUE_SATURATED :: u32 where "LOGGER_DIAG_QUEUE_SATURATED \<equiv> 4"
abbreviation LOGGER_DIAG_SPILL_EXHAUSTIONS_OBSERVED :: u32 where "LOGGER_DIAG_SPILL_EXHAUSTIONS_OBSERVED \<equiv> 8"
abbreviation LOGGER_DIAG_OUTPUT_FAILURE_OBSERVED :: u32 where "LOGGER_DIAG_OUTPUT_FAILURE_OBSERVED \<equiv> 16"
abbreviation LOGGER_DIAG_WORKER_STOPPED :: u32 where "LOGGER_DIAG_WORKER_STOPPED \<equiv> 32"

text \<open>The counters of the instance, before the queue's part is filled in.\<close>

definition diagnostics_base :: "logger \<Rightarrow> logger_diagnostics_t" where
  "diagnostics_base l =
     \<lparr>di_state = l_state l, di_level = l_level l, di_outputs = l_outputs l, di_observation_flags = 0, di_async_mode = async_mode l,
      di_worker_running = (async_mode l \<and> l_running l), di_consumer_waiting = 0, di_first_error = first_error l,
      di_dropped_records = dropped_total l, di_sync_fallbacks = sync_fallbacks l, di_enqueued = enqueued l,
      di_consumer_batches = consumer_batches l, di_consumer_records = consumer_records l,
      di_async_completed = async_completed l, di_sync_completed = sync_completed l, di_emitted_records = emitted_records l,
      di_failed_records = failed_records l, di_queue_capacity = 0, di_queue_depth = 0, di_queue_high_watermark = 0,
      di_completion_backlog = 0, di_queue_storage_bytes = 0, di_spill_capacity = 0, di_spill_in_use = 0,
      di_spill_exhaustions = 0, di_worker_wait_count = 0, di_producer_wake_signals = 0, di_force_wake_signals = 0\<rparr>"

definition diagnostics_queue :: "logger \<Rightarrow> logger_diagnostics_t \<Rightarrow> logger_diagnostics_t" where
  "diagnostics_queue l dx =
     (let q = l_q l in
      dx\<lparr>di_queue_capacity := q_cap q, di_queue_depth := logger_queue_depth q, di_queue_high_watermark := queue_high_watermark l,
        di_queue_storage_bytes := logger_queue_storage_bytes (Some q), di_spill_capacity := logger_queue_spill_capacity (Some q),
        di_spill_in_use := of_nat (logger_queue_spill_in_use (Some q)), di_spill_exhaustions := logger_queue_spill_exhaustions (Some q),
        di_consumer_waiting := q_consumer_waiting q, di_worker_wait_count := logger_queue_wait_count (Some q),
        di_producer_wake_signals := logger_queue_producer_wake_signals (Some q),
        di_force_wake_signals := logger_queue_force_wake_signals (Some q),
        di_completion_backlog := (if di_async_completed dx < di_enqueued dx then di_enqueued dx - di_async_completed dx else 0)\<rparr>)"

definition observation_flags :: "logger_diagnostics_t \<Rightarrow> u32" where
  "observation_flags dx =
     (let flag = (\<lambda>b mask. if b then mask else 0) in
      flag (di_dropped_records dx \<noteq> 0) LOGGER_DIAG_DROPS_OBSERVED OR
      flag (di_sync_fallbacks dx \<noteq> 0) LOGGER_DIAG_SYNC_FALLBACKS_OBSERVED OR
      flag (di_queue_capacity dx \<noteq> 0 \<and> di_queue_capacity dx \<le> di_queue_high_watermark dx) LOGGER_DIAG_QUEUE_SATURATED OR
      flag (di_spill_exhaustions dx \<noteq> 0) LOGGER_DIAG_SPILL_EXHAUSTIONS_OBSERVED OR
      flag (di_failed_records dx \<noteq> 0 \<or> di_first_error dx \<noteq> 0) LOGGER_DIAG_OUTPUT_FAILURE_OBSERVED OR
      flag (di_async_mode dx \<and> di_state dx = LOGGER_STATE_RUNNING \<and> \<not> di_worker_running dx) LOGGER_DIAG_WORKER_STOPPED)"

definition logger_get_diagnostics :: "domain \<Rightarrow> logger option \<Rightarrow> bool \<Rightarrow> int \<times> logger_diagnostics_t option" where
  "logger_get_diagnostics d l out = query d l out (\<lambda>x.
     let o1 = diagnostics_base x; o2 = (if async_mode x then diagnostics_queue x o1 else o1)
     in o2\<lparr>di_observation_flags := observation_flags o2\<rparr>)"

text \<open>The snapshots taken under the emit lock; a snapshot is delivered only with code 0.\<close>

definition file_metrics_of :: "logger \<Rightarrow> logger_file_metrics_t" where
  "file_metrics_of l = (f_metrics (file_backend l))\<lparr>fm_current_size := f_current_size (file_backend l), fm_detached := f_detached (file_backend l)\<rparr>"

definition logger_file_metrics_snapshot ::
  "logger option \<Rightarrow> bool \<Rightarrow> domain \<Rightarrow> int \<times> logger_file_metrics_t option \<times> logger option \<times> domain" where
  "logger_file_metrics_snapshot lp out d =
     (case lp of
        None \<Rightarrow> (- EINVAL, None, lp, d)
      | Some l \<Rightarrow>
        if \<not> out then (- EINVAL, None, lp, d)
        else if l_outputs l AND LOGGER_OUT_FILE = 0 then (- ENOTSUP, None, lp, d)
        else if synchronization_error l \<noteq> 0 then (- synchronization_error l, None, lp, d)
        else case with_emit_lock (\<lambda>x d. (0, x, d)) l d of (rc, l1, d1) \<Rightarrow>
          (rc, if rc = 0 then Some (file_metrics_of l) else None, Some l1, d1))"

definition logger_get_file_metrics ::
  "logger option \<Rightarrow> bool \<Rightarrow> domain \<Rightarrow> int \<times> logger_file_metrics_t option \<times> logger option \<times> domain" where
  "logger_get_file_metrics lp out d =
     (case in_scope (\<lambda>(s, l) d. if \<not> out then (- EINVAL, (s, l), d)
        else case logger_file_metrics_snapshot l True d of (rc, s1, l1, d1) \<Rightarrow> (rc, (s1, l1), d1)) (None, lp) d of
       (rc, (snapshot, l2), d2) \<Rightarrow> (rc, if rc = 0 then snapshot else None, l2, d2))"

definition logger_get_syslog_metrics ::
  "logger option \<Rightarrow> bool \<Rightarrow> domain \<Rightarrow> int \<times> logger_syslog_metrics_t option \<times> logger option \<times> domain" where
  "logger_get_syslog_metrics lp out d =
     (case in_scope (\<lambda>(s, lq) d.
        case lq of
          None \<Rightarrow> (- EINVAL, (s, lq), d)
        | Some l \<Rightarrow>
          if \<not> out then (- EINVAL, (s, lq), d)
          else if l_outputs l AND LOGGER_OUT_SYSLOG = 0 then (- ENOTSUP, (s, lq), d)
          else if synchronization_error l \<noteq> 0 then (- synchronization_error l, (s, lq), d)
          else case with_emit_lock (\<lambda>x d. (0, x, d)) l d of (rc, l1, d1) \<Rightarrow>
            (rc, (Some (s_metrics (syslog_backend l)), Some l1), d1)) (None, lp) d of
       (rc, (snapshot, l2), d2) \<Rightarrow> (rc, if rc = 0 then snapshot else None, l2, d2))"

end
