(* ===== verification/Logger_Worker_Props.thy ===== *)
theory Logger_Worker_Props
  imports Logger_Emit_Props Logger_Queue_Props
begin

text \<open>
  The worker's loop after a stop request: it ends, it empties the queue unless a lock is lost, and
  the counters of the instance account for each record it took. The theory closes with the
  properties of writing to \<^verbatim>\<open>stderr\<close>, of a synchronous record and of a batch.
\<close>

section \<open>One round of the worker\<close>

lemma drain_wf:
  assumes "queue_inv q" "list_all message_wf ms" "logger_queue_drain q ms = (q', out)"
  shows "list_all message_wf out"
  using assms
proof (induction ms arbitrary: q q' out)
  case (Cons m ms)
  have wf: "message_wf m" using Cons.prems by simp
  show ?case
  proof (cases "queue_contents q")
    case Nil
    then show ?thesis using try_pop_correct(1) [OF Cons.prems(1) wf Nil] Cons.prems by simp
  next
    case c: (Cons v vs)
    obtain q1 m1 where p: "logger_queue_try_pop q m = (1, q1, m1)" "queue_inv q1" "message_wf m1"
      using try_pop_correct(2) [OF Cons.prems(1) wf c] by blast
    obtain q2 out2 where d: "logger_queue_drain q1 ms = (q2, out2)" by fastforce
    then show ?thesis using Cons.IH [OF p(2) _ d] Cons.prems p by auto
  qed
qed simp

text \<open>A worker that was told to stop, with its buffers in place.\<close>

definition worker_stopping :: "logger \<Rightarrow> bool" where
  "worker_stopping l \<longleftrightarrow> \<not> l_running l \<and> queue_inv (l_q l) \<and>
     (\<exists>ws. worker_workspace l = Some ws \<and> w_batch ws \<noteq> [] \<and> list_all message_wf (w_batch ws))"

text \<open>The first \<open>n\<close> queued records were taken and each was counted, as emitted or as failed.\<close>

definition records_taken :: "nat \<Rightarrow> logger \<Rightarrow> logger \<Rightarrow> bool" where
  "records_taken n l l' \<longleftrightarrow> queue_inv (l_q l') \<and> n \<le> length (queue_contents (l_q l)) \<and>
     queue_contents (l_q l') = drop n (queue_contents (l_q l)) \<and>
     consumer_records l' = consumer_records l + of_nat n \<and> async_completed l' = async_completed l + of_nat n \<and>
     (\<exists>bad\<le>n. failed_records l' = failed_records l + of_nat bad \<and> emitted_records l' = emitted_records l + of_nat (n - bad))"

lemma records_taken_trans:
  assumes "records_taken n l l1" "records_taken k l1 l2"
  shows "records_taken (n + k) l l2"
proof -
  obtain x where x: "x \<le> n" "failed_records l1 = failed_records l + of_nat x" "emitted_records l1 = emitted_records l + of_nat (n - x)"
    using assms(1) by (auto simp: records_taken_def)
  obtain y where y: "y \<le> k" "failed_records l2 = failed_records l1 + of_nat y" "emitted_records l2 = emitted_records l1 + of_nat (k - y)"
    using assms(2) by (auto simp: records_taken_def)
  have "n + k - (x + y) = (n - x) + (k - y)" using x(1) y(1) by simp
  then have "x + y \<le> n + k \<and> failed_records l2 = failed_records l + of_nat (x + y) \<and>
      emitted_records l2 = emitted_records l + of_nat (n + k - (x + y))"
    using x y by (simp only: of_nat_add) (simp add: add.assoc)
  then show ?thesis using assms by (auto simp: records_taken_def add.commute)
qed

lemma worker_progress_keeps:
  assumes "worker_progress l d = (leave, l', d')"
  shows "kept_by_output l l' \<and> (leave \<longrightarrow> synchronization_error l' \<noteq> 0)"
  using assms
  by (auto simp: worker_progress_def Let_def kept_by_output_def record_counters_def worker_view_def
      logger_note_synchronization_error_def logger_note_lifecycle_error_def sticky_def split: prod.splits if_splits)

lemma worker_batch_keeps:
  assumes "worker_batch l ms t d = (leave, l', t', d')"
  shows "l_q l' = l_q l \<and> worker_workspace l' = worker_workspace l \<and> (\<not> l_running l \<longrightarrow> \<not> l_running l') \<and>
     consumer_records l' = consumer_records l + of_nat (length ms) \<and> async_completed l' = async_completed l + of_nat (length ms) \<and>
     (\<exists>bad\<le>length ms. failed_records l' = failed_records l + of_nat bad \<and> emitted_records l' = emitted_records l + of_nat (length ms - bad)) \<and>
     (leave \<longrightarrow> synchronization_error l' \<noteq> 0)"
proof -
  let ?l1 = "l\<lparr>consumer_batches := consumer_batches l + 1, consumer_records := consumer_records l + of_nat (length ms)\<rparr>"
  obtain l2 t2 d2 where c: "emit_batch ?l1 ms t d = (l2, t2, d2)" using prod_cases3 by blast
  have k: "batch_counted (length ms) ?l1 l2" by (rule emit_batch_counted [OF c])
  let ?l3 = "l2\<lparr>async_completed := async_completed l2 + of_nat (length ms)\<rparr>"
  have "kept_by_output ?l3 l' \<and> (leave \<longrightarrow> synchronization_error l' \<noteq> 0)"
  proof (cases "synchronization_error ?l3 \<noteq> 0")
    case True
    then show ?thesis using assms c by (auto simp: worker_batch_def Let_def)
  next
    case False
    then have "\<exists>d4. worker_progress ?l3 d2 = (leave, l', d4)" using assms c by (auto simp: worker_batch_def Let_def split: prod.splits)
    then show ?thesis using worker_progress_keeps by blast
  qed
  then show ?thesis using k by (auto simp: batch_counted_def kept_by_output_def record_counters_def worker_view_def)
qed

lemma wait_disarm_ring: "ring_eq q (logger_queue_wait_disarm q)"
  by (simp add: ring_eq_def logger_queue_wait_disarm_def)

lemma worker_wait_stops:
  assumes "\<not> l_running l" "logger_queue_empty (l_q l)" "queue_inv (l_q l)"
  shows "\<exists>l' d'. worker_wait events l d = Some (True, events, l', d') \<and> records_taken 0 l l'"
proof -
  let ?l2 = "l\<lparr>l_q := logger_queue_wait_disarm (l_q l)\<rparr>"
  obtain a d1 where c1: "pthread_call d = (a, d1)" by fastforce
  obtain b d2 where c2: "pthread_call d1 = (b, d2)" by fastforce
  have q: "queue_inv (logger_queue_wait_disarm (l_q l))" "queue_contents (logger_queue_wait_disarm (l_q l)) = queue_contents (l_q l)"
    "logger_queue_empty (logger_queue_wait_disarm (l_q l))"
    using ring_eq_queue_inv [OF wait_disarm_ring] ring_eq_contents [OF wait_disarm_ring] assms(2,3)
    by (simp_all, simp add: logger_queue_wait_disarm_def logger_queue_empty_def slot_seq_def slot_index_def)
  then have k: "records_taken 0 l (logger_note_lifecycle_error l a)" "records_taken 0 l ?l2"
    "records_taken 0 l (logger_note_synchronization_error ?l2 (- b))"
    using assms(3) by (simp_all add: records_taken_def)
  show ?thesis
  proof (cases "a \<noteq> 0 \<or> b \<noteq> 0")
    case True
    then show ?thesis using assms(1) c1 c2 k by (auto simp: worker_wait_def wait_loop.simps Let_def)
  next
    case False
    then show ?thesis using assms(1) c1 c2 k q by (auto simp: worker_wait_def wait_loop.simps Let_def)
  qed
qed

section \<open>The loop\<close>

lemma worker_loop_stops:
  assumes "worker_stopping l" "length (queue_contents (l_q l)) + 1 \<le> fuel"
  shows "\<exists>l' t' d' n. worker_loop fuel events l t d = Some (l', t', d') \<and> records_taken n l l' \<and>
     (synchronization_error l' = 0 \<longrightarrow> queue_contents (l_q l') = [])"
  using assms
proof (induction fuel arbitrary: l t d)
  case (Suc fuel)
  obtain ws where ws: "worker_workspace l = Some ws" "w_batch ws \<noteq> []" "list_all message_wf (w_batch ws)" "\<not> l_running l" "queue_inv (l_q l)"
    using Suc.prems(1) by (auto simp: worker_stopping_def)
  obtain q ms where c: "logger_queue_drain (l_q l) (w_batch ws) = (q, ms)" by fastforce
  note D = drain_correct [OF ws(5,3) c] and wf = drain_wf [OF ws(5,3) c]
  define l1 where "l1 = l\<lparr>l_q := q, worker_workspace := Some (ws\<lparr>w_batch := ms @ drop (length ms) (w_batch ws)\<rparr>)\<rparr>"
  have len: "length ms = min (length (w_batch ws)) (length (queue_contents (l_q l)))" using D by (metis length_map length_take min.commute)
  have buffer: "list_all message_wf (ms @ drop (length ms) (w_batch ws))" "ms @ drop (length ms) (w_batch ws) \<noteq> []"
    using wf ws(2,3) len by (auto simp: list_all_iff dest: in_set_dropD)
  show ?case
  proof (cases "ms = []")
    case True
    then have "queue_contents (l_q l) = []" using len ws(2) by (simp add: min_def split: if_splits)
    then have e: "queue_contents q = []" "queue_inv q" "logger_queue_empty q" using D empty_iff_contents [of q] by auto
    obtain l2 d2 where w: "worker_wait events l1 d = Some (True, events, l2, d2)" "records_taken 0 l1 l2"
      using worker_wait_stops [of l1 events d] ws(4) e by (auto simp: l1_def)
    have "worker_loop (Suc fuel) events l t d = Some (l2, t, d2)"
      using w(1) True ws(1) c by (simp add: l1_def)
    moreover have "records_taken 0 l l2 \<and> queue_contents (l_q l2) = []"
      using w(2) e \<open>queue_contents (l_q l) = []\<close> by (simp add: records_taken_def l1_def)
    ultimately show ?thesis by blast
  next
    case False
    obtain leave l2 t2 d2 where b: "worker_batch l1 ms t d = (leave, l2, t2, d2)" using prod_cases4 by blast
    note K = worker_batch_keeps [OF b]
    have dropped: "queue_contents q = drop (length ms) (queue_contents (l_q l))" using D len by (simp add: min_def split: if_splits)
    have taken: "records_taken (length ms) l l2" using K D dropped len by (simp add: records_taken_def l1_def)
    have step: "worker_loop (Suc fuel) events l t d = (if leave then Some (l2, t2, d2) else worker_loop fuel events l2 t2 d2)"
      using b False ws(1) c by (simp add: l1_def)
    show ?thesis
    proof (cases leave)
      case True
      then show ?thesis using step taken K by auto
    next
      case go: False
      have "0 < length ms" using False by simp
      have left: "length (queue_contents (l_q l2)) = length (queue_contents (l_q l)) - length ms" "length ms \<le> length (queue_contents (l_q l))"
        using taken by (simp_all add: records_taken_def)
      have "worker_stopping l2" using K D buffer ws(4) by (simp add: worker_stopping_def l1_def)
      moreover have "length (queue_contents (l_q l2)) + 1 \<le> fuel"
        using Suc.prems(2) \<open>0 < length ms\<close> left by linarith
      ultimately obtain l3 t3 d3 n where "worker_loop fuel events l2 t2 d2 = Some (l3, t3, d3)" "records_taken n l2 l3"
        "synchronization_error l3 = 0 \<longrightarrow> queue_contents (l_q l3) = []"
        using Suc.IH by blast
      then show ?thesis using step go records_taken_trans [OF taken] by auto
    qed
  qed
qed simp

lemma worker_leave_keeps:
  assumes "worker_leave l d = (l', d')"
  shows "kept_by_output l l' \<and> (synchronization_error l' = 0 \<longrightarrow> synchronization_error l = 0)"
  using assms
  by (auto simp: worker_leave_def logger_note_synchronization_error_def logger_note_lifecycle_error_def sticky_def
      kept_by_output_def record_counters_def worker_view_def split: if_splits prod.splits)

lemma worker_main_drains:
  assumes "worker_stopping l" "length (queue_contents (l_q l)) + 1 \<le> fuel"
  shows "\<exists>l' t' d' n. logger_worker_main fuel events l t d = Some (l', t', d') \<and> records_taken n l l' \<and>
     (synchronization_error l' = 0 \<longrightarrow> queue_contents (l_q l') = [])"
proof -
  obtain l1 t1 d1 n where w: "worker_loop fuel events l t (logger_scope_worker_enter d) = Some (l1, t1, d1)" "records_taken n l l1"
    "synchronization_error l1 = 0 \<longrightarrow> queue_contents (l_q l1) = []"
    using worker_loop_stops [OF assms] by blast
  obtain l2 d2 where leave: "worker_leave l1 d1 = (l2, d2)" by fastforce
  have "records_taken n l l2 \<and> (synchronization_error l2 = 0 \<longrightarrow> queue_contents (l_q l2) = [])"
    using w(2,3) worker_leave_keeps [OF leave] by (auto simp: records_taken_def kept_by_output_def record_counters_def worker_view_def)
  then show ?thesis using w(1) leave by (auto simp: logger_worker_main_def)
qed

section \<open>Properties\<close>

definition sample_thread :: thread_state where
  "sample_thread = \<lparr>g_request_id = replicate 64 NUL, g_session_id = replicate 64 NUL, g_trace_id = replicate 64 NUL,
     destroy_receipt = False, th_cache = sample_cache, th_spill = sample_tls, th_tid = 7, th_format = sample_format_env\<rparr>"

definition sample_workspace :: logger_worker_workspace where
  "sample_workspace = \<lparr>w_address = 0, w_parts = [], w_capacity = 2, w_batch = replicate 2 (blank_message 0)\<rparr>"

definition sample_logger :: "u32 \<Rightarrow> logger_queue \<Rightarrow> logger" where
  "sample_logger out q = \<lparr>l_level = LOGGER_INFO, l_state = LOGGER_STATE_RUNNING, default_borrowed = False,
     l_detail = LOGGER_DETAIL_NORMAL, l_outputs = out, l_file_mode = 0x1A0, async_mode = True,
     include_pid = False, include_tid = False, include_source = False, flush_level = LOGGER_ERROR, capture_mask = 1,
     l_pid = 0, l_ident = ''app'' @ replicate 61 NUL, file_backend = sample_log, syslog_backend = sample_syslog, completed_pos = 0,
     async_completed = 0, sync_completed = 0, emitted_records = 0, failed_records = 0, first_error = 0, lifecycle_error = 0,
     synchronization_error = 0, l_q = q, worker_workspace = Some sample_workspace, l_running = False,
     l_overflow = replicate 6 0, dropped_by_level = replicate 6 0, enqueued = 0, sync_fallbacks = 0,
     queue_high_watermark = 0, consumer_batches = 0, consumer_records = 0\<rparr>"

lemma sample_outputs_ok: "outputs_ok (sample_logger out q) (sample_domain calls)"
  using sample_log_ok [of calls]
  by (simp add: outputs_ok_def sample_logger_def syslog_ok_def sample_syslog_def zero_syslog_def zero_syslog_metrics_def logger_fd_valid_def)

text \<open>C25. Once the stop flag is down, \<^verbatim>\<open>logger_worker_main\<close> ends, within one round per queued record and one
  more, whatever calls fail and whatever the waits would deliver. The records it took are the oldest
  ones; each is counted once as consumed, once as completed and once as emitted or failed. Unless a
  lock was lost, it took all of them: the queue is empty.\<close>

theorem worker_shutdown_drains:
  assumes "worker_stopping l" "length (queue_contents (l_q l)) + 1 \<le> fuel"
  shows "\<exists>l' t' d' n. logger_worker_main fuel events l t d = Some (l', t', d') \<and> records_taken n l l' \<and>
     (synchronization_error l' = 0 \<longrightarrow> queue_contents (l_q l') = [])"
  by (rule worker_main_drains [OF assms])

theorem worker_shutdown_drains_witness:
  "\<exists>q l' t' d' n. queue_contents q = [queued_view (sample_message ''hello'')] \<and>
     logger_worker_main 2 [] (sample_logger LOGGER_OUT_STDERR q) sample_thread (sample_domain []) = Some (l', t', d') \<and>
     (synchronization_error l' = 0 \<longrightarrow> queue_contents (l_q l') = [])"
proof -
  obtain rc q tls where q: "logger_queue_push quiet_env sample_tls sample_queue (sample_message ''hello'') = Some (rc, q, tls)"
    "queue_inv q" "queue_contents q = [queued_view (sample_message ''hello'')]"
    using push_correct [of quiet_env sample_queue "sample_message ''hello''" sample_tls] sample_not_refused by auto
  have "worker_stopping (sample_logger LOGGER_OUT_STDERR q)"
    using q(2) by (simp add: worker_stopping_def sample_logger_def sample_workspace_def message_wf_def blank_message_def numeral_2_eq_2)
  then show ?thesis
    using worker_shutdown_drains [of "sample_logger LOGGER_OUT_STDERR q" 2 "[]" sample_thread "sample_domain []"] q(3)
    by (fastforce simp: sample_logger_def)
qed

text \<open>C26. \<^verbatim>\<open>logger_stderr_writev_all\<close> under any short writes and failures: the bytes that arrive are a
  prefix of the entries in order, all of them when it returns 0; nothing else is written. When no
  signal call fails, the thread's mask, its pending signals and the signals it received are as
  before: a broken pipe is reported by the code alone and never kills the process.\<close>

theorem stderr_write_correct:
  assumes "logger_stderr_writev_all v d = (rc, d')"
  shows "(\<exists>m\<le>length (concat v). k_stderr d' = k_stderr d @ take m (concat v) \<and> (rc = 0 \<longrightarrow> m = length (concat v))) \<and>
     files_of d' = files_of d \<and> k_sent d' = k_sent d \<and> k_table d' = k_table d \<and>
     (signals_ok d \<longrightarrow> signals_of d' = signals_of d)"
  using stderr_writev_facts [OF assms] stderr_signals [OF assms] by blast

theorem stderr_write_correct_witness:
  "\<exists>d'. logger_stderr_writev_all [''one'', ''two''] (sample_domain [Short 2, Fail EPIPE]) = (- EPIPE, d') \<and>
     k_stderr d' = ''on'' \<and> signals_of d' = (False, False, 0)"
proof -
  obtain rc d' where c: "logger_stderr_writev_all [''one'', ''two''] (sample_domain [Short 2, Fail EPIPE]) = (rc, d')" by fastforce
  have "fst (logger_stderr_writev_all [''one'', ''two''] (sample_domain [Short 2, Fail EPIPE])) = - EPIPE"
    "k_stderr (snd (logger_stderr_writev_all [''one'', ''two''] (sample_domain [Short 2, Fail EPIPE]))) = ''on''"
    by code_simp+
  moreover have "signals_ok (sample_domain [Short 2, Fail EPIPE])" "signals_of (sample_domain [Short 2, Fail EPIPE]) = (False, False, 0)"
    by (simp_all add: signals_ok_def signals_of_def sample_domain_def)
  ultimately show ?thesis using c stderr_write_correct [OF c] by simp
qed

text \<open>C27. \<^verbatim>\<open>logger_emit_status\<close>: either the strict formatter refuses the record and nothing at all happens, or the
  record is counted once as completed and once as emitted or failed. Code 0 means that every
  selected output has the formatted line: \<^verbatim>\<open>stderr\<close> and the active file at their end, and the local log one
  datagram; an output that is not selected is untouched.\<close>

theorem emit_status_correct:
  assumes "logger_emit_status l m force_sync t d = (rc, l', t', d')" "outputs_ok l d"
  shows "force_sync \<and> rc \<noteq> 0 \<and> l' = l \<and> d' = d \<or>
    sync_completed l' = sync_completed l + 1 \<and> async_completed l' = async_completed l \<and>
    (emitted_records l' = emitted_records l + 1 \<and> failed_records l' = failed_records l \<or>
     emitted_records l' = emitted_records l \<and> failed_records l' = failed_records l + 1) \<and>
    (rc = 0 \<longrightarrow> emitted_records l' = emitted_records l + 1 \<and>
       delivered (l_outputs l) l d (line_text l m force_sync t) [line_datagram l m force_sync t d] l' d')"
  by (rule emit_status_delivers [OF assms])

theorem emit_status_correct_witness:
  "\<exists>rc l' t' d'. logger_emit_status (sample_logger 3 sample_queue) sample_record False sample_thread (sample_domain [Fail EINTR]) = (rc, l', t', d') \<and>
     sync_completed l' = 1 \<and> async_completed l' = 0 \<and> (rc = 0 \<longrightarrow> emitted_records l' = 1 \<and> k_sent d' = [])"
proof -
  obtain rc l' t' d' where c: "logger_emit_status (sample_logger 3 sample_queue) sample_record False sample_thread (sample_domain [Fail EINTR]) =
      (rc, l', t', d')" using prod_cases4 by blast
  have "sync_completed (sample_logger 3 sample_queue) = 0" "async_completed (sample_logger 3 sample_queue) = 0"
    "emitted_records (sample_logger 3 sample_queue) = 0" "l_outputs (sample_logger 3 sample_queue) = 3" "k_sent (sample_domain [Fail EINTR]) = []"
    by (simp_all add: sample_logger_def sample_domain_def)
  then show ?thesis
    using c emit_status_correct [OF c sample_outputs_ok] by (simp add: delivered_def)
qed

end
