(* ===== verification/Logger_Core_Inv.thy ===== *)
theory Logger_Core_Inv
  imports Logger_Core Logger_Worker_Props
begin

text \<open>
  What no operation on a live instance changes, and the two invariants of its counters and errors. The
  operations of the caller and the rounds of the worker are the rules of a step relation.
\<close>

section \<open>How an instance evolves\<close>

text \<open>The fields the constructor freezes.\<close>

definition frozen :: "logger \<Rightarrow> logger_detail_t \<times> u32 \<times> u32 \<times> bool \<times> bool \<times> bool \<times> bool \<times> logger_level_t \<times> u32 \<times> int \<times> char list \<times> int list" where
  "frozen l = (l_detail l, l_outputs l, l_file_mode l, async_mode l, include_pid l, include_tid l, include_source l,
     flush_level l, capture_mask l, l_pid l, l_ident l, l_overflow l)"

definition kept_error :: "errno \<Rightarrow> errno \<Rightarrow> bool" where
  "kept_error e e' \<longleftrightarrow> (e \<noteq> 0 \<longrightarrow> e' = e)"

definition evolves :: "logger \<Rightarrow> logger \<Rightarrow> bool" where
  "evolves l l' \<longleftrightarrow> frozen l' = frozen l \<and> length (dropped_by_level l') = length (dropped_by_level l) \<and>
     kept_error (first_error l) (first_error l') \<and> kept_error (lifecycle_error l) (lifecycle_error l') \<and>
     kept_error (synchronization_error l) (synchronization_error l') \<and>
     (l_state l \<noteq> LOGGER_STATE_RUNNING \<longrightarrow> l_state l' \<noteq> LOGGER_STATE_RUNNING) \<and> (\<not> l_running l \<longrightarrow> \<not> l_running l') \<and>
     (as_unsigned (l_level l) \<le> LOGGER_OFF \<longrightarrow> as_unsigned (l_level l') \<le> LOGGER_OFF)"

text \<open>Completed records that are neither emitted nor failed.\<close>

definition account_gap :: "logger \<Rightarrow> u64" where
  "account_gap l = async_completed l + sync_completed l - (emitted_records l + failed_records l)"

definition steady :: "logger \<Rightarrow> logger \<Rightarrow> bool" where
  "steady l l' \<longleftrightarrow> evolves l l' \<and> account_gap l' = account_gap l"

lemma evolves_refl [simp]: "evolves l l"
  by (simp add: evolves_def kept_error_def)

lemma evolves_trans: "evolves a b \<Longrightarrow> evolves b c \<Longrightarrow> evolves a c"
  by (auto simp: evolves_def kept_error_def)

lemma steady_refl [simp]: "steady l l"
  by (simp add: steady_def)

lemma steady_trans: "steady a b \<Longrightarrow> steady b c \<Longrightarrow> steady a c"
  using evolves_trans by (auto simp: steady_def)

text \<open>Fields no one relies on to stay.\<close>

lemma steady_updates [simp]:
  "steady l (m\<lparr>file_backend := a\<rparr>) = steady l m" "steady l (m\<lparr>syslog_backend := b\<rparr>) = steady l m"
  "steady l (m\<lparr>l_q := c\<rparr>) = steady l m" "steady l (m\<lparr>worker_workspace := e\<rparr>) = steady l m"
  "steady l (m\<lparr>completed_pos := g\<rparr>) = steady l m" "steady l (m\<lparr>enqueued := h\<rparr>) = steady l m"
  "steady l (m\<lparr>sync_fallbacks := i\<rparr>) = steady l m" "steady l (m\<lparr>queue_high_watermark := j\<rparr>) = steady l m"
  "steady l (m\<lparr>consumer_batches := k\<rparr>) = steady l m" "steady l (m\<lparr>consumer_records := n\<rparr>) = steady l m"
  "length xs = length (dropped_by_level m) \<Longrightarrow> steady l (m\<lparr>dropped_by_level := xs\<rparr>) = steady l m"
  "steady l (m\<lparr>default_borrowed := bo\<rparr>) = steady l m"
  by (simp_all add: steady_def evolves_def frozen_def account_gap_def)

lemma steady_level: "steady l m \<Longrightarrow> as_unsigned lv \<le> LOGGER_OFF \<Longrightarrow> steady l (m\<lparr>l_level := lv\<rparr>)"
  by (simp add: steady_def evolves_def frozen_def account_gap_def)

lemma steady_io [simp]: "steady l m \<Longrightarrow> steady l (logger_note_io_error m e)"
  by (auto simp: steady_def evolves_def frozen_def account_gap_def kept_error_def logger_note_io_error_def sticky_def)

lemma steady_life [simp]: "steady l m \<Longrightarrow> steady l (logger_note_lifecycle_error m e)"
  by (auto simp: steady_def evolves_def frozen_def account_gap_def kept_error_def logger_note_lifecycle_error_def sticky_def)

lemma steady_sync [simp]: "steady l m \<Longrightarrow> steady l (logger_note_synchronization_error m e)"
proof -
  assume "steady l m"
  then have "steady l (m\<lparr>synchronization_error := sticky (synchronization_error m) \<bar>e\<bar>\<rparr>)"
    by (auto simp: steady_def evolves_def frozen_def account_gap_def kept_error_def sticky_def)
  then show ?thesis using \<open>steady l m\<close> by (simp add: logger_note_synchronization_error_def)
qed

text \<open>One record counted as completed and as emitted or failed leaves the gap.\<close>

lemma gap_counts [simp]:
  "account_gap (m\<lparr>failed_records := failed_records m + 1, sync_completed := sync_completed m + 1\<rparr>) = account_gap m"
  "account_gap (m\<lparr>emitted_records := emitted_records m + 1, sync_completed := sync_completed m + 1\<rparr>) = account_gap m"
  by (simp_all add: account_gap_def algebra_simps)

lemma evolves_counts [simp]:
  "evolves l (m\<lparr>failed_records := f\<rparr>) = evolves l m" "evolves l (m\<lparr>emitted_records := e\<rparr>) = evolves l m"
  "evolves l (m\<lparr>sync_completed := s\<rparr>) = evolves l m" "evolves l (m\<lparr>async_completed := a\<rparr>) = evolves l m"
  by (simp_all add: evolves_def frozen_def)

lemma steady_count [simp]:
  "steady l m \<Longrightarrow> steady l (count_failed m)" "steady l m \<Longrightarrow> steady l (settle_record rc m)"
  using steady_io [of l m "- rc"] gap_counts(1) [of "logger_note_io_error m (- rc)"] by (auto simp: count_failed_def settle_record_def Let_def steady_def)

section \<open>The outputs\<close>

lemma emit_outputs_steady:
  assumes "emit_outputs l m fs line n d = (rc, l', d')"
  shows "steady l l'"
  using assms by (auto simp: emit_outputs_def split: prod.splits if_splits)

lemma emit_status_steady:
  assumes "logger_emit_status l m fs t d = (rc, l', t', d')"
  shows "steady l l'"
  using assms
proof (cases rule: emit_status_stages)
  case refused
  then show ?thesis by simp
next
  case lost
  then show ?thesis by simp
next
  case (written d1 rc2 l2 d2 e)
  then show ?thesis using emit_outputs_steady [OF written(3)] by auto
qed

section \<open>The worker\<close>

lemma syslog_batch_steady: "syslog_batch ms lines bs l d = (bs', l', d') \<Longrightarrow> steady l l'"
proof (induction ms arbitrary: lines bs l d bs' l' d')
  case (Cons m ms)
  show ?case
  proof (cases "lines = [] \<or> bs = []")
    case True
    then show ?thesis using Cons.prems by (cases lines; cases bs) auto
  next
    case False
    then obtain line n lines1 b bs1 where eq: "lines = (line, n) # lines1" "bs = b # bs1" by (cases lines; cases bs) auto
    obtain r s d1 where c: "logger_syslog_write (syslog_backend l) (m_level m) (Some line) (of_nat n) d = (r, s, d1)" using prod_cases3 by blast
    obtain b1 l2 where c2: "(case r of Inl e \<Rightarrow> (True, logger_note_io_error (l\<lparr>syslog_backend := s\<rparr>) (errno_or e EIO))
        | Inr _ \<Rightarrow> (b, l\<lparr>syslog_backend := s\<rparr>)) = (b1, l2)" by fastforce
    obtain bs2 l3 d3 where c3: "syslog_batch ms lines1 bs1 l2 d1 = (bs2, l3, d3)" using prod_cases3 by blast
    have "steady l l2" using c2 by (auto split: sum.splits)
    then show ?thesis using Cons.IH [OF c3] steady_trans Cons.prems c c2 c3 eq by (auto simp: Let_def)
  qed
qed simp

lemma batch_outputs_steady:
  assumes "batch_outputs ms lines failed l d = (failed', l', d')"
  shows "steady l l'"
proof -
  let ?vec = "map (\<lambda>(line, n). take n line) lines"
  obtain b1 l1 d1 where c1: "batch_stderr ?vec failed l d = (b1, l1, d1)" using prod_cases3 by blast
  obtain b2 l2 d2 where c2: "batch_file ms ?vec b1 l1 d1 = (b2, l2, d2)" using prod_cases3 by blast
  have "steady l l1" using c1 by (auto simp: batch_stderr_def split: if_splits prod.splits)
  moreover have "steady l1 l2" using c2 by (auto simp: batch_file_def Let_def split: if_splits prod.splits)
  moreover have "steady l2 l'"
    using assms c1 c2 syslog_batch_steady [of ms lines b2 l2 d2] by (auto simp: batch_outputs_def Let_def split: if_splits)
  ultimately show ?thesis using steady_trans by blast
qed

lemma account_evolves [simp]: "evolves l (account_batch bs m) = evolves l m"
  by (simp add: account_batch_def Let_def)

lemma emit_batch_evolves:
  assumes "emit_batch l ms t d = (l', t', d')"
  shows "evolves l l'"
proof -
  obtain lines e t1 where c1: "format_batch l 0 ms t = (lines, e, t1)" using prod_cases3 by blast
  obtain locked d1 where c2: "pthread_call d = (locked, d1)" by fastforce
  obtain failed l1 d2 where c3: "batch_outputs ms lines (replicate (length ms) False) l d1 = (failed, l1, d2)" using prod_cases3 by blast
  obtain unlocked d3 where c4: "pthread_call d2 = (unlocked, d3)" by fastforce
  note run = assms [unfolded emit_batch_def Let_def c1 prod.case c2 c3 c4]
  have s: "steady l (logger_note_io_error l e)" "steady l (logger_note_lifecycle_error (logger_note_io_error l locked) locked)"
    "steady l l1" "steady l (logger_note_synchronization_error (logger_note_io_error l1 unlocked) (- unlocked))"
    using batch_outputs_steady [OF c3] by simp_all
  then show ?thesis using run by (auto simp: steady_def split: if_splits)
qed

lemma worker_batch_steady:
  assumes "worker_batch l ms t d = (leave, l', t', d')"
  shows "steady l l'"
proof -
  let ?n = "of_nat (length ms) :: u64"
  let ?l1 = "l\<lparr>consumer_batches := consumer_batches l + 1, consumer_records := consumer_records l + ?n\<rparr>"
  obtain l2 t2 d2 where c: "emit_batch ?l1 ms t d = (l2, t2, d2)" using prod_cases3 by blast
  let ?l3 = "l2\<lparr>async_completed := async_completed l2 + ?n\<rparr>"
  obtain bad where bad: "bad \<le> length ms" "failed_records l2 = failed_records ?l1 + of_nat bad"
    "emitted_records l2 = emitted_records ?l1 + of_nat (length ms - bad)" "sync_completed l2 = sync_completed ?l1"
    "async_completed l2 = async_completed ?l1"
    using emit_batch_counted [OF c] unfolding batch_counted_def by blast
  have "account_gap ?l3 = account_gap l" using bad by (simp add: account_gap_def of_nat_diff algebra_simps)
  moreover have "evolves l ?l1" by (simp add: evolves_def frozen_def kept_error_def)
  then have "evolves l l2" using evolves_trans emit_batch_evolves [OF c] by blast
  ultimately have s: "steady l ?l3" by (simp add: steady_def)
  have "steady ?l3 l'"
  proof (cases "synchronization_error ?l3 \<noteq> 0")
    case True
    then show ?thesis using assms c by (auto simp: worker_batch_def Let_def)
  next
    case False
    then have "\<exists>d4. worker_progress ?l3 d2 = (leave, l', d4)" using assms c by (auto simp: worker_batch_def Let_def split: prod.splits)
    then show ?thesis by (auto simp: worker_progress_def Let_def split: if_splits prod.splits)
  qed
  then show ?thesis using s steady_trans by blast
qed

section \<open>The calls of the user\<close>

lemma watermark_steady [simp]: "steady l (update_high_watermark m) = steady l m"
  by (simp add: update_high_watermark_def Let_def)

lemma publish_failed_steady [simp]: "steady l m \<Longrightarrow> steady l (publish_failed env rc m)"
  by (simp add: publish_failed_def Let_def split: prod.splits)

lemma submit_steady:
  assumes "submit_record env l m t d = Some (rc, l', t', d')"
  shows "steady l l'"
  using assms emit_status_steady [of l m False t d rc l' t' d']
    emit_status_steady [of "l\<lparr>l_q := q, sync_fallbacks := sync_fallbacks l + 1\<rparr>" m False "t\<lparr>th_spill := tls\<rparr>" d rc l' t' d' for q tls]
    steady_trans [of l "l\<lparr>l_q := q, sync_fallbacks := sync_fallbacks l + 1\<rparr>" l' for q]
  by (auto simp: submit_record_def Let_def split: if_splits option.splits prod.splits)

lemma vlog_body_steady:
  assumes "vlog_body env lv src fmt l t d = Some (rc, l', t', d')"
  shows "steady l l'"
  using assms submit_steady by (auto simp: vlog_body_def Let_def split: if_splits sum.splits prod.splits)

lemma sync_status_steady:
  assumes "sync_status_body lv src fmt l t d = (rc, l', t', d')"
  shows "steady l l'"
  using assms emit_status_steady by (auto simp: sync_status_body_def split: if_splits sum.splits prod.splits)

lemma emit_lock_steady:
  assumes "with_emit_lock body l d = (rc, l', d')" "\<And>d1 rc2 l2 d2. body l d1 = (rc2, l2, d2) \<Longrightarrow> steady l l2"
  shows "steady l l'"
  using assms by (auto simp: with_emit_lock_def split: if_splits prod.splits)

lemma locked_work_steady:
  "reopen_locked l d = (rc, l', d') \<Longrightarrow> steady l l'" "logger_sync_outputs_locked l d = (rc, l', d') \<Longrightarrow> steady l l'"
  by (auto simp: reopen_locked_def logger_sync_outputs_locked_def Let_def split: if_splits prod.splits)

text \<open>The scopes only touch the domain.\<close>

lemma in_scope_result:
  assumes "in_scope body s d = (rc, s', d')"
  obtains "s' = s" | d1 rc2 d2 where "body s d1 = (rc2, s', d2)"
  using assms by (auto simp: in_scope_def split: if_splits prod.splits)

lemma in_waiting_scope_result:
  assumes "in_waiting_scope body s d = Some (rc, s', d')"
  obtains "s' = s" | d1 rc2 d2 where "body s d1 = Some (rc2, s', d2)"
proof -
  obtain rc1 d1 where b: "logger_scope_begin d = (rc1, d1)" by fastforce
  have "s' = s \<or> (\<exists>rc2 d2. body s d1 = Some (rc2, s', d2))"
    using assms b by (auto simp: in_waiting_scope_def case_prod_beta split: if_splits)
  then show thesis using that by blast
qed

section \<open>The steps of an instance\<close>

text \<open>
  What happens to a live instance: calls of its users and rounds of its worker. While a flush waits,
  others take steps.
\<close>

inductive instance_steps :: "logger \<Rightarrow> logger \<Rightarrow> bool" where
  still: "instance_steps l l"
| log: "instance_steps l l1 \<Longrightarrow> logger_log env lv m f n g fmt (Some l1, t) d = Some (rc, (Some l2, t2), d2) \<Longrightarrow> instance_steps l l2"
| log_source: "instance_steps l l1 \<Longrightarrow> logger_log_source env lv src fmt (Some l1, t) d = Some (rc, (Some l2, t2), d2) \<Longrightarrow> instance_steps l l2"
| global_log: "instance_steps l l1 \<Longrightarrow> logger_vlog_internal env lv src fmt (Some l1, t) d = Some (rc, (Some l2, t2), d2) \<Longrightarrow> instance_steps l l2"
| log_sync: "instance_steps l l1 \<Longrightarrow> logger_log_sync_status lv src fmt (Some l1, t) d = (rc, (Some l2, t2), d2) \<Longrightarrow> instance_steps l l2"
| reopen: "instance_steps l l1 \<Longrightarrow> logger_reopen (Some l1) d = (rc, Some l2, d2) \<Longrightarrow> instance_steps l l2"
| level: "instance_steps l l1 \<Longrightarrow> logger_set_instance_level d (Some l1) lv = (rc, Some l2) \<Longrightarrow> instance_steps l l2"
| flush: "instance_steps l l1 \<Longrightarrow> (\<forall>e\<in>set events. \<forall>x d1. instance_steps x (fst (snd e (x, d1)))) \<Longrightarrow>
    logger_flush events (Some l1) d = Some (rc, Some l2, d2) \<Longrightarrow> instance_steps l l2"
| worker: "instance_steps l l1 \<Longrightarrow> logger_queue_drain (l_q l1) batch = (q, ms) \<Longrightarrow>
    worker_batch (l1\<lparr>l_q := q, worker_workspace := ws\<rparr>) ms t d = (leave, l2, t2, d2) \<Longrightarrow> instance_steps l l2"

lemma vlog_steady:
  assumes "in_waiting_scope (\<lambda>(l, t) d. let rc = log_refused l fmt level in if rc \<noteq> 0 then Some (rc, (l, t), d)
     else map_option (\<lambda>(rc2, l2, t2, d2). (rc2, (Some l2, t2), d2)) (vlog_body env level src (the fmt) (the l) t d)) (Some l, t) d =
     Some (rc, (Some l', t'), d')"
  shows "steady l l'"
  using assms vlog_body_steady by (cases rule: in_waiting_scope_result) (auto simp: Let_def split: if_splits)

lemma progress_wait_steady:
  assumes "progress_wait target events l d = Some (rc, l', d')" "\<forall>e\<in>set events. \<forall>x d1. steady x (fst (snd e (x, d1)))"
  shows "steady l l'"
  using assms
proof (induction events arbitrary: l d)
  case Nil
  then show ?case by (subst (asm) progress_wait.simps) (auto split: if_splits)
next
  case (Cons e events)
  obtain wrc others where e: "e = (wrc, others)" by fastforce
  obtain l1 d1 where o: "others (l, d) = (l1, d1)" by fastforce
  have s: "steady l l1" using Cons.prems(2) e o by (metis fst_conv list.set_intros(1) snd_conv)
  then show ?case using Cons.prems Cons.IH [of l1 d1] e o steady_trans [OF s]
    by (subst (asm) progress_wait.simps) (auto split: if_splits)
qed

lemma wait_for_output_steady:
  assumes "logger_wait_for_output events (Some l) d = Some (rc, lp, d')" "\<forall>e\<in>set events. \<forall>x d1. steady x (fst (snd e (x, d1)))"
  obtains l' where "lp = Some l'" "steady l l'"
  using assms progress_wait_steady [OF _ assms(2)]
  by (auto simp: logger_wait_for_output_def Let_def split: if_splits option.splits prod.splits)

lemma flush_steady:
  assumes "logger_flush events (Some l) d = Some (rc, Some l', d')" "\<forall>e\<in>set events. \<forall>x d1. steady x (fst (snd e (x, d1)))"
  shows "steady l l'"
  using assms(1) unfolding logger_flush_def
proof (cases rule: in_waiting_scope_result)
  case (2 d1 rc2 d2)
  show ?thesis
  proof (cases "l_state l = LOGGER_STATE_RUNNING")
    case True
    then obtain rcw lw dw where w: "logger_wait_for_output events (Some l) d1 = Some (rcw, lw, dw)"
      using 2 by (auto split: option.splits)
    then obtain l1 where l1: "lw = Some l1" "steady l l1" using wait_for_output_steady assms(2) by blast
    have "steady l1 l'"
      using 2 True w l1 emit_lock_steady [of logger_sync_outputs_locked l1 dw] locked_work_steady(2)
      by (auto simp: on_instance_def Let_def split: if_splits prod.splits)
    then show ?thesis using l1 steady_trans by blast
  qed (use 2 in simp)
qed simp

lemma reopen_steady:
  assumes "logger_reopen (Some l) d = (rc, Some l', d')"
  shows "steady l l'"
  using assms unfolding logger_reopen_def
proof (cases rule: in_scope_result)
  case (2 d1 rc2 d2)
  then show ?thesis using emit_lock_steady [of reopen_locked l d1] locked_work_steady(1)
    by (auto simp: on_instance_def split: if_splits prod.splits)
qed simp

lemma log_sync_steady:
  assumes "logger_log_sync_status lv src fmt (Some l, t) d = (rc, (Some l', t'), d')"
  shows "steady l l'"
  using assms sync_status_steady unfolding logger_log_sync_status_def
  by (cases rule: in_scope_result) (auto simp: Let_def split: if_splits prod.splits)

lemma instance_steady: "instance_steps l l' \<Longrightarrow> steady l l'"
proof (induction rule: instance_steps.induct)
  case (log l l1 env lv m f n g fmt t d rc l2 t2 d2)
  then show ?case using steady_trans vlog_steady unfolding logger_log_def by blast
next
  case (log_source l l1 env lv src fmt t d rc l2 t2 d2)
  then show ?case using steady_trans vlog_steady unfolding logger_log_source_def by blast
next
  case (global_log l l1 env lv src fmt t d rc l2 t2 d2)
  then show ?case using steady_trans vlog_steady unfolding logger_vlog_internal_def by blast
next
  case (log_sync l l1 lv src fmt t d rc l2 t2 d2)
  then show ?case using steady_trans log_sync_steady by blast
next
  case (reopen l l1 d rc l2 d2)
  then show ?case using steady_trans reopen_steady by blast
next
  case (level l l1 d lv rc l2)
  then show ?case by (auto simp: logger_set_instance_level_def Let_def intro: steady_level split: if_splits)
next
  case (flush l l1 events d rc l2 d2)
  then show ?case using steady_trans flush_steady by blast
next
  case (worker l l1 batch q ms ws t d leave l2 t2 d2)
  then show ?case using steady_trans worker_batch_steady [OF worker.hyps(3)] by (metis steady_updates(3,4))
qed simp

end
