(* ===== verification/Logger_Core_Props.thy ===== *)
theory Logger_Core_Props
  imports Logger_Core_Inv
begin

text \<open>
  The properties of the public operations on an instance: what becomes of a record, what a flush
  promises, the round trip of the log context, and the two invariants of a live instance.
\<close>

section \<open>The message of a record\<close>

lemma length_cstr_le: "length (cstr xs) \<le> length xs"
  by (simp add: cstr_def length_takeWhile_le)

definition source_ok :: "logger_source_t \<Rightarrow> bool" where
  "source_ok src \<longleftrightarrow> list_all (\<lambda>p. case p of None \<Rightarrow> True | Some s \<Rightarrow> nul_free s) [src_module src, src_file src, src_func src]"

lemma length_copy_ctx [simp]:
  assumes "n \<le> length a"
  shows "length (copy_ctx a n p) = length a"
proof (cases p)
  case (Some x)
  have "c_strnlen (n - 1) x \<le> length x" "c_strnlen (n - 1) x \<le> length a"
    using length_cstr_le [of x] assms by (auto simp: c_strnlen_cstr min_def)
  then show ?thesis using Some by (simp add: copy_ctx_def Let_def)
qed (simp add: copy_ctx_def)

lemma capture_wf [simp]: "message_wf m \<Longrightarrow> message_wf (capture_context t m)" "labels_ok (capture_context t m) = labels_ok m"
  by (simp_all add: capture_context_def Let_def message_wf_def labels_ok_def)

lemma blank_ok [simp]: "message_wf (blank_message lv)" "labels_ok (blank_message lv)"
  by (simp_all add: blank_message_def message_wf_def labels_ok_def)

lemma message_wf_updates [simp]:
  "message_wf (m\<lparr>m_metadata_mask := a\<rparr>) = message_wf m" "message_wf (m\<lparr>m_module := b\<rparr>) = message_wf m"
  "message_wf (m\<lparr>m_pid := c\<rparr>) = message_wf m" "message_wf (m\<lparr>m_tid := e\<rparr>) = message_wf m"
  "message_wf (m\<lparr>m_file := f\<rparr>) = message_wf m" "message_wf (m\<lparr>m_line := g\<rparr>) = message_wf m"
  "message_wf (m\<lparr>m_func := h\<rparr>) = message_wf m" "message_wf (m\<lparr>m_ts := i\<rparr>) = message_wf m"
  "message_wf (m\<lparr>m_text_len := j\<rparr>) = message_wf m"
  by (simp_all add: message_wf_def)

lemma prepared_ok:
  assumes "source_ok src"
  shows "message_ok (prepare_record_metadata l t (blank_message lv) src)"
proof -
  have "message_wf (prepare_record_metadata l t (blank_message lv) src)" by (simp add: prepare_record_metadata_def Let_def)
  moreover have "labels_ok (prepare_record_metadata l t (blank_message lv) src)"
    using assms by (simp add: prepare_record_metadata_def Let_def) (simp add: labels_ok_def source_ok_def blank_message_def)
  ultimately show ?thesis by (simp add: message_ok_def)
qed

lemma prepared_level [simp]: "m_level (prepare_record_metadata l t m src) = m_level m"
  by (simp add: prepare_record_metadata_def capture_context_def Let_def)

text \<open>The finished record of a text \<open>s\<close>: cut and marked when it is too long.\<close>

definition finished_record :: "string \<Rightarrow> logger_message \<Rightarrow> logger_message" where
  "finished_record s m =
     (if LOGGER_MESSAGE_MAX \<le> length s then m\<lparr>m_text := logger_text_mark_truncated (m_text m) LOGGER_MESSAGE_MAX\<rparr> else m)
       \<lparr>m_text_len := of_nat (if length s < LOGGER_MESSAGE_MAX then length s else LOGGER_MESSAGE_MAX - 1)\<rparr>"

lemma built_ok:
  assumes "build_message l t lv src fmt d = (Inr (s, m), d1)" "source_ok src"
  shows "message_ok (finished_record s m) \<and> m_level (finished_record s m) = lv"
proof -
  let ?p = "prepare_record_metadata l t (blank_message lv) src"
  obtain ts where m: "m = store_text s (?p\<lparr>m_ts := ts\<rparr>)"
    using assms(1) by (auto simp: build_message_def Let_def split: sum.splits prod.splits)
  have p: "message_ok ?p" by (rule prepared_ok [OF assms(2)])
  then have "length (m_text m) = LOGGER_MESSAGE_MAX" by (simp add: m store_text_def Let_def message_ok_def message_wf_def)
  then have "message_ok (finished_record s m)"
    using p by (simp add: finished_record_def m store_text_def Let_def message_ok_def message_wf_def labels_ok_def)
  moreover have "m_level (finished_record s m) = lv"
    by (simp add: finished_record_def m store_text_def Let_def blank_message_def)
  ultimately show ?thesis by simp
qed

section \<open>What becomes of a record\<close>

lemma emit_status_queue:
  assumes "logger_emit_status l m fs t d = (rc, l', t', d')"
  shows "l_q l' = l_q l \<and> enqueued l' = enqueued l \<and> sync_fallbacks l' = sync_fallbacks l \<and> dropped_by_level l' = dropped_by_level l"
proof -
  have o: "l_q l2 = l_q l \<and> enqueued l2 = enqueued l \<and> sync_fallbacks l2 = sync_fallbacks l \<and> dropped_by_level l2 = dropped_by_level l"
    if "emit_outputs l m fs line n d1 = (rc2, l2, d2)" for line n d1 rc2 l2 d2
    using that by (auto simp: emit_outputs_def split: prod.splits if_splits)
  show ?thesis
    using assms
  proof (cases rule: emit_status_stages)
    case (written d1 rc2 l2 d2 e)
    then show ?thesis using o [OF written(3)]
      by (auto simp: settle_record_def Let_def logger_note_io_error_def logger_note_synchronization_error_def logger_note_lifecycle_error_def)
  qed (auto simp: count_failed_def logger_note_io_error_def)
qed

lemma wake_force_ring: "calm env \<Longrightarrow> logger_queue_wake_force env q = (rc, q') \<Longrightarrow> ring_eq q q'"
  by (auto simp: logger_queue_wake_force_def calm_def Let_def note_unlock_def logger_queue_wait_disarm_def ring_eq_def split: if_splits)

lemma note_tallies [simp]:
  "enqueued (logger_note_io_error l e) = enqueued l" "sync_fallbacks (logger_note_io_error l e) = sync_fallbacks l"
  "dropped_by_level (logger_note_io_error l e) = dropped_by_level l"
  "enqueued (logger_note_lifecycle_error l e) = enqueued l" "sync_fallbacks (logger_note_lifecycle_error l e) = sync_fallbacks l"
  "dropped_by_level (logger_note_lifecycle_error l e) = dropped_by_level l"
  "enqueued (logger_note_synchronization_error l e) = enqueued l" "sync_fallbacks (logger_note_synchronization_error l e) = sync_fallbacks l"
  "dropped_by_level (logger_note_synchronization_error l e) = dropped_by_level l"
  by (simp_all add: logger_note_io_error_def logger_note_lifecycle_error_def logger_note_synchronization_error_def)

lemma watermark_tallies [simp]:
  "enqueued (update_high_watermark l) = enqueued l" "sync_fallbacks (update_high_watermark l) = sync_fallbacks l"
  "dropped_by_level (update_high_watermark l) = dropped_by_level l" "l_q (update_high_watermark l) = l_q l"
  by (simp_all add: update_high_watermark_def Let_def)

lemma publish_failed_tallies:
  assumes "calm (le_wake env)"
  shows "enqueued (publish_failed env rc l) = enqueued l + 1" "sync_fallbacks (publish_failed env rc l) = sync_fallbacks l"
    "dropped_by_level (publish_failed env rc l) = dropped_by_level l" "ring_eq (l_q l) (l_q (publish_failed env rc l))"
proof -
  obtain wrc q where w: "logger_queue_wake_force (le_wake env) (l_q l) = (wrc, q)" by fastforce
  have r: "ring_eq (l_q l) q" by (rule wake_force_ring [OF assms w])
  show "enqueued (publish_failed env rc l) = enqueued l + 1" "sync_fallbacks (publish_failed env rc l) = sync_fallbacks l"
    "dropped_by_level (publish_failed env rc l) = dropped_by_level l" "ring_eq (l_q l) (l_q (publish_failed env rc l))"
    using w r by (simp_all add: publish_failed_def Let_def) (simp_all add: ring_eq_def)
qed

text \<open>
  The fate of a record \<open>m\<close> of an asynchronous instance: queued; or refused by the queue and then written by
  the caller or dropped, as the policy of its level says. Each fate has its own counter.
\<close>

definition record_fate :: "logger \<Rightarrow> logger_message \<Rightarrow> int \<Rightarrow> logger \<Rightarrow> bool" where
  "record_fate l m rc l' \<longleftrightarrow> queue_inv (l_q l') \<and>
     (if \<not> refuses (l_q l) m
      then queue_contents (l_q l') = queue_contents (l_q l) @ [queued_view m] \<and> enqueued l' = enqueued l + 1 \<and>
           sync_fallbacks l' = sync_fallbacks l \<and> dropped_by_level l' = dropped_by_level l
      else queue_contents (l_q l') = queue_contents (l_q l) \<and> enqueued l' = enqueued l \<and>
           (if l_overflow l ! nat (m_level m) = LOGGER_OVERFLOW_SYNC
            then sync_fallbacks l' = sync_fallbacks l + 1 \<and> dropped_by_level l' = dropped_by_level l
            else rc = - EAGAIN \<and> sync_fallbacks l' = sync_fallbacks l \<and>
                 dropped_by_level l' = (dropped_by_level l)[nat (m_level m) := dropped_by_level l ! nat (m_level m) + 1]))"

lemma submit_fate:
  assumes "calm (le_push env)" "calm (le_wake env)" "queue_inv (l_q l)" "message_ok m" "async_mode l"
  shows "\<exists>rc l' t' d'. submit_record env l m t d = Some (rc, l', t', d') \<and> record_fate l m rc l'"
proof -
  obtain prc q tls where p: "logger_queue_push (le_push env) (th_spill t) (l_q l) m = Some (prc, q, tls)" "queue_inv q"
    "if refuses (l_q l) m then prc = 0 \<and> queue_contents q = queue_contents (l_q l)
     else prc \<noteq> 0 \<and> queue_contents q = queue_contents (l_q l) @ [queued_view m]"
    using push_correct [OF assms(1,3,4), of "th_spill t"] by blast
  let ?l1 = "l\<lparr>l_q := q\<rparr>" let ?t1 = "t\<lparr>th_spill := tls\<rparr>"
  note run = submit_record_def [of env l m t d, unfolded p(1) Let_def option.case prod.case]
  show ?thesis
  proof (cases "refuses (l_q l) m")
    case False
    then have "prc \<noteq> 0" "queue_contents q = queue_contents (l_q l) @ [queued_view m]" using p(3) by auto
    then show ?thesis
      using run assms(5) p(2) False publish_failed_tallies [OF assms(2), where rc = prc and l = ?l1]
        ring_eq_queue_inv [of q "l_q (publish_failed env prc ?l1)"] ring_eq_contents [of q "l_q (publish_failed env prc ?l1)"]
      by (cases "0 < prc") (simp_all add: record_fate_def)
  next
    case True
    then have q: "prc = 0" "queue_contents q = queue_contents (l_q l)" using p(3) by auto
    obtain rc l2 t2 d2 where e: "logger_emit_status (?l1\<lparr>sync_fallbacks := sync_fallbacks l + 1\<rparr>) m False ?t1 d = (rc, l2, t2, d2)"
      using prod_cases4 by blast
    show ?thesis
      using run assms(5) p(2) True q e emit_status_queue [OF e] by (simp add: record_fate_def)
  qed
qed

section \<open>Flush\<close>

lemma progress_wait_done:
  assumes "progress_wait target events l d = Some (0, l', d')"
  shows "completed_pos l' - target \<le> SIZE_MAX div 2 \<and> lifecycle_error l' = 0"
  using assms
proof (induction events arbitrary: l d)
  case Nil
  then show ?case by (subst (asm) progress_wait.simps) (auto split: if_splits)
next
  case (Cons e events)
  obtain wrc others where e: "e = (wrc, others)" by fastforce
  obtain l1 d1 where o: "others (l, d) = (l1, d1)" by fastforce
  show ?case using Cons.prems Cons.IH [of l1 d1] e o by (subst (asm) progress_wait.simps) (auto split: if_splits)
qed

lemma sync_outputs_done:
  assumes "logger_sync_outputs_locked l d = (0, l', d')"
  shows "first_error l' = 0 \<and> completed_pos l' = completed_pos l \<and> synchronization_error l' = synchronization_error l \<and>
    lifecycle_error l' = lifecycle_error l \<and>
    (l_outputs l AND LOGGER_OUT_FILE \<noteq> 0 \<longrightarrow> (\<exists>rc. logger_file_sync (file_backend l) d = (rc, file_backend l', d') \<and> 0 \<le> rc))"
proof (cases "l_outputs l AND LOGGER_OUT_FILE \<noteq> 0")
  case True
  obtain rc f d1 where c: "logger_file_sync (file_backend l) d = (rc, f, d1)" using prod_cases3 by blast
  have "0 \<le> rc"
  proof (rule ccontr)
    assume "\<not> 0 \<le> rc"
    then have "first_error (logger_note_io_error (l\<lparr>file_backend := f\<rparr>) (- rc)) \<noteq> 0"
      by (auto simp: logger_note_io_error_def sticky_def)
    then show False using assms True c \<open>\<not> 0 \<le> rc\<close> by (auto simp: logger_sync_outputs_locked_def Let_def first_error_code_def)
  qed
  then show ?thesis using assms True c by (auto simp: logger_sync_outputs_locked_def Let_def first_error_code_def split: if_splits)
next
  case False
  then show ?thesis using assms by (auto simp: logger_sync_outputs_locked_def first_error_code_def split: if_splits)
qed

text \<open>What a waiting flush saw when it stopped waiting.\<close>

lemma wait_for_output_done:
  assumes "logger_wait_for_output events (Some l) d = Some (0, lp, d')"
  obtains l' where "lp = Some l'" "async_mode l \<longrightarrow> completed_pos l' - q_enqueue_pos (l_q l) \<le> SIZE_MAX div 2"
proof (cases "async_mode l")
  case False
  then show ?thesis using assms that by (auto simp: logger_wait_for_output_def split: if_splits)
next
  case True
  obtain locked d1 where c1: "pthread_call d = (locked, d1)" by fastforce
  have ok: "\<not> logger_process_is_child d" "synchronization_error l = 0" "locked = 0"
    using assms True c1 by (auto simp: logger_wait_for_output_def split: if_splits)
  obtain result l2 d2 where p: "progress_wait (q_enqueue_pos (l_q l)) events l d1 = Some (result, l2, d2)"
    using assms True c1 ok by (auto simp: logger_wait_for_output_def split: option.splits)
  obtain unlocked d3 where c3: "pthread_call d2 = (unlocked, d3)" by fastforce
  have "result = 0" "unlocked = 0" "lp = Some l2"
    using assms True c1 ok p c3 by (auto simp: logger_wait_for_output_def Let_def first_rc_def split: if_splits)
  then show ?thesis using that progress_wait_done p by blast
qed

lemma flush_done:
  assumes "logger_flush events (Some l) d = Some (0, Some l', d')"
  shows "first_error l' = 0 \<and> synchronization_error l' = 0 \<and>
     (async_mode l \<longrightarrow> completed_pos l' - q_enqueue_pos (l_q l) \<le> SIZE_MAX div 2) \<and>
     (l_outputs l' AND LOGGER_OUT_FILE \<noteq> 0 \<longrightarrow> (\<exists>f d1 d2 rc. logger_file_sync f d1 = (rc, file_backend l', d2) \<and> 0 \<le> rc))"
proof -
  obtain rc1 d1 where b: "logger_scope_begin d = (rc1, d1)" by fastforce
  have begun: "rc1 = 0" using assms b by (auto simp: logger_flush_def in_waiting_scope_def split: if_splits)
  define res where "res = (if l_state l \<noteq> LOGGER_STATE_RUNNING then Some (- ESHUTDOWN, Some l, d1)
       else case logger_wait_for_output events (Some l) d1 of
         None \<Rightarrow> None
       | Some (rc, l1, d2) \<Rightarrow>
         let sync_error = synchronization_error (the l1) in
         case (if sync_error \<noteq> 0 then (- sync_error, l1, d2)
               else on_instance (with_emit_lock logger_sync_outputs_locked) l1 d2) of (sync_rc, l2, d3) \<Rightarrow>
           Some (first_rc rc sync_rc, l2, d3))"
  obtain rc2 d2 where r: "res = Some (rc2, Some l', d2)" "rc2 = 0"
    using assms b begun
    by (auto simp: logger_flush_def in_waiting_scope_def res_def [symmetric] logger_scope_end_def Let_def case_prod_beta split: if_splits)
  obtain rcw lw dw where w: "logger_wait_for_output events (Some l) d1 = Some (rcw, lw, dw)"
    using r by (auto simp: res_def split: if_splits option.splits)
  obtain sync_rc l2 d3 where c: "(if synchronization_error (the lw) \<noteq> 0 then (- synchronization_error (the lw), lw, dw)
       else on_instance (with_emit_lock logger_sync_outputs_locked) lw dw) = (sync_rc, l2, d3)" using prod_cases3 by blast
  have z: "rcw = 0" "sync_rc = 0" "l2 = Some l'" using r w c by (auto simp: res_def Let_def first_rc_def split: if_splits)
  obtain l1 where l1: "lw = Some l1" "async_mode l \<longrightarrow> completed_pos l1 - q_enqueue_pos (l_q l) \<le> SIZE_MAX div 2"
    using wait_for_output_done w z(1) by blast
  have "synchronization_error l1 = 0" using c z l1 by (auto split: if_splits)
  then have k: "with_emit_lock logger_sync_outputs_locked l1 dw = (0, l', d3)"
    using c z l1 by (auto simp: on_instance_def split: prod.splits if_splits)
  obtain d4 d5 where s: "logger_sync_outputs_locked l1 d4 = (0, l', d5)"
    using k by (auto simp: with_emit_lock_def first_rc_def split: prod.splits if_splits)
  have "l_outputs l' = l_outputs l1" using locked_work_steady(2) [OF s] by (auto simp: steady_def evolves_def frozen_def)
  then show ?thesis using sync_outputs_done [OF s] l1(2) \<open>synchronization_error l1 = 0\<close> by auto
qed

section \<open>The log context\<close>

definition kept_label :: "cptr \<Rightarrow> cptr" where
  "kept_label p = (case p of None \<Rightarrow> None | Some s \<Rightarrow> if s = [] then None else Some (take 63 s))"

lemma copied_pointer:
  assumes "case p of None \<Rightarrow> True | Some s \<Rightarrow> nul_free s"
  shows "ctx_pointer (copy_ctx (replicate 64 NUL) 64 p) = kept_label p"
proof (cases p)
  case None
  then show ?thesis by (simp add: copy_ctx_def ctx_pointer_def kept_label_def)
next
  case (Some s)
  have s: "nul_free s" using assms Some by simp
  let ?n = "min 63 (length s)"
  have "64 - ?n = Suc (63 - ?n)" by linarith
  then have "copy_ctx (replicate 64 NUL) 64 p = take ?n s @ NUL # replicate (63 - ?n) NUL"
    using Some s by (simp add: copy_ctx_def Let_def memcpy_at_def list_update_append)
  moreover have "s \<noteq> [] \<longrightarrow> s ! 0 \<noteq> NUL" using s by (cases s) (auto simp: nul_free_def)
  ultimately show ?thesis
    using Some s by (cases s) (auto simp: ctx_pointer_def kept_label_def min_def)
qed

section \<open>Properties\<close>

text \<open>C28. Records are accounted for. Whatever calls the users of an instance make, whatever rounds its worker
  runs in between and whatever calls fail, the completed records, asynchronous and synchronous, are
  always the emitted ones plus the failed ones, if they were at the start (as in a new instance).\<close>

theorem completed_records_accounted:
  assumes "instance_steps l l'" "async_completed l + sync_completed l = emitted_records l + failed_records l"
  shows "async_completed l' + sync_completed l' = emitted_records l' + failed_records l'"
proof -
  have "account_gap l' = account_gap l" using instance_steady [OF assms(1)] by (simp add: steady_def)
  moreover have "account_gap l = 0" using assms(2) by (simp add: account_gap_def)
  ultimately show ?thesis by (simp add: account_gap_def)
qed

lemma level_step:
  "instance_steps (sample_logger 1 q) ((sample_logger 1 q)\<lparr>l_level := LOGGER_ERROR\<rparr>)"
  by (rule instance_steps.level [OF instance_steps.still, of "sample_domain []" _ LOGGER_ERROR 0])
    (simp add: logger_set_instance_level_def reject_access_def sample_domain_def logger_process_is_child_def logger_scope_busy_def
      logger_fork_fd_preparing_def logger_process_require_def as_unsigned_def)

theorem completed_records_accounted_witness:
  "\<exists>l'. instance_steps (sample_logger 1 sample_queue) l' \<and> l_level l' = LOGGER_ERROR \<and>
     async_completed l' + sync_completed l' = emitted_records l' + failed_records l'"
proof -
  let ?l = "(sample_logger 1 sample_queue)\<lparr>l_level := LOGGER_ERROR\<rparr>"
  have "async_completed ?l + sync_completed ?l = emitted_records ?l + failed_records ?l"
    by (rule completed_records_accounted [OF level_step]) (simp add: sample_logger_def)
  then show ?thesis using level_step by (intro exI [of _ ?l]) simp
qed




definition sample_source :: logger_source_t where
  "sample_source = \<lparr>src_module = Some ''net'', src_file = Some ''main.c'', src_func = None, src_line = 3\<rparr>"




text \<open>C32. The log context of a thread is what it set: each label up to 63 bytes, a null or empty one as null.\<close>

theorem context_roundtrip:
  assumes "logger_context_set (Some c) t d = (0, t', d1)" "logger_context_get True t' d2 = (0, r, d3)"
    and "list_all (\<lambda>p. case p of None \<Rightarrow> True | Some s \<Rightarrow> nul_free s) [ctx_request_id c, ctx_session_id c, ctx_trace_id c]"
  shows "r = Some \<lparr>ctx_request_id = kept_label (ctx_request_id c), ctx_session_id = kept_label (ctx_session_id c),
     ctx_trace_id = kept_label (ctx_trace_id c)\<rparr>"
proof -
  have "t' = t\<lparr>g_request_id := copy_ctx (replicate 64 NUL) 64 (ctx_request_id c), g_session_id := copy_ctx (replicate 64 NUL) 64 (ctx_session_id c),
      g_trace_id := copy_ctx (replicate 64 NUL) 64 (ctx_trace_id c)\<rparr>"
    using assms(1) by (auto simp: logger_context_set_def in_scope_def Let_def split: if_splits prod.splits)
  moreover have "r = Some (g_ctx t')"
    using assms(2) by (auto simp: logger_context_get_def in_scope_def split: if_splits prod.splits)
  ultimately show ?thesis using assms(3) by (simp add: g_ctx_def copied_pointer)
qed

theorem context_roundtrip_witness:
  "\<exists>t' d1 d3. logger_context_set (Some \<lparr>ctx_request_id = Some ''r1'', ctx_session_id = None, ctx_trace_id = Some []\<rparr>) sample_thread (sample_domain [])
     = (0, t', d1) \<and>
     logger_context_get True t' (sample_domain []) = (0, Some \<lparr>ctx_request_id = Some ''r1'', ctx_session_id = None, ctx_trace_id = None\<rparr>, d3)"
proof -
  let ?c = "\<lparr>ctx_request_id = Some ''r1'', ctx_session_id = None, ctx_trace_id = Some []\<rparr>"
  obtain rc t' d1 where s: "logger_context_set (Some ?c) sample_thread (sample_domain []) = (rc, t', d1)" using prod_cases3 by blast
  have "fst (logger_context_set (Some ?c) sample_thread (sample_domain [])) = 0" by code_simp
  then have rc: "rc = 0" using s by simp
  obtain rc2 r d3 where g: "logger_context_get True t' (sample_domain []) = (rc2, r, d3)" using prod_cases3 by blast
  have "fst (in_scope (\<lambda>s d. (0, s, d)) () (sample_domain [])) = 0" by code_simp
  then have "rc2 = 0" using g by (auto simp: logger_context_get_def in_scope_def split: if_splits prod.splits)
  then show ?thesis
    using context_roundtrip [OF s [unfolded rc] g [unfolded \<open>rc2 = 0\<close>]] s g rc
    by (simp add: kept_label_def nul_free_def)
qed

end
