(* ===== verification/Logger_Lifecycle.thy ===== *)
theory Logger_Lifecycle
  imports Logger_Core
begin

text \<open>
  Construction and destruction of an instance, of \<^verbatim>\<open>src/logger.c\<close>: the constructor with its rollback, the
  hand-over to the caller, the teardown and the public \<^verbatim>\<open>logger_create\<close> and \<^verbatim>\<open>logger_destroy\<close>.

  The addresses of the allocations an instance owns are kept beside it. The worker runs in another
  thread: what it does before the constructor publishes the instance is an argument, and joining it
  runs \<^verbatim>\<open>logger_worker_main\<close> to its end from the state it is told to stop in. The call scope is
  thread-local, so it is the caller's again after a join. A thread cancelled in the hand-over never
  returns and is not modelled.
\<close>

record held_memory =
  h_address :: nat
  h_slots :: nat
  h_spills :: nat

type_synonym instance_t = "logger \<times> held_memory"

record worker_env =
  we_fuel :: nat
  we_events :: "wait_event list"
  we_thread :: thread_state
  we_wake :: queue_env

section \<open>The queue's resources\<close>

definition no_failures :: queue_init_env where
  "no_failures = \<lparr>ie_slots = None, ie_spills = None, ie_mutex_init = 0, ie_cond_init = 0, ie_mutex_destroy = 0\<rparr>"

text \<open>
  The calls \<^verbatim>\<open>logger_queue_init\<close> makes once the sizes are known, in its order; the cleanup attributes free
  both blocks, the later one first, on every failure.
\<close>

definition acquire_queue :: "size_t \<Rightarrow> domain \<Rightarrow> queue_init_env \<times> (nat \<times> nat) \<times> domain" where
  "acquire_queue capacity d =
     (case logger_runtime_calloc capacity SIZEOF_SLOT d of
        (Inl e, d1) \<Rightarrow> (no_failures\<lparr>ie_slots := Some e\<rparr>, (0, 0), d1)
      | (Inr slots, d1) \<Rightarrow>
        (case logger_runtime_calloc (queue_spill_capacity capacity) SIZEOF_SPILL d1 of
           (Inl e, d2) \<Rightarrow> (no_failures\<lparr>ie_spills := Some e\<rparr>, (0, 0), snd (logger_runtime_free (Some slots) d2))
         | (Inr spills, d2) \<Rightarrow>
           let free_both = (\<lambda>x. snd (logger_runtime_free (Some slots) (snd (logger_runtime_free (Some spills) x)))) in
           (case pthread_call d2 of (mutex_rc, d3) \<Rightarrow>
              if mutex_rc \<noteq> 0 then (no_failures\<lparr>ie_mutex_init := mutex_rc\<rparr>, (0, 0), free_both d3)
              else case pthread_call d3 of (cond_rc, d4) \<Rightarrow>
                if cond_rc \<noteq> 0
                then (case pthread_call d4 of (destroy_rc, d5) \<Rightarrow>
                        (no_failures\<lparr>ie_cond_init := cond_rc, ie_mutex_destroy := destroy_rc\<rparr>, (0, 0), free_both d5))
                else (no_failures, (slots, spills), d4))))"

definition init_queue :: "size_t \<Rightarrow> domain \<Rightarrow> (int \<times> errno \<times> logger_queue) \<times> (nat \<times> nat) \<times> domain" where
  "init_queue requested d =
     (case queue_capacity requested of
        Inl _ \<Rightarrow> (logger_queue_init no_failures requested, (0, 0), d)
      | Inr capacity \<Rightarrow>
        (case queue_storage_size capacity (queue_spill_capacity capacity) of
           Inl _ \<Rightarrow> (logger_queue_init no_failures requested, (0, 0), d)
         | Inr _ \<Rightarrow> (case acquire_queue capacity d of (env, blocks, d1) \<Rightarrow> (logger_queue_init env requested, blocks, d1))))"

text \<open>The calls of \<^verbatim>\<open>logger_queue_destroy\<close>; each is made only when the earlier ones succeeded.\<close>

definition destroy_queue :: "logger_queue \<Rightarrow> held_memory \<Rightarrow> domain \<Rightarrow> int \<times> logger_queue \<times> domain" where
  "destroy_queue q h d =
     (case (if q_wait_mu_error q \<noteq> 0 then (0, d) else pthread_call d) of (cond_rc, d1) \<Rightarrow>
      case (if q_wait_mu_error q \<noteq> 0 \<or> cond_rc \<noteq> 0 then (0, d1) else pthread_call d1) of (mutex_rc, d2) \<Rightarrow>
      let stop = (q_wait_mu_error q \<noteq> 0 \<or> cond_rc \<noteq> 0 \<or> mutex_rc \<noteq> 0) in
      case (if stop then (0, d2) else logger_runtime_free (Some (h_spills h)) d2) of (spills_rc, d3) \<Rightarrow>
      case (if stop \<or> spills_rc \<noteq> 0 then (0, d3) else logger_runtime_free (Some (h_slots h)) d3) of (slots_rc, d4) \<Rightarrow>
      case logger_queue_destroy \<lparr>de_cond_destroy = cond_rc, de_mutex_destroy = mutex_rc, de_free_spills = spills_rc, de_free_slots = slots_rc\<rparr> (Some q) of
        (rc, q1) \<Rightarrow> (rc, the q1, d4))"

section \<open>Joining the worker\<close>

definition join_worker :: "worker_env \<Rightarrow> logger \<Rightarrow> domain \<Rightarrow> (errno \<times> logger \<times> domain) option" where
  "join_worker env l d =
     (case pthread_call d of (join_rc, d1) \<Rightarrow>
        if join_rc \<noteq> 0 then Some (join_rc, l, d1)
        else map_option (\<lambda>(l1, _, d2). (0, l1, d2\<lparr>in_runtime := in_runtime d1\<rparr>))
          (logger_worker_main (we_fuel env) (we_events env) l (we_thread env) d1))"

section \<open>The constructor\<close>

record logger_ctor_state =
  emit_mu_ready :: bool
  progress_mu_ready :: bool
  progress_cv_ready :: bool
  queue_ready :: bool
  worker_started :: bool

text \<open>A destructor of a lock or condition variable, when there is one to destroy.\<close>

definition destroy_if :: "bool \<Rightarrow> errno \<times> domain \<Rightarrow> errno \<times> domain" where
  "destroy_if ready s = (case s of (rc, d) \<Rightarrow> if rc \<noteq> 0 \<or> \<not> ready then (rc, d) else pthread_call d)"

text \<open>The rollback after the worker is gone: memory, queue, locks, outputs, the counter, the object.\<close>

definition rollback_resources :: "instance_t \<Rightarrow> logger_ctor_state \<Rightarrow> domain \<Rightarrow> int \<times> logger \<times> domain" where
  "rollback_resources inst st d =
     (case inst of (l, h) \<Rightarrow>
      let d1 = logger_worker_workspace_destroy (worker_workspace l) d;
          l1 = l\<lparr>worker_workspace := None\<rparr> in
      case (if queue_ready st then destroy_queue (l_q l1) h d1 else (0, l_q l1, d1)) of (qrc, q, d2) \<Rightarrow>
      let l2 = l1\<lparr>l_q := q\<rparr> in
      if qrc \<noteq> 0 then (qrc, logger_ctor_note_proof_error l2 qrc, d2)
      else case destroy_if (emit_mu_ready st) (destroy_if (progress_mu_ready st) (destroy_if (progress_cv_ready st) (0, d2))) of (rc, d3) \<Rightarrow>
        if rc \<noteq> 0 then (- rc, logger_ctor_note_proof_error l2 rc, d3)
        else case logger_file_close_status (Some (file_backend l2)) d3 of (cleanup_rc, f, d4) \<Rightarrow>
        case logger_syslog_close (syslog_backend l2) d4 of (s, d5) \<Rightarrow>
        let l3 = l2\<lparr>file_backend := the f, syslog_backend := s\<rparr> in
        case logger_process_object_release d5 of (release_rc, d6) \<Rightarrow>
          if release_rc \<noteq> 0 then (release_rc, logger_ctor_note_proof_error l3 release_rc, d6)
          else case logger_runtime_free (Some (h_address h)) d6 of (free_rc, d7) \<Rightarrow>
            (if cleanup_rc \<noteq> 0 then cleanup_rc else free_rc, l3, d7))"

definition logger_ctor_rollback ::
  "worker_env \<Rightarrow> instance_t option \<Rightarrow> logger_ctor_state \<Rightarrow> domain \<Rightarrow> (int \<times> logger option \<times> domain) option" where
  "logger_ctor_rollback env inst st d =
     (case inst of
        None \<Rightarrow> (case logger_process_object_release d of (rc, d1) \<Rightarrow> Some (rc, None, d1))
      | Some (l0, h) \<Rightarrow>
        let l = l0\<lparr>l_state := LOGGER_STATE_STOPPING\<rparr>;
            sync_error = (if synchronization_error l = 0 \<and> queue_ready st then logger_queue_wait_error (l_q l) else synchronization_error l)
        in if sync_error \<noteq> 0 then Some (- sync_error, Some (logger_ctor_note_proof_error l sync_error), d)
           else if \<not> worker_started st
           then (case rollback_resources (l, h) st d of (rc, l1, d1) \<Rightarrow> Some (rc, Some l1, d1))
           else let l1 = l\<lparr>l_running := False\<rparr> in
             case (if queue_ready st then logger_queue_wake_force (we_wake env) (l_q l1) else (0, l_q l1)) of (wake_rc, q) \<Rightarrow>
               let l2 = l1\<lparr>l_q := q\<rparr> in
               if wake_rc \<noteq> 0 then Some (wake_rc, Some (logger_ctor_note_proof_error l2 wake_rc), d)
               else case join_worker env l2 d of
                 None \<Rightarrow> None
               | Some (join_rc, l3, d3) \<Rightarrow>
                 if join_rc \<noteq> 0 then Some (- join_rc, Some (logger_ctor_note_proof_error l3 join_rc), d3)
                 else (case rollback_resources (l3, h) st d3 of (rc, l4, d4) \<Rightarrow> Some (rc, Some l4, d4)))"

definition logger_ctor_init_fields :: "logger_config_t \<Rightarrow> domain \<Rightarrow> logger" where
  "logger_ctor_init_fields cfg d =
     (let mask = capture_mask_from_config cfg in
      \<lparr>l_level = c_level cfg, l_state = LOGGER_STATE_CREATED, default_borrowed = False, l_detail = c_detail cfg,
       l_outputs = c_outputs cfg, l_file_mode = (if c_file_mode cfg \<noteq> 0 then c_file_mode cfg else 0x1A0),
       async_mode = (c_async_mode cfg \<noteq> 0), include_pid = (c_include_pid cfg \<noteq> 0), include_tid = (c_include_tid cfg \<noteq> 0),
       include_source = (c_include_source cfg \<noteq> 0), flush_level = c_flush_level cfg, capture_mask = mask,
       l_pid = (if mask AND LOGGER_CAPTURE_PID \<noteq> 0 then k_pid d else 0),
       l_ident = copy_ctx (replicate 128 NUL) 128 (Some (str_or (c_ident cfg) ''app'')),
       file_backend = LOGGER_FILE_EMPTY, syslog_backend = zero_syslog\<lparr>s_fd := logger_fd_own (- 1)\<rparr>, completed_pos = 0,
       async_completed = 0, sync_completed = 0, emitted_records = 0, failed_records = 0, first_error = 0,
       lifecycle_error = 0, synchronization_error = 0, l_q = zero_queue, worker_workspace = None, l_running = False,
       l_overflow = map (\<lambda>i. c_overflow cfg ! i) [0..<6], dropped_by_level = replicate 6 0, enqueued = 0,
       sync_fallbacks = 0, queue_high_watermark = 0, consumer_batches = 0, consumer_records = 0\<rparr>)"

definition logger_ctor_start_worker ::
  "logger_config_t \<Rightarrow> instance_t \<Rightarrow> logger_ctor_state \<Rightarrow> domain \<Rightarrow> int \<times> instance_t \<times> logger_ctor_state \<times> domain" where
  "logger_ctor_start_worker cfg inst st d =
     (case inst of (l, h) \<Rightarrow>
      if \<not> async_mode l then (0, (l, h), st, d)
      else case init_queue (if c_queue_capacity cfg \<noteq> 0 then c_queue_capacity cfg else 8192) d of
        ((rc, e, q), (slots, spills), d1) \<Rightarrow>
          let l1 = l\<lparr>l_q := q\<rparr> in
          if rc \<noteq> 0
          then (let proof_error = logger_queue_wait_error q in
                (- errno_or e EIO, (if proof_error \<noteq> 0 then logger_note_synchronization_error l1 proof_error else l1, h), st, d1))
          else let h1 = h\<lparr>h_slots := slots, h_spills := spills\<rparr>; st1 = st\<lparr>queue_ready := True\<rparr> in
            case logger_worker_workspace_create (q_cap q) d1 of
              (Inl e2, d2) \<Rightarrow> (- errno_or e2 ENOMEM, (l1, h1), st1, d2)
            | (Inr ws, d2) \<Rightarrow>
              let l2 = l1\<lparr>worker_workspace := Some ws, l_running := True\<rparr> in
              (case pthread_call d2 of (create_rc, d3) \<Rightarrow>
                 if create_rc \<noteq> 0 then (- create_rc, (l2\<lparr>l_running := False\<rparr>, h1), st1, d3)
                 else (0, (l2, h1), st1\<lparr>worker_started := True\<rparr>, d3)))"

text \<open>
  The arguments of a construction that are not in the call: the size of the instance, what the worker
  did before publication, whether the caller has asynchronous cancellation enabled.
\<close>

record create_env =
  ce_sizeof :: size_t
  ce_worker :: "logger \<times> domain \<Rightarrow> logger \<times> domain"
  ce_async_cancel :: bool
  ce_join :: worker_env

text \<open>The three synchronisation objects, in order: the error and what is ready.\<close>

definition ctor_locks :: "domain \<Rightarrow> errno \<times> logger_ctor_state \<times> domain" where
  "ctor_locks d =
     (let st = \<lparr>emit_mu_ready = False, progress_mu_ready = False, progress_cv_ready = False, queue_ready = False, worker_started = False\<rparr> in
      case pthread_call d of (rc1, d1) \<Rightarrow>
        if rc1 \<noteq> 0 then (rc1, st, d1)
        else let st1 = st\<lparr>emit_mu_ready := True\<rparr> in
          case pthread_call d1 of (rc2, d2) \<Rightarrow>
            if rc2 \<noteq> 0 then (rc2, st1, d2)
            else let st2 = st1\<lparr>progress_mu_ready := True\<rparr> in
              case pthread_call d2 of (rc3, d3) \<Rightarrow>
                if rc3 \<noteq> 0 then (rc3, st2, d3) else (0, st2\<lparr>progress_cv_ready := True\<rparr>, d3))"

text \<open>The outputs: the error, 0 for none.\<close>

definition ctor_outputs :: "logger_config_t \<Rightarrow> logger \<Rightarrow> domain \<Rightarrow> errno \<times> logger \<times> domain" where
  "ctor_outputs cfg l d =
     (case (if l_outputs l AND LOGGER_OUT_FILE \<noteq> 0
            then (case logger_file_init (c_file_path cfg) (c_rotation cfg) (l_file_mode l) d of (e, f, d1) \<Rightarrow> (e, l\<lparr>file_backend := f\<rparr>, d1))
            else (0, l, d)) of (e1, l1, d1) \<Rightarrow>
        if e1 \<noteq> 0 then (errno_or e1 EIO, l1, d1)
        else if l_outputs l1 AND LOGGER_OUT_SYSLOG \<noteq> 0
        then (case logger_syslog_init (syslog_backend l1) (c_ident cfg) (Some (c_syslog cfg)) d1 of (r, s, d2) \<Rightarrow>
                let l2 = l1\<lparr>syslog_backend := s\<rparr> in
                (case r of
                   Inl e \<Rightarrow> (errno_or e EIO, l2, d2)
                 | Inr _ \<Rightarrow> (0, logger_note_io_error l2 (sm_last_error (s_metrics s)), d2)))
        else (0, l1, d1))"

text \<open>The steps that may fail after the object exists: the error, the instance, what is ready.\<close>

definition ctor_build ::
  "create_env \<Rightarrow> logger_config_t \<Rightarrow> instance_t \<Rightarrow> domain \<Rightarrow> errno \<times> instance_t \<times> logger_ctor_state \<times> domain" where
  "ctor_build env cfg inst d =
     (case inst of (l, h) \<Rightarrow>
      case ctor_locks d of (rc, st, d1) \<Rightarrow>
        if rc \<noteq> 0 then (rc, (l, h), st, d1)
        else case ctor_outputs cfg l d1 of (e, l2, d2) \<Rightarrow>
          if e \<noteq> 0 then (e, (l2, h), st, d2)
          else case logger_ctor_start_worker cfg (l2, h) st d2 of (wrc, (l3, h3), st3, d3) \<Rightarrow>
            if wrc \<noteq> 0 then (- wrc, (l3, h3), st3, d3)
            else case (if worker_started st3 then ce_worker env (l3, d3) else (l3, d3)) of (l4, d4) \<Rightarrow>
              if l_state l4 = LOGGER_STATE_CREATED then (0, (l4\<lparr>l_state := LOGGER_STATE_RUNNING\<rparr>, h3), st3, d4)
              else (errno_or (lifecycle_error l4) EIO, (l4, h3), st3, d4))"

definition create_logger ::
  "create_env \<Rightarrow> (logger_config_t \<times> u8 list) option \<Rightarrow> domain \<Rightarrow> ((errno + instance_t) \<times> domain) option" where
  "create_logger env input d =
     (case copy_logger_config input of
        Inl e \<Rightarrow> Some (Inl e, d)
      | Inr cfg \<Rightarrow>
        let rc = validate_logger_config cfg in
        if rc \<noteq> 0 then Some (Inl (- rc), d)
        else case logger_process_object_acquire d of (arc, d1) \<Rightarrow>
          if arc \<noteq> 0 then Some (Inl (- arc), d1)
          else case logger_runtime_calloc 1 (ce_sizeof env) d1 of
            (Inl e, d2) \<Rightarrow> (case logger_process_object_release d2 of (_, d3) \<Rightarrow> Some (Inl (errno_or e ENOMEM), d3))
          | (Inr a, d2) \<Rightarrow>
            (case ctor_build env cfg (logger_ctor_init_fields cfg d2, \<lparr>h_address = a, h_slots = 0, h_spills = 0\<rparr>) d2 of (e, inst, st, d3) \<Rightarrow>
               if e = 0 then Some (Inr inst, d3)
               else map_option (\<lambda>(_, _, d4). (Inl e, d4)) (logger_ctor_rollback (ce_join env) (Some inst) st d3)))"

section \<open>Teardown\<close>

text \<open>Stopping the worker: the code (0 to go on), the instance.\<close>

definition dispose_worker :: "worker_env \<Rightarrow> logger \<Rightarrow> domain \<Rightarrow> (int \<times> logger \<times> domain) option" where
  "dispose_worker env l d =
     (if \<not> async_mode l then Some (0, l, d)
      else let l1 = l\<lparr>l_running := False\<rparr> in
        case logger_queue_wake_force (we_wake env) (l_q l1) of (wake_rc, q) \<Rightarrow>
          let l2 = l1\<lparr>l_q := q\<rparr> in
          if wake_rc \<noteq> 0
          then (let l3 = logger_note_lifecycle_error l2 (- wake_rc); wait_error = logger_queue_wait_error (l_q l3) in
                Some (wake_rc, if wait_error \<noteq> 0 then logger_note_synchronization_error l3 wait_error else l3, d))
          else case join_worker env l2 d of
            None \<Rightarrow> None
          | Some (join_rc, l3, d3) \<Rightarrow>
            if join_rc \<noteq> 0 then Some (- join_rc, l3\<lparr>lifecycle_error := sticky (lifecycle_error l3) join_rc\<rparr>, d3)
            else Some (0, l3, d3))"

text \<open>The final synchronisation: whether the teardown goes on, the code, the instance.\<close>

definition dispose_sync :: "logger \<Rightarrow> domain \<Rightarrow> bool \<times> int \<times> logger \<times> domain" where
  "dispose_sync l d =
     (if synchronization_error l \<noteq> 0 then (False, - synchronization_error l, l, d)
      else case pthread_call d of (lock_rc, d1) \<Rightarrow>
        if lock_rc \<noteq> 0 then (False, - lock_rc, l\<lparr>lifecycle_error := lock_rc\<rparr>, d1)
        else case (if lifecycle_error l \<noteq> 0 then (- lifecycle_error l, l, d1) else logger_sync_outputs_locked l d1) of (rc, l2, d2) \<Rightarrow>
          case pthread_call d2 of (unlock_rc, d3) \<Rightarrow>
            if unlock_rc \<noteq> 0 then (False, - unlock_rc, logger_note_synchronization_error l2 unlock_rc, d3)
            else (True, rc, l2, d3))"

text \<open>The memory of the worker and the queue, and the synchronisation objects: the code, 0 to go on.\<close>

definition dispose_objects :: "instance_t \<Rightarrow> domain \<Rightarrow> int \<times> logger \<times> domain" where
  "dispose_objects inst d =
     (case inst of (l, h) \<Rightarrow>
      case (if async_mode l
            then (case destroy_queue (l_q l) h (logger_worker_workspace_destroy (worker_workspace l) d) of (qrc, q, d1) \<Rightarrow>
                    (qrc, l\<lparr>worker_workspace := None, l_q := q\<rparr>, d1))
            else (0, l, d)) of (qrc, l1, d1) \<Rightarrow>
        if qrc \<noteq> 0 then (qrc, l1\<lparr>lifecycle_error := - qrc\<rparr>, d1)
        else case destroy_if True (destroy_if True (destroy_if True (0, d1))) of (rc, d2) \<Rightarrow>
          if rc \<noteq> 0 then (- rc, l1\<lparr>lifecycle_error := rc\<rparr>, d2) else (0, l1, d2))"

text \<open>Closing the outputs, giving back the counter and the memory; \<open>rc\<close> is the code so far.\<close>

definition dispose_release :: "int \<Rightarrow> instance_t \<Rightarrow> domain \<Rightarrow> int \<times> bool \<times> logger \<times> domain" where
  "dispose_release rc inst d =
     (case inst of (l, h) \<Rightarrow>
      case logger_file_close_status (Some (file_backend l)) d of (close_rc, f, d1) \<Rightarrow>
      case logger_syslog_close_status (syslog_backend l) d1 of (syslog_rc, s, d2) \<Rightarrow>
      let rc1 = first_rc (first_rc rc close_rc) syslog_rc;
          l1 = l\<lparr>file_backend := the f, syslog_backend := s, l_state := LOGGER_STATE_STOPPED\<rparr> in
      case logger_process_object_release d2 of (release_rc, d3) \<Rightarrow>
        if release_rc \<noteq> 0 then (release_rc, False, l1, d3)
        else case logger_runtime_free (Some (h_address h)) d3 of (free_rc, d4) \<Rightarrow>
          if free_rc \<noteq> 0 then (first_rc rc1 free_rc, False, l1, d4)
          else (first_rc rc1 (- resource_error (logger_runtime_current d4)), True, l1, d4))"

text \<open>The code, whether the object was released, and the object as it is left.\<close>

definition dispose_body :: "worker_env \<Rightarrow> instance_t option \<Rightarrow> domain \<Rightarrow> (int \<times> bool \<times> logger option \<times> domain) option" where
  "dispose_body env inst d =
     (case inst of
        None \<Rightarrow> Some (0, True, None, d)
      | Some (l0, h) \<Rightarrow>
        let l = l0\<lparr>l_state := LOGGER_STATE_STOPPING\<rparr>;
            sync_error = (if synchronization_error l = 0 \<and> async_mode l then logger_queue_wait_error (l_q l) else synchronization_error l)
        in if sync_error \<noteq> 0 then Some (- sync_error, False, Some (logger_note_lifecycle_error l sync_error), d)
           else case dispose_worker env l d of
             None \<Rightarrow> None
           | Some (wrc, l1, d1) \<Rightarrow>
             if wrc \<noteq> 0 then Some (wrc, False, Some l1, d1)
             else case dispose_sync l1 d1 of (go, rc, l2, d2) \<Rightarrow>
               if \<not> go then Some (rc, False, Some l2, d2)
               else case dispose_objects (l2, h) d2 of (orc, l3, d3) \<Rightarrow>
                 if orc \<noteq> 0 then Some (orc, False, Some l3, d3)
                 else case dispose_release rc (l3, h) d3 of (rc4, released, l4, d4) \<Rightarrow> Some (rc4, released, Some l4, d4))"

definition logger_dispose_internal_tracked ::
  "worker_env \<Rightarrow> instance_t option \<Rightarrow> domain \<Rightarrow> (int \<times> bool \<times> logger option \<times> domain) option" where
  "logger_dispose_internal_tracked env inst d =
     (case inst of
        None \<Rightarrow> (let e = reject_access d in Some (if e \<noteq> 0 then - e else 0, e = 0, None, d))
      | Some (l, h) \<Rightarrow>
        (case logger_scope_begin d of (rc, d1) \<Rightarrow>
           if rc \<noteq> 0 then Some (rc, False, Some l, d1)
           else map_option (\<lambda>(rc2, released, l2, d2). case logger_scope_end 0 rc2 d2 of (rc3, _, d3) \<Rightarrow> (rc3, released, l2, d3))
             (dispose_body env inst d1)))"

definition logger_dispose_internal :: "worker_env \<Rightarrow> instance_t option \<Rightarrow> domain \<Rightarrow> (int \<times> domain) option" where
  "logger_dispose_internal env inst d = map_option (\<lambda>(rc, _, _, d1). (rc, d1)) (logger_dispose_internal_tracked env inst d)"

section \<open>The public entries\<close>

definition cancel_unreturned_logger :: "worker_env \<Rightarrow> instance_t option \<Rightarrow> domain \<Rightarrow> domain option" where
  "cancel_unreturned_logger env inst d = map_option snd (logger_dispose_internal env inst d)"

text \<open>The hand-over: when leaving the scope fails, the candidate is torn down.\<close>

definition finish_create :: "worker_env \<Rightarrow> errno + instance_t \<Rightarrow> domain \<Rightarrow> ((errno + instance_t) \<times> domain) option" where
  "finish_create env candidate d =
     (case logger_scope_end 0 (case candidate of Inl e \<Rightarrow> - errno_or e EIO | Inr _ \<Rightarrow> 0) d of (rc, _, d1) \<Rightarrow>
        if rc = 0 then Some (candidate, d1)
        else map_option (\<lambda>d2. (Inl (- rc), d2))
          (cancel_unreturned_logger env (case candidate of Inl _ \<Rightarrow> None | Inr inst \<Rightarrow> Some inst) d1))"

definition create_entry :: "create_env \<Rightarrow> (logger_config_t \<times> u8 list) option \<Rightarrow> domain \<Rightarrow> ((errno + instance_t) \<times> domain) option" where
  "create_entry env input d =
     (case logger_scope_begin d of (rc, d1) \<Rightarrow>
        if rc \<noteq> 0 then Some (Inl (- rc), d1)
        else case pthread_call d1 of (rc1, d2) \<Rightarrow>
          case (if rc1 = 0 then pthread_call d2 else (rc1, d2)) of (rc2, d3) \<Rightarrow>
            if rc2 \<noteq> 0 \<or> ce_async_cancel env
            then (case logger_scope_end 0 (if rc2 \<noteq> 0 then - rc2 else - ENOTSUP) d3 of (rc3, _, d4) \<Rightarrow> Some (Inl (- rc3), d4))
            else case create_logger env input d3 of
              None \<Rightarrow> None
            | Some (candidate, d4) \<Rightarrow> finish_create (ce_join env) candidate d4)"

text \<open>\<open>out\<close> is the caller's slot: no slot, an empty one, or one with an owner.\<close>

definition logger_create ::
  "create_env \<Rightarrow> (logger_config_t \<times> u8 list) option \<Rightarrow> instance_t option option \<Rightarrow> domain \<Rightarrow> (int \<times> instance_t option option \<times> domain) option" where
  "logger_create env input out d =
     (let e = reject_access d in
      if e \<noteq> 0 then Some (- e, out, d)
      else case out of
        None \<Rightarrow> Some (- EINVAL, out, d)
      | Some (Some _) \<Rightarrow> Some (- EBUSY, out, d)
      | Some None \<Rightarrow>
        map_option (\<lambda>(r, d1). case r of Inl e \<Rightarrow> (- errno_or e EIO, out, d1) | Inr inst \<Rightarrow> (0, Some (Some inst), d1))
          (create_entry env input d))"

definition logger_destroy ::
  "worker_env \<Rightarrow> instance_t option option \<Rightarrow> thread_state \<Rightarrow> domain \<Rightarrow> (int \<times> instance_t option option \<times> thread_state \<times> domain) option" where
  "logger_destroy env owner t0 d =
     (let t = logger_destroy_receipt_reset t0; e = reject_access d in
      if e \<noteq> 0 then Some (- e, owner, t, d)
      else case owner of
        None \<Rightarrow> Some (- EINVAL, owner, t, d)
      | Some None \<Rightarrow> Some (0, owner, t\<lparr>destroy_receipt := True\<rparr>, d)
      | Some (Some (l, h)) \<Rightarrow>
        (case logger_scope_begin d of (rc, d1) \<Rightarrow>
           if rc \<noteq> 0 then Some (rc, owner, t, d1)
           else if default_borrowed l
           then (case logger_scope_end 0 (- EBUSY) d1 of (rc2, _, d2) \<Rightarrow> Some (rc2, owner, t, d2))
           else map_option (\<lambda>(rc2, released, _, d2).
                  case logger_scope_end 0 rc2 d2 of (rc3, _, d3) \<Rightarrow> (rc3, Some None, t\<lparr>destroy_receipt := released\<rparr>, d3))
                (dispose_body env (Some (l, h)) d1)))"

end
