(* ===== verification/Logger_Session.thy ===== *)
theory Logger_Session
  imports Logger_View Logger_Lifecycle Logger_Worker_Props
begin

text \<open>
  Views of the process that no output reaches: beside what \<open>domain_view\<close> asks for, such a view does not
  look at \<^verbatim>\<open>stderr\<close>, the datagrams and the signals. Every operation of the outputs, of the worker and of the
  memory of an instance keeps it. The instance of interest holds the identity of the process, its
  admission state, the live instances, the default binding and the console's settings.
\<close>

locale session_view = domain_view +
  assumes view_streams [simp]:
    "view (d\<lparr>k_stderr := s1\<rparr>) = view d" "view (d\<lparr>k_sent := s2\<rparr>) = view d" "view (d\<lparr>k_sig_blocked := s3\<rparr>) = view d"
    "view (d\<lparr>k_sig_pending := s4\<rparr>) = view d" "view (d\<lparr>k_sig_raised := s5\<rparr>) = view d"
begin

section \<open>Memory\<close>

lemma os_call_view [simp]: "view (snd (os_call d)) = view d"
  by (simp add: os_call_def case_prod_beta split: sum.splits)

lemma link_view [simp]: "view (link_allocation a n d) = view d"
  by (simp add: link_allocation_def view_runtime runtime_kept_def)

lemma memory_view [simp]:
  "view (snd (logger_runtime_calloc n b d)) = view d" "view (snd (logger_runtime_free p d)) = view d"
  by (simp_all add: logger_runtime_calloc_def logger_runtime_free_def Let_def view_runtime runtime_kept_def case_prod_beta split: option.splits)

lemma release_parts_view [simp]: "view (release_parts as d) = view d"
  by (induction as arbitrary: d) simp_all

lemma allocate_parts_view [simp]: "view (snd (allocate_parts ps got d)) = view d"
proof (induction ps arbitrary: got d)
  case (Cons p ps)
  obtain n b where p: "p = (n, b)" by fastforce
  obtain r d1 where c: "logger_runtime_calloc n b d = (r, d1)" by fastforce
  have "view d1 = view d" using memory_view(1) [of n b d] c by simp
  then show ?case using Cons.IH p c by (cases r) simp_all
qed simp

lemma workspace_view [simp]:
  "view (snd (logger_worker_workspace_create n d)) = view d" "view (logger_worker_workspace_destroy w d) = view d"
  by (simp_all del: allocate_parts.simps add: logger_worker_workspace_create_def logger_worker_workspace_destroy_def Let_def
      case_prod_beta split: sum.splits option.splits)

lemma queue_memory_view [simp]:
  "view (snd (snd (acquire_queue n d))) = view d" "view (snd (snd (init_queue n d))) = view d"
  "view (snd (snd (destroy_queue q h d))) = view d"
  by (simp_all add: acquire_queue_def init_queue_def destroy_queue_def Let_def case_prod_beta split: sum.splits)

section \<open>The outputs\<close>

lemma flock_retry_view [simp]: "view (snd (flock_retry fd d)) = view d"
proof (induction fd d rule: flock_retry.induct)
  case (1 fd d)
  obtain r d1 where call: "sys_flock fd d = (r, d1)" by fastforce
  then have "view d1 = view d" using calls_view(5) [of fd d] by simp
  then show ?case using 1 [OF call [symmetric]] by (simp add: flock_retry.simps [of fd d] call split: sum.splits)
qed

lemma close_view [simp]:
  "view (snd (snd (logger_file_close_status fp d))) = view d" "view (snd (logger_file_close f d)) = view d"
  by (simp_all add: logger_file_close_def logger_file_close_status_def case_prod_beta split: option.splits)

lemma bind_path_view [simp]: "view (snd (snd (bind_path f p d))) = view d"
  by (simp add: bind_path_def Let_def case_prod_beta split: option.splits sum.splits)

lemma reserve_lock_view [simp]: "view (snd (snd (reserve_lock f d))) = view d"
  by (simp add: reserve_lock_def Let_def case_prod_beta split: sum.splits)

lemma reserve_view [simp]: "view (snd (snd (logger_file_reserve p r m d))) = view d"
proof -
  let ?f0 = "LOGGER_FILE_EMPTY\<lparr>f_rotation := r, f_mode := (if m \<noteq> 0 then m else 0x1A0),
      f_iov_max := (if 0 < k_iov_max d \<and> k_iov_max d \<le> 0x7FFFFFFF then k_iov_max d else 16)\<rparr>"
  obtain rc f1 d1 where c1: "bind_path ?f0 p d = (rc, f1, d1)" using prod_cases3 by blast
  then have v1: "view d1 = view d" using bind_path_view [of ?f0 p d] by simp
  obtain rc2 f2 d2 where c2: "(if rc = 0 \<and> f_managed f1 then reserve_lock f1 d1 else (rc, f1, d1)) = (rc2, f2, d2)" using prod_cases3 by blast
  then have "view d2 = view d1" by (metis reserve_lock_view snd_conv)
  then show ?thesis using v1 unfolding logger_file_reserve_def Let_def c1 prod.case c2 by (simp add: case_prod_beta)
qed

lemma open_reserved_view [simp]:
  "view (snd (snd (logger_file_open_reserved f d))) = view d" "view (snd (snd (logger_file_init p r m d))) = view d"
  by (simp_all add: logger_file_open_reserved_def logger_file_init_def case_prod_beta split: sum.splits)

lemma monotonic_view [simp]: "view (snd (monotonic_ms d)) = view d"
  by (simp add: monotonic_ms_def Let_def case_prod_beta split: sum.splits)

lemma syslog_close_view [simp]:
  "view (snd (snd (logger_syslog_close_status s d))) = view d" "view (snd (logger_syslog_close s d)) = view d"
  by (simp_all add: logger_syslog_close_def logger_syslog_close_status_def Let_def case_prod_beta)

lemma syslog_connect_view [simp]:
  "view (snd (snd (copy_path s p d))) = view d" "view (snd (snd (snd (connect_once s d)))) = view d"
  by (simp_all add: copy_path_def connect_once_def Let_def case_prod_beta split: sum.splits)

lemma syslog_init_view [simp]: "view (snd (snd (logger_syslog_init s i c d))) = view d"
  by (simp add: logger_syslog_init_def Let_def case_prod_beta split: option.splits sum.splits)

lemma send_loop_view [simp]: "view (snd (snd (send_loop k e fd p s d))) = view d"
proof (induction k arbitrary: e s d)
  case (Suc k)
  obtain r d1 where c: "sys_send fd p d = (r, d1)" by fastforce
  have "view (snd (sys_send fd p d)) = view d" by (simp add: sys_send_def case_prod_beta split: option.splits fd_object.splits sum.splits)
  then have "view d1 = view d" using c by simp
  then show ?case using Suc.IH c by (cases r) (simp_all add: Let_def)
qed simp

lemma syslog_write_parts_view [simp]:
  "view (snd (snd (syslog_reconnect s d))) = view d" "view (snd (snd (after_send_failure e s d))) = view d"
  by (simp_all add: syslog_reconnect_def after_send_failure_def Let_def case_prod_beta split: sum.splits)

lemma syslog_write_view [simp]: "view (snd (snd (logger_syslog_write s lv line n d))) = view d"
  by (simp del: send_loop.simps add: logger_syslog_write_def Let_def case_prod_beta split: option.splits sum.splits)

lemma signal_view [simp]:
  "view (snd (snd (sys_block_sigpipe d))) = view d" "view (set_sigmask b d) = view d" "view (snd (sys_restore_sigmask b d)) = view d"
  "view (snd (sys_sigpending d)) = view d" "view (snd (sys_sigtimedwait d)) = view d" "view (raise_sigpipe d) = view d"
  by (simp_all add: sys_block_sigpipe_def set_sigmask_def sys_restore_sigmask_def sys_sigpending_def sys_sigtimedwait_def
      raise_sigpipe_def case_prod_beta)

lemma sigtimedwait_view [simp]: "view (sigtimedwait_loop d) = view d"
proof (induction d rule: sigtimedwait_loop.induct)
  case (1 d)
  obtain r d1 where c: "sys_sigtimedwait d = (r, d1)" by fastforce
  then have "view d1 = view d" using signal_view(5) [of d] by simp
  then show ?case using 1 c by (subst sigtimedwait_loop.simps) (cases r; simp)
qed

lemma guard_view [simp]:
  "view (snd (snd (logger_sigpipe_begin d))) = view d" "view (logger_sigpipe_consume_new b d) = view d"
  "view (snd (logger_sigpipe_end g rc e d)) = view d"
  by (simp_all add: logger_sigpipe_begin_def logger_sigpipe_consume_new_def logger_sigpipe_end_def Let_def case_prod_beta split: sum.splits)

lemma stderr_loop_view [simp]: "view (snd (stderr_loop v d)) = view d"
proof (induction v d rule: stderr_loop.induct)
  case (2 v vs d)
  obtain r d1 where c: "sys_write_stderr (concat (v # vs)) d = (r, d1)" by fastforce
  have "view (snd (sys_write_stderr (concat (v # vs)) d)) = view d"
    by (simp add: sys_write_stderr_def case_prod_beta split: sum.splits)
  then have "view d1 = view d" using c by simp
  then show ?case using 2 c by (subst stderr_loop.simps) (cases r; simp del: concat.simps)
qed simp

lemma stderr_view [simp]: "view (snd (logger_stderr_writev_all v d)) = view d"
  by (simp add: logger_stderr_writev_all_def case_prod_beta)

section \<open>Records and the worker\<close>

lemma emit_outputs_view [simp]: "view (snd (snd (emit_outputs l m fs line n d))) = view d"
  by (simp add: emit_outputs_def case_prod_beta)

lemma syslog_batch_view [simp]: "view (snd (snd (syslog_batch ms lines bs l d))) = view d"
proof (induction ms lines bs l d rule: syslog_batch.induct)
  case (1 m ms line n lines b bs l d)
  obtain r s d1 where c: "logger_syslog_write (syslog_backend l) (m_level m) (Some line) (of_nat n) d = (r, s, d1)" using prod_cases3 by blast
  then have "view d1 = view d" using syslog_write_view [of "syslog_backend l" "m_level m" "Some line" "of_nat n" d] by simp
  then show ?case using 1 c by (cases r) (auto simp: case_prod_beta Let_def)
qed simp_all

lemma batch_view [simp]:
  "view (snd (snd (batch_stderr v bs l d))) = view d" "view (snd (snd (batch_file ms v bs l d))) = view d"
  "view (snd (snd (batch_outputs ms lines bs l d))) = view d" "view (snd (snd (emit_batch l ms t d))) = view d"
  by (simp_all add: batch_stderr_def batch_file_def batch_outputs_def emit_batch_def Let_def case_prod_beta)

lemma worker_round_view [simp]:
  "view (snd (snd (worker_progress l d))) = view d" "view (snd (snd (snd (worker_batch l ms t d)))) = view d"
  "view (snd (worker_leave l d)) = view d"
  by (simp_all add: worker_progress_def worker_batch_def worker_leave_def logger_scope_worker_leave_def Let_def case_prod_beta)

text \<open>A worker that is told to stop does not wait, so no one else acts in between.\<close>

lemma worker_loop_view:
  assumes "\<not> l_running l" "worker_loop fuel events l t d = Some (l', t', d')"
  shows "view d' = view d"
  using assms
proof (induction fuel arbitrary: l t d)
  case (Suc fuel)
  obtain ws where ws: "worker_workspace l = Some ws" using Suc.prems(2) by (auto split: option.splits)
  obtain q ms where c: "logger_queue_drain (l_q l) (w_batch ws) = (q, ms)" by fastforce
  define l1 where "l1 = l\<lparr>l_q := q, worker_workspace := Some (ws\<lparr>w_batch := ms @ drop (length ms) (w_batch ws)\<rparr>)\<rparr>"
  have run: "\<not> l_running l1" using Suc.prems(1) by (simp add: l1_def)
  show ?case
  proof (cases "ms = []")
    case False
    obtain leave l2 t2 d2 where b: "worker_batch l1 ms t d = (leave, l2, t2, d2)" using prod_cases4 by blast
    have "view d2 = view d" using worker_round_view(2) [of l1 ms t d] b by simp
    moreover have "\<not> l_running l2" using worker_batch_keeps [OF b] run by simp
    ultimately show ?thesis using Suc.prems(2) Suc.IH [of l2 t2 d2] ws c False b by (simp add: l1_def split: if_splits)
  next
    case True
    obtain a d1 where c1: "pthread_call d = (a, d1)" by fastforce
    obtain b d2 where c2: "pthread_call d1 = (b, d2)" by fastforce
    have v: "view d1 = view d" "view d2 = view d" using gate_view(1) [of d] gate_view(1) [of d1] c1 c2 by simp_all
    have w: "wait_loop events l1 d1 = Some (l1, d1, events)" using run by (simp add: wait_loop.simps)
    note run1 = Suc.prems(2) [unfolded worker_loop.simps ws option.case c prod.case Let_def l1_def [symmetric]]
    show ?thesis
      using run1 True v run Suc.IH [of "l1\<lparr>l_q := logger_queue_wait_disarm (l_q l1)\<rparr>" t d2]
      by (auto simp: worker_wait_def w c1 c2 Let_def split: if_splits)
  qed
qed simp

lemma worker_main_view:
  assumes "\<not> l_running l" "logger_worker_main fuel events l t d = Some (l', t', d')"
  shows "view d' = view d"
  using assms worker_loop_view [OF assms(1), of fuel events t "logger_scope_worker_enter d"]
  by (auto simp: logger_worker_main_def logger_scope_worker_enter_def case_prod_beta)

lemma join_view:
  assumes "\<not> l_running l" "join_worker env l d = Some (rc, l', d')"
  shows "view d' = view d"
proof -
  obtain a d1 where c: "pthread_call d = (a, d1)" by fastforce
  have "view d1 = view d" using gate_view(1) [of d] c by simp
  then show ?thesis using assms c worker_main_view [OF assms(1)] by (auto simp: join_worker_def split: if_splits)
qed

lemma sync_outputs_view [simp]: "view (snd (snd (logger_sync_outputs_locked l d))) = view d"
  by (simp add: logger_sync_outputs_locked_def Let_def case_prod_beta)

end

section \<open>The process's own state\<close>

definition session_of :: "domain \<Rightarrow> (int \<times> int \<times> bool \<times> int \<times> bool \<times> u32 \<times> bool) \<times> (u32 \<times> nat option \<times> u64 \<times> errno \<times> u32 \<times> errno) option" where
  "session_of d = ((k_pid d, owner_pid d, forked_child d, process_ticket d, initializing d, fork_depth d, in_global d),
     map_option (\<lambda>r. (live_objects r, global_logger r, global_ticket r, global_lock_error r, console_config r, console_lock_error r)) (current d))"

lemma session_runtime: "runtime_kept f \<Longrightarrow> session_of (update_runtime f d) = session_of d"
  by (cases "current d") (simp_all add: session_of_def update_runtime_def runtime_kept_def)

interpretation session: session_view session_of
  by unfold_locales (erule session_runtime | simp add: session_of_def)+

definition live_of :: "domain \<Rightarrow> u32" where
  "live_of d = live_objects (logger_runtime_current d)"

lemma live_session: "session_of d' = session_of d \<Longrightarrow> current d \<noteq> None \<Longrightarrow> live_of d' = live_of d"
  by (auto simp: session_of_def live_of_def logger_runtime_current_def)

end
