(* ===== verification/Logger_Lifecycle_Props.thy ===== *)
theory Logger_Lifecycle_Props
  imports Logger_Session Logger_Core_Props
begin

text \<open>
  The life of an instance: what the constructor delivers, and that the teardown gives memory back only
  after the worker has ended and the queue is empty.
\<close>

section \<open>The counter of live instances and the allocations\<close>

lemma session_current: "session_of d' = session_of d \<Longrightarrow> (current d' = None) = (current d = None)"
  by (auto simp: session_of_def)

lemma object_release_cases:
  assumes "logger_process_object_release d = (rc, d')" "current d \<noteq> None"
  shows "(rc = 0 \<longrightarrow> live_of d' = live_of d - 1) \<and> (rc \<noteq> 0 \<longrightarrow> live_of d' = live_of d) \<and> current d' \<noteq> None"
  using assms by (auto simp: logger_process_object_release_def Let_def live_of_def logger_runtime_current_def update_runtime_def split: if_splits)

lemma object_acquire_cases:
  assumes "logger_process_object_acquire d = (rc, d')" "current d \<noteq> None"
  shows "(rc = 0 \<longrightarrow> live_of d' = live_of d + 1) \<and> (rc \<noteq> 0 \<longrightarrow> live_of d' = live_of d) \<and> current d' \<noteq> None"
  using assms by (auto simp: logger_process_object_acquire_def Let_def live_of_def logger_runtime_current_def update_runtime_def split: if_splits)

abbreviation held_addresses :: "domain \<Rightarrow> nat set" where
  "held_addresses d \<equiv> fst ` set (allocations (logger_runtime_current d))"

lemma current_calls [simp]:
  "current (snd (pthread_call d)) = current d" "current (snd (next_call d)) = current d"
  by (simp_all add: pthread_call_def next_call_def split: list.splits)

lemma leave_held: "current d \<noteq> None \<Longrightarrow> held_addresses (snd (logger_fork_resource_leave e d)) = held_addresses d"
  by (auto simp: logger_fork_resource_leave_def Let_def case_prod_beta logger_fork_resource_poison_def update_runtime_def
      logger_runtime_current_def)

lemma free_releases:
  assumes "logger_runtime_free (Some a) d = (0, d')" "current d \<noteq> None"
  shows "a \<notin> held_addresses d'"
proof -
  obtain e d1 where c1: "logger_fork_resource_enter d = (e, d1)" by fastforce
  obtain u d2 where c2: "os_call d1 = (u, d2)" by fastforce
  let ?d3 = "update_runtime (\<lambda>r. r\<lparr>allocations := filter (\<lambda>x. fst x \<noteq> a) (allocations r), allocation_count := allocation_count r - 1\<rparr>) d2"
  have "session_of d1 = session_of d" using session.enter_leave_view(1) [of d] c1 by simp
  moreover have "session_of d2 = session_of d1" using session.os_call_view [of d1] c2 by simp
  ultimately have cur: "current d2 \<noteq> None" using assms(2) session_current by metis
  have "e = 0 \<and> u = 0 \<and> d' = snd (logger_fork_resource_leave 0 ?d3)"
    using assms(1) c1 c2 by (auto simp: logger_runtime_free_def split: if_splits)
  moreover have "current ?d3 \<noteq> None" "a \<notin> held_addresses ?d3"
    using cur by (auto simp: update_runtime_def logger_runtime_current_def)
  ultimately show ?thesis using leave_held [of ?d3 0] by simp
qed

section \<open>Teardown, stage by stage\<close>

text \<open>What the later stages keep of the worker's work.\<close>

definition tally_of :: "logger \<Rightarrow> u64 \<times> u64 \<times> u64 \<times> u64" where
  "tally_of l = (consumer_records l, async_completed l, emitted_records l, failed_records l)"

lemma tally_notes [simp]:
  "tally_of (logger_note_io_error l e) = tally_of l" "tally_of (logger_note_lifecycle_error l e) = tally_of l"
  "tally_of (logger_note_synchronization_error l e) = tally_of l" "tally_of (l\<lparr>file_backend := f\<rparr>) = tally_of l"
  "tally_of (l\<lparr>syslog_backend := s\<rparr>) = tally_of l" "tally_of (l\<lparr>lifecycle_error := x\<rparr>) = tally_of l"
  "tally_of (l\<lparr>worker_workspace := w\<rparr>) = tally_of l" "tally_of (l\<lparr>l_q := q\<rparr>) = tally_of l" "tally_of (l\<lparr>l_state := st\<rparr>) = tally_of l"
  by (simp_all add: tally_of_def)

lemma sync_outputs_tally:
  assumes "logger_sync_outputs_locked l d = (rc, l', d')"
  shows "tally_of l' = tally_of l \<and> synchronization_error l' = synchronization_error l \<and> session_of d' = session_of d"
proof -
  have "session_of d' = session_of d" using session.sync_outputs_view [of l d] assms by simp
  then show ?thesis using assms by (auto simp: logger_sync_outputs_locked_def Let_def split: if_splits prod.splits)
qed

lemma dispose_sync_stage:
  assumes "dispose_sync l d = (go, rc, l', d')"
  shows "session_of d' = session_of d \<and> (\<not> go \<longrightarrow> rc \<noteq> 0) \<and>
     (go \<longrightarrow> synchronization_error l = 0 \<and> synchronization_error l' = 0 \<and> tally_of l' = tally_of l)"
proof -
  obtain lk d1 where c1: "pthread_call d = (lk, d1)" by fastforce
  obtain r l2 d2 where c2: "(if lifecycle_error l \<noteq> 0 then (- lifecycle_error l, l, d1) else logger_sync_outputs_locked l d1) = (r, l2, d2)"
    using prod_cases3 by blast
  obtain ul d3 where c3: "pthread_call d2 = (ul, d3)" by fastforce
  have k: "tally_of l2 = tally_of l \<and> synchronization_error l2 = synchronization_error l \<and> session_of d2 = session_of d1"
    using c2 sync_outputs_tally [of l d1 r l2 d2] by (auto split: if_splits)
  have v: "session_of d1 = session_of d" "session_of d3 = session_of d2"
    using session.gate_view(1) [of d] session.gate_view(1) [of d2] c1 c3 by simp_all
  note run = assms [unfolded dispose_sync_def c1 prod.case c2 c3]
  show ?thesis
  proof (cases "synchronization_error l \<noteq> 0 \<or> lk \<noteq> 0 \<or> ul \<noteq> 0")
    case True
    then show ?thesis using run v k by (auto split: if_splits)
  next
    case False
    then show ?thesis using run v k by auto
  qed
qed

lemma destroy_if_view: "session_of (snd (destroy_if b s)) = session_of (snd s)"
  by (simp add: destroy_if_def case_prod_beta)

lemma dispose_objects_stage:
  assumes "dispose_objects (l, h) d = (rc, l', d')"
  shows "session_of d' = session_of d \<and> (rc = 0 \<longrightarrow> synchronization_error l' = synchronization_error l \<and> tally_of l' = tally_of l)"
proof -
  obtain qrc l1 d1 where c1: "(if async_mode l
            then (case destroy_queue (l_q l) h (logger_worker_workspace_destroy (worker_workspace l) d) of (qrc, q, d1) \<Rightarrow>
                    (qrc, l\<lparr>worker_workspace := None, l_q := q\<rparr>, d1))
            else (0, l, d)) = (qrc, l1, d1)" using prod_cases3 by blast
  obtain a q d0 where c0: "destroy_queue (l_q l) h (logger_worker_workspace_destroy (worker_workspace l) d) = (a, q, d0)" using prod_cases3 by blast
  have v0: "session_of d0 = session_of d"
    using session.queue_memory_view(3) [of "l_q l" h "logger_worker_workspace_destroy (worker_workspace l) d"] c0 by simp
  have both: "l1 = l \<and> d1 = d \<or> l1 = l\<lparr>worker_workspace := None, l_q := q\<rparr> \<and> d1 = d0"
    using c1 unfolding c0 prod.case by (cases "async_mode l") simp_all
  have k: "session_of d1 = session_of d" using both v0 by metis
  have k2: "synchronization_error l1 = synchronization_error l" "tally_of l1 = tally_of l" using both by auto
  obtain rc2 d2 where c2: "destroy_if True (destroy_if True (destroy_if True (0, d1))) = (rc2, d2)" by fastforce
  have "session_of d2 = session_of d1" using destroy_if_view c2 by (metis snd_conv)
  then show ?thesis using assms k k2 unfolding dispose_objects_def prod.case c1 c2 by (auto split: if_splits)
qed

lemma dispose_release_stage:
  assumes "dispose_release rc0 (l, h) d = (rc, released, l', d')" "current d \<noteq> None"
  shows "(released \<longrightarrow> l_state l' = LOGGER_STATE_STOPPED \<and> live_of d' = live_of d - 1 \<and> h_address h \<notin> held_addresses d' \<and>
       synchronization_error l' = synchronization_error l \<and> tally_of l' = tally_of l) \<and>
     (\<not> released \<longrightarrow> rc \<noteq> 0 \<and> live_of d' \<in> {live_of d, live_of d - 1})"
proof -
  obtain close_rc f d1 where c1: "logger_file_close_status (Some (file_backend l)) d = (close_rc, f, d1)" using prod_cases3 by blast
  obtain syslog_rc s d2 where c2: "logger_syslog_close_status (syslog_backend l) d1 = (syslog_rc, s, d2)" using prod_cases3 by blast
  obtain rel d3 where c3: "logger_process_object_release d2 = (rel, d3)" by fastforce
  obtain fr d4 where c4: "logger_runtime_free (Some (h_address h)) d3 = (fr, d4)" by fastforce
  have "session_of d1 = session_of d" using session.close_view(1) [of "Some (file_backend l)" d] c1 by simp
  moreover have "session_of d2 = session_of d1" using session.syslog_close_view(1) [of "syslog_backend l" d1] c2 by simp
  ultimately have v2: "session_of d2 = session_of d" by simp
  then have cur2: "current d2 \<noteq> None" "live_of d2 = live_of d" using assms(2) session_current live_session by metis+
  note R = object_release_cases [OF c3 cur2(1)]
  have "session_of d4 = session_of d3" using session.memory_view(2) [of "Some (h_address h)" d3] c4 by simp
  then have l4: "live_of d4 = live_of d3" using live_session R by metis
  note run = assms(1) [unfolded dispose_release_def prod.case c1 c2 Let_def c3 c4]
  show ?thesis
  proof (cases "rel \<noteq> 0 \<or> fr \<noteq> 0")
    case True
    then show ?thesis using run R l4 cur2 by (auto simp: first_rc_def split: if_splits)
  next
    case False
    then show ?thesis using run R l4 cur2 free_releases [of "h_address h" d3 d4] c4 by auto
  qed
qed

text \<open>The worker's part: joined and drained, or stopped by an error.\<close>

definition worker_ready :: "logger \<Rightarrow> bool" where
  "worker_ready l \<longleftrightarrow> (async_mode l \<longrightarrow> queue_inv (l_q l) \<and>
     (\<exists>ws. worker_workspace l = Some ws \<and> w_batch ws \<noteq> [] \<and> list_all message_wf (w_batch ws)))"

lemma dispose_worker_stage:
  assumes "worker_ready l" "calm (we_wake env)" "length (queue_contents (l_q l)) + 1 \<le> we_fuel env"
  obtains rc l' d' where "dispose_worker env l d = Some (rc, l', d')" "session_of d' = session_of d"
    "rc = 0 \<Longrightarrow> async_mode l \<Longrightarrow> \<exists>n. records_taken n l l' \<and> (synchronization_error l' = 0 \<longrightarrow> queue_contents (l_q l') = [])"
proof (cases "async_mode l")
  case False
  then show ?thesis using that [of 0 l d] by (simp add: dispose_worker_def)
next
  case True
  obtain wrc q where w: "logger_queue_wake_force (we_wake env) (l_q l) = (wrc, q)" by fastforce
  have r: "ring_eq (l_q l) q" by (rule wake_force_ring [OF assms(2) w])
  let ?l2 = "l\<lparr>l_running := False, l_q := q\<rparr>"
  have ready: "queue_inv (l_q l)" using assms(1) True by (simp add: worker_ready_def)
  have q: "queue_inv q" "queue_contents q = queue_contents (l_q l)" using ready ring_eq_queue_inv [OF r] ring_eq_contents [OF r] by simp_all
  have stopping: "worker_stopping ?l2" using assms(1) True q by (simp add: worker_ready_def worker_stopping_def)
  have moved: "records_taken n l l'" if "records_taken n ?l2 l'" for n l'
    using that q by (simp add: records_taken_def)
  show ?thesis
  proof (cases "wrc = 0")
    case False
    then show ?thesis using that True w by (auto simp: dispose_worker_def Let_def)
  next
    case wrc: True
    obtain a d1 where c: "pthread_call d = (a, d1)" by fastforce
    obtain l3 t3 d3 n where m: "logger_worker_main (we_fuel env) (we_events env) ?l2 (we_thread env) d1 = Some (l3, t3, d3)"
      "records_taken n ?l2 l3" "synchronization_error l3 = 0 \<longrightarrow> queue_contents (l_q l3) = []"
      using worker_main_drains [OF stopping, of "we_fuel env"] assms(3) q by auto blast
    have j: "join_worker env ?l2 d = Some (a, if a \<noteq> 0 then ?l2 else l3, if a \<noteq> 0 then d1 else d3\<lparr>in_runtime := in_runtime d1\<rparr>)"
      using c m(1) by (simp add: join_worker_def)
    have v: "session_of (if a \<noteq> 0 then d1 else d3\<lparr>in_runtime := in_runtime d1\<rparr>) = session_of d"
      by (rule session.join_view [OF _ j]) simp
    have run: "dispose_worker env l d = Some (if a \<noteq> 0 then (- a, ?l2\<lparr>lifecycle_error := sticky (lifecycle_error ?l2) a\<rparr>, d1)
        else (0, l3, d3\<lparr>in_runtime := in_runtime d1\<rparr>))"
      using True wrc w j by (simp add: dispose_worker_def Let_def)
    show ?thesis
    proof (cases "a = 0")
      case a: True
      show ?thesis using that [of 0 l3 "d3\<lparr>in_runtime := in_runtime d1\<rparr>"] run a v m moved by auto
    next
      case a: False
      show ?thesis using that [of "- a" _ d1] run a v by auto
    qed
  qed
qed

lemma dispose_body_correct:
  assumes "worker_ready l" "calm (we_wake env)" "length (queue_contents (l_q l)) + 1 \<le> we_fuel env" "current d \<noteq> None"
  shows "\<exists>rc released l' d'. dispose_body env (Some (l, h)) d = Some (rc, released, Some l', d') \<and>
     (released \<longrightarrow> l_state l' = LOGGER_STATE_STOPPED \<and> synchronization_error l' = 0 \<and> live_of d' = live_of d - 1 \<and>
        h_address h \<notin> held_addresses d' \<and>
        (async_mode l \<longrightarrow> consumer_records l' = consumer_records l + of_nat (length (queue_contents (l_q l))) \<and>
           async_completed l' = async_completed l + of_nat (length (queue_contents (l_q l))))) \<and>
     (\<not> released \<longrightarrow> rc \<noteq> 0 \<and> live_of d' \<in> {live_of d, live_of d - 1})"
proof -
  define l0 where "l0 = l\<lparr>l_state := LOGGER_STATE_STOPPING\<rparr>"
  define e where "e = (if synchronization_error l0 = 0 \<and> async_mode l0 then logger_queue_wait_error (l_q l0) else synchronization_error l0)"
  have run: "dispose_body env (Some (l, h)) d = (if e \<noteq> 0 then Some (- e, False, Some (logger_note_lifecycle_error l0 e), d)
           else case dispose_worker env l0 d of
             None \<Rightarrow> None
           | Some (wrc, l1, d1) \<Rightarrow>
             if wrc \<noteq> 0 then Some (wrc, False, Some l1, d1)
             else case dispose_sync l1 d1 of (go, rc, l2, d2) \<Rightarrow>
               if \<not> go then Some (rc, False, Some l2, d2)
               else case dispose_objects (l2, h) d2 of (orc, l3, d3) \<Rightarrow>
                 if orc \<noteq> 0 then Some (orc, False, Some l3, d3)
                 else case dispose_release rc (l3, h) d3 of (rc4, released, l4, d4) \<Rightarrow> Some (rc4, released, Some l4, d4))"
    by (simp add: dispose_body_def e_def l0_def Let_def)
  have l0: "worker_ready l0" "queue_contents (l_q l0) = queue_contents (l_q l)" "async_mode l0 = async_mode l"
    "consumer_records l0 = consumer_records l" "async_completed l0 = async_completed l"
    using assms(1) by (simp_all add: l0_def worker_ready_def)
  obtain wrc l1 d1 where w: "dispose_worker env l0 d = Some (wrc, l1, d1)" "session_of d1 = session_of d"
    "wrc = 0 \<Longrightarrow> async_mode l0 \<Longrightarrow> \<exists>n. records_taken n l0 l1 \<and> (synchronization_error l1 = 0 \<longrightarrow> queue_contents (l_q l1) = [])"
    using dispose_worker_stage [OF l0(1) assms(2)] assms(3) l0(2) by metis
  obtain go rc l2 d2 where s: "dispose_sync l1 d1 = (go, rc, l2, d2)" using prod_cases4 by blast
  obtain orc l3 d3 where o: "dispose_objects (l2, h) d2 = (orc, l3, d3)" using prod_cases3 by blast
  obtain rc4 released l4 d4 where r: "dispose_release rc (l3, h) d3 = (rc4, released, l4, d4)" using prod_cases4 by blast
  note S = dispose_sync_stage [OF s] and O = dispose_objects_stage [OF o]
  have v: "session_of d2 = session_of d" "session_of d3 = session_of d" using S O w(2) by simp_all
  have live: "live_of d1 = live_of d" "live_of d2 = live_of d" "live_of d3 = live_of d" "current d3 \<noteq> None"
    using live_session [OF _ assms(4)] session_current assms(4) v w(2) by metis+
  note R = dispose_release_stage [OF r live(4)]
  show ?thesis
  proof (cases "e \<noteq> 0 \<or> wrc \<noteq> 0 \<or> \<not> go \<or> orc \<noteq> 0")
    case True
    then show ?thesis using run w(1) s o live S by (auto split: if_splits)
  next
    case False
    then have out: "dispose_body env (Some (l, h)) d = Some (rc4, released, Some l4, d4)" using run w(1) s o r by simp
    have "consumer_records l4 = consumer_records l + of_nat (length (queue_contents (l_q l))) \<and>
        async_completed l4 = async_completed l + of_nat (length (queue_contents (l_q l)))" if rel: "released" and asy: "async_mode l"
    proof -
      obtain n where n: "records_taken n l0 l1" "queue_contents (l_q l1) = []" using w(3) False S l0(3) asy by auto
      then have "n = length (queue_contents (l_q l))" using l0(2) by (auto simp: records_taken_def)
      moreover have "tally_of l4 = tally_of l1" using R S O False rel by simp
      ultimately show ?thesis using n(1) l0 by (simp add: tally_of_def records_taken_def)
    qed
    then show ?thesis using out R S O False live by auto
  qed
qed

end
