(* ===== verification/Logger_Create_Props.thy ===== *)
theory Logger_Create_Props
  imports Logger_Lifecycle_Props
begin

text \<open>
  What the constructor delivers: a running instance of a valid configuration, with an empty queue and
  all counters at zero, counted once; and what a failed construction leaves behind.
\<close>

section \<open>Types\<close>

definition instance_typed :: "logger \<Rightarrow> bool" where
  "instance_typed l \<longleftrightarrow> as_unsigned (l_level l) \<le> LOGGER_OFF \<and> as_unsigned (l_detail l) \<le> LOGGER_DETAIL_DEBUG \<and>
     l_outputs l \<noteq> 0 \<and> l_outputs l AND NOT 7 = 0 \<and> l_file_mode l AND NOT 0x1FF = 0 \<and>
     as_unsigned (flush_level l) \<le> LOGGER_OFF \<and> length (l_overflow l) = 6 \<and>
     list_all (\<lambda>p. as_unsigned p \<le> LOGGER_OVERFLOW_SYNC) (l_overflow l) \<and> length (dropped_by_level l) = 6"

lemma fields_typed:
  assumes "validate_logger_config cfg = 0"
  shows "instance_typed (logger_ctor_init_fields cfg d)"
proof -
  have m: "LOGGER_OUT_STDERR OR LOGGER_OUT_FILE OR LOGGER_OUT_SYSLOG = (7 :: u32)" by simp
  have "list_all (\<lambda>i. as_unsigned (c_overflow cfg ! i) \<le> LOGGER_OVERFLOW_SYNC) [0..<6]"
    using assms unfolding validate_logger_config_def Let_def m
    by (auto simp: list_ex_iff list_all_iff not_less split: if_splits)
  moreover have "as_unsigned (c_level cfg) \<le> LOGGER_OFF" "as_unsigned (c_detail cfg) \<le> LOGGER_DETAIL_DEBUG" "c_outputs cfg \<noteq> 0"
    "c_outputs cfg AND NOT 7 = 0" "c_file_mode cfg AND NOT 0x1FF = 0" "as_unsigned (c_flush_level cfg) \<le> LOGGER_OFF"
    using assms unfolding validate_logger_config_def Let_def m by (auto simp: not_less split: if_splits)
  ultimately show ?thesis
    by (simp add: instance_typed_def logger_ctor_init_fields_def Let_def list_all_iff)
qed

lemma typed_steady: "steady l l' \<Longrightarrow> instance_typed l \<Longrightarrow> instance_typed l'"
  by (auto simp: instance_typed_def steady_def evolves_def frozen_def)

definition counters_of :: "logger \<Rightarrow> u64 \<times> u64 \<times> u64 \<times> u64 \<times> errno \<times> errno" where
  "counters_of l = (async_completed l, sync_completed l, emitted_records l, failed_records l, lifecycle_error l, synchronization_error l)"

section \<open>The stages of the constructor\<close>

lemma ctor_outputs_steady:
  assumes "ctor_outputs cfg l d = (e, l', d')"
  shows "steady l l' \<and> l_q l' = l_q l \<and> l_state l' = l_state l \<and> session_of d' = session_of d"
proof -
  obtain e1 l1 d1 where c1: "(if l_outputs l AND LOGGER_OUT_FILE \<noteq> 0
            then (case logger_file_init (c_file_path cfg) (c_rotation cfg) (l_file_mode l) d of (e, f, d1) \<Rightarrow> (e, l\<lparr>file_backend := f\<rparr>, d1))
            else (0, l, d)) = (e1, l1, d1)" using prod_cases3 by blast
  have k1: "steady l l1 \<and> l_q l1 = l_q l \<and> l_state l1 = l_state l" using c1 by (auto split: if_splits prod.splits)
  have v1: "session_of d1 = session_of d"
    using c1 session.open_reserved_view(2) [of "c_file_path cfg" "c_rotation cfg" "l_file_mode l" d]
    by (cases "logger_file_init (c_file_path cfg) (c_rotation cfg) (l_file_mode l) d") (auto split: if_splits)
  obtain r s d2 where c2: "logger_syslog_init (syslog_backend l1) (c_ident cfg) (Some (c_syslog cfg)) d1 = (r, s, d2)" using prod_cases3 by blast
  have v2: "session_of d2 = session_of d1"
    using session.syslog_init_view [of "syslog_backend l1" "c_ident cfg" "Some (c_syslog cfg)" d1] c2 by simp
  note run = assms [unfolded ctor_outputs_def c1 prod.case c2 Let_def]
  show ?thesis
  proof (cases "e1 \<noteq> 0 \<or> l_outputs l1 AND LOGGER_OUT_SYSLOG = 0")
    case True
    then show ?thesis using run k1 v1 by (auto split: if_splits)
  next
    case False
    then show ?thesis using run k1 v1 v2
      by (cases r) (auto simp: logger_note_io_error_def intro: steady_io [unfolded logger_note_io_error_def])
  qed
qed

lemma ctor_outputs_counters:
  assumes "ctor_outputs cfg l d = (e, l', d')"
  shows "counters_of l' = counters_of l"
  using assms by (auto simp: ctor_outputs_def counters_of_def Let_def logger_note_io_error_def split: if_splits prod.splits sum.splits)

lemma ctor_locks_view: "ctor_locks d = (rc, st, d') \<Longrightarrow> session_of d' = session_of d"
  by (auto simp: ctor_locks_def Let_def split: if_splits prod.splits dest: arg_cong [where f = snd])
     (metis session.gate_view(1) snd_conv)+

lemma init_queue_stage:
  assumes "init_queue n d = ((rc, e, q), blocks, d')"
  shows "session_of d' = session_of d \<and> (rc = 0 \<longrightarrow> queue_inv q \<and> queue_contents q = [])"
proof -
  have "session_of d' = session_of d" using session.queue_memory_view(2) [of n d] assms by simp
  moreover have "\<exists>env. logger_queue_init env n = (rc, e, q)"
    using assms by (auto simp: init_queue_def split: sum.splits prod.splits)
  then obtain env where i: "logger_queue_init env n = (rc, e, q)" by blast
  have "queue_inv q \<and> queue_contents q = []" if "rc = 0"
  proof (cases "unat n \<le> 2 ^ 53 \<and> init_env_ok env")
    case True
    then show ?thesis using init_result i by fastforce
  next
    case False
    then show ?thesis using init_failure [OF _ i] that by auto
  qed
  ultimately show ?thesis by blast
qed

lemma workspace_stage:
  assumes "logger_worker_workspace_create n d = (Inr ws, d')"
  shows "w_batch ws \<noteq> [] \<and> list_all message_wf (w_batch ws)"
proof -
  let ?c0 = "if n < of_nat BATCH_MAX then n else of_nat BATCH_MAX"
  let ?c = "if ?c0 = 0 then 1 else ?c0"
  have "0 < unat ?c" by (simp add: unat_gt_0)
  moreover have "w_batch ws = replicate (unat ?c) (blank_message 0)"
    using assms unfolding logger_worker_workspace_create_def Let_def by (simp del: allocate_parts.simps split: sum.splits prod.splits) auto
  ultimately show ?thesis by (simp add: list_all_iff)
qed

lemma start_worker_stage:
  assumes "logger_ctor_start_worker cfg (l, h) st d = (rc, (l', h'), st', d')" "instance_typed l"
  shows "session_of d' = session_of d \<and> h_address h' = h_address h \<and>
     (rc = 0 \<longrightarrow> instance_typed l' \<and> l_state l' = l_state l \<and> counters_of l' = counters_of l \<and> async_mode l' = async_mode l \<and>
       (async_mode l \<longrightarrow> queue_contents (l_q l') = []) \<and> worker_ready l')"
proof (cases "async_mode l")
  case False
  then show ?thesis using assms by (simp add: logger_ctor_start_worker_def worker_ready_def)
next
  case True
  obtain qrc e q slots spills d1 where i: "init_queue (if c_queue_capacity cfg \<noteq> 0 then c_queue_capacity cfg else 8192) d = ((qrc, e, q), (slots, spills), d1)"
    by (metis prod.exhaust)
  note I = init_queue_stage [OF i]
  obtain r d2 where w: "logger_worker_workspace_create (q_cap q) d1 = (r, d2)" by fastforce
  have v2: "session_of d2 = session_of d1" using session.workspace_view(1) [of "q_cap q" d1] w by simp
  obtain crc d3 where c: "pthread_call d2 = (crc, d3)" by fastforce
  have v3: "session_of d3 = session_of d2" using session.gate_view(1) [of d2] c by simp
  note run = assms(1) [unfolded logger_ctor_start_worker_def prod.case i Let_def w]
  show ?thesis
  proof (cases "qrc \<noteq> 0 \<or> isl r")
    case True
    then show ?thesis using run \<open>async_mode l\<close> I v2
      by (cases r) (auto simp: errno_or_def split: if_splits)
  next
    case False
    then obtain ws where ws: "r = Inr ws" by (cases r) auto
    show ?thesis
      using run \<open>async_mode l\<close> I v2 v3 False ws c workspace_stage [OF w [unfolded ws]] assms(2)
      by (auto simp: worker_ready_def instance_typed_def counters_of_def split: if_splits)
  qed
qed

text \<open>Before the constructor publishes the instance the worker finds an empty queue and at most arms its wait.\<close>

definition worker_idle :: "create_env \<Rightarrow> bool" where
  "worker_idle env \<longleftrightarrow> (\<forall>l d. case ce_worker env (l, d) of (l', d') \<Rightarrow>
     steady l l' \<and> counters_of l' = counters_of l \<and> l_state l' = l_state l \<and> ring_eq (l_q l) (l_q l') \<and>
     worker_workspace l' = worker_workspace l \<and> session_of d' = session_of d)"

lemma ctor_build_stage:
  assumes "ctor_build env cfg (logger_ctor_init_fields cfg d0, h) d = (e, (l', h'), st, d')" "validate_logger_config cfg = 0" "worker_idle env"
  shows "session_of d' = session_of d \<and> h_address h' = h_address h \<and>
     (e = 0 \<longrightarrow> instance_typed l' \<and> l_state l' = LOGGER_STATE_RUNNING \<and> counters_of l' = (0, 0, 0, 0, 0, 0) \<and>
       (async_mode l' \<longrightarrow> queue_contents (l_q l') = []) \<and> worker_ready l')"
proof -
  let ?l = "logger_ctor_init_fields cfg d0"
  have l: "instance_typed ?l" "counters_of ?l = (0, 0, 0, 0, 0, 0)" "l_state ?l = LOGGER_STATE_CREATED"
    using fields_typed [OF assms(2)] by (simp_all add: counters_of_def logger_ctor_init_fields_def Let_def)
  obtain rc st1 d1 where c1: "ctor_locks d = (rc, st1, d1)" using prod_cases3 by blast
  obtain e2 l2 d2 where c2: "ctor_outputs cfg ?l d1 = (e2, l2, d2)" using prod_cases3 by blast
  obtain wrc l3 h3 st3 d3 where c3: "logger_ctor_start_worker cfg (l2, h) st1 d2 = (wrc, (l3, h3), st3, d3)" by (metis prod.exhaust)
  obtain l4 d4 where c4: "(if worker_started st3 then ce_worker env (l3, d3) else (l3, d3)) = (l4, d4)" by fastforce
  note v1 = ctor_locks_view [OF c1] and k2 = ctor_outputs_steady [OF c2]
  have t2: "instance_typed l2" "counters_of l2 = counters_of ?l" using k2 l typed_steady by (blast, simp add: ctor_outputs_counters [OF c2])
  note k3 = start_worker_stage [OF c3 t2(1)]
  have k4: "steady l3 l4 \<and> counters_of l4 = counters_of l3 \<and> l_state l4 = l_state l3 \<and> ring_eq (l_q l3) (l_q l4) \<and>
      worker_workspace l4 = worker_workspace l3 \<and> session_of d4 = session_of d3"
    using c4 assms(3) by (auto simp: worker_idle_def ring_eq_def split: if_splits prod.splits)
  note run = assms(1) [unfolded ctor_build_def prod.case c1 c2 c3 c4]
  consider "rc \<noteq> 0" | "rc = 0" "e2 \<noteq> 0" | "rc = 0" "e2 = 0" "wrc \<noteq> 0" | "rc = 0" "e2 = 0" "wrc = 0" by blast
  then show ?thesis
  proof cases
    case 1
    then show ?thesis using run v1 by simp
  next
    case 2
    then have "e = e2" "h' = h" "d' = d2" using run by simp_all
    moreover have "session_of d2 = session_of d" using v1 k2 by metis
    ultimately show ?thesis using 2 by simp
  next
    case 3
    then have "e = - wrc" "h' = h3" "d' = d3" using run by simp_all
    moreover have "session_of d3 = session_of d" "h_address h3 = h_address h" using v1 k2 k3 by metis+
    ultimately show ?thesis using 3 by simp
  next
    case False: 4
    have "steady l3 l4" "instance_typed l3" using k4 k3 False by blast+
    then have a: "async_mode l4 = async_mode l3" "instance_typed l4"
      by (simp add: steady_def evolves_def frozen_def, metis typed_steady)
    have q: "queue_inv (l_q l4) = queue_inv (l_q l3)" "queue_contents (l_q l4) = queue_contents (l_q l3)"
      using k4 ring_eq_queue_inv ring_eq_contents by blast+
    have "instance_typed (l4\<lparr>l_state := x\<rparr>)" "counters_of (l4\<lparr>l_state := x\<rparr>) = counters_of l4" "worker_ready (l4\<lparr>l_state := x\<rparr>) = worker_ready l3" for x
      using a q k4 unfolding instance_typed_def counters_of_def worker_ready_def by simp_all
    moreover have "h' = h3" "d' = d4" "e = 0 \<Longrightarrow> l_state l4 = LOGGER_STATE_CREATED \<and> l' = l4\<lparr>l_state := LOGGER_STATE_RUNNING\<rparr>"
      using run False by (auto simp: errno_or_def split: if_splits)
    moreover have "session_of d4 = session_of d" "h_address h3 = h_address h" using v1 k2 k3 k4 by metis+
    ultimately show ?thesis using False a q l t2 k3 k4 by simp
  qed
qed

section \<open>Rollback\<close>

lemma live_kept: "session_of d' = session_of d \<Longrightarrow> current d \<noteq> None \<Longrightarrow> live_of d' = live_of d \<and> current d' \<noteq> None"
  using live_session session_current by metis

lemma rollback_resources_live:
  assumes "rollback_resources (l, h) st d = (rc, l', d')" "current d \<noteq> None"
  shows "live_of d' \<in> {live_of d, live_of d - 1}"
proof -
  let ?d1 = "logger_worker_workspace_destroy (worker_workspace l) d"
  let ?l1 = "l\<lparr>worker_workspace := None\<rparr>"
  obtain qrc q d2 where c2: "(if queue_ready st then destroy_queue (l_q ?l1) h ?d1 else (0, l_q ?l1, ?d1)) = (qrc, q, d2)" using prod_cases3 by blast
  have v2: "session_of d2 = session_of d"
    using c2 session.queue_memory_view(3) [of "l_q ?l1" h ?d1] session.workspace_view(2) [of "worker_workspace l" d] by (metis snd_conv)
  obtain rc3 d3 where c3: "destroy_if (emit_mu_ready st) (destroy_if (progress_mu_ready st) (destroy_if (progress_cv_ready st) (0, d2))) = (rc3, d3)" by fastforce
  have v3: "session_of d3 = session_of d2" using destroy_if_view c3 by (metis snd_conv)
  let ?l2 = "?l1\<lparr>l_q := q\<rparr>"
  obtain frc f d4 where c4: "logger_file_close_status (Some (file_backend ?l2)) d3 = (frc, f, d4)" using prod_cases3 by blast
  have v4: "session_of d4 = session_of d3" using session.close_view(1) c4 by (metis snd_conv)
  obtain s d5 where c5: "logger_syslog_close (syslog_backend ?l2) d4 = (s, d5)" by fastforce
  have v5: "session_of d5 = session_of d4" using session.syslog_close_view(2) c5 by (metis snd_conv)
  obtain rel d6 where c6: "logger_process_object_release d5 = (rel, d6)" by fastforce
  obtain fr d7 where c7: "logger_runtime_free (Some (h_address h)) d6 = (fr, d7)" by fastforce
  have v7: "session_of d7 = session_of d6" using session.memory_view(2) c7 by (metis snd_conv)
  have L: "live_of d2 = live_of d" "live_of d3 = live_of d" "live_of d5 = live_of d" "current d5 \<noteq> None"
    using live_kept v2 v3 v4 v5 assms(2) by metis+
  note R = object_release_cases [OF c6 L(4)]
  have "live_of d7 = live_of d6" using live_kept v7 R by metis
  note run = assms(1) [unfolded rollback_resources_def prod.case Let_def c2 c3 c4 c5 c6 c7]
  show ?thesis
  proof (cases "qrc \<noteq> 0 \<or> rc3 \<noteq> 0")
    case True
    then have "d' = d2 \<or> d' = d3" using run by (auto split: if_splits)
    then show ?thesis using L by auto
  next
    case False
    then have "d' = d6 \<or> d' = d7" using run by (auto split: if_splits)
    then show ?thesis using L R \<open>live_of d7 = live_of d6\<close> by auto
  qed
qed

lemma rollback_live:
  assumes "logger_ctor_rollback env (Some (l, h)) st d = Some (rc, lp, d')" "current d \<noteq> None"
  shows "live_of d' \<in> {live_of d, live_of d - 1}"
proof -
  define l0 where "l0 = l\<lparr>l_state := LOGGER_STATE_STOPPING\<rparr>"
  define l1 where "l1 = l0\<lparr>l_running := False\<rparr>"
  obtain wrc q where w: "(if queue_ready st then logger_queue_wake_force (we_wake env) (l_q l1) else (0, l_q l1)) = (wrc, q)" by fastforce
  let ?l2 = "l1\<lparr>l_q := q\<rparr>"
  note run = assms(1) [unfolded logger_ctor_rollback_def option.case prod.case Let_def l0_def [symmetric] l1_def [symmetric] w]
  have direct: "live_of d' \<in> {live_of d, live_of d - 1}" if "rollback_resources (l0, h) st d = (r, m, d')" for r m
    using rollback_resources_live [OF that assms(2)] .
  have joined: "live_of d' \<in> {live_of d, live_of d - 1}"
    if j: "join_worker env ?l2 d = Some (jrc, l3, d3)" and r: "d' = d3 \<or> (\<exists>r m. rollback_resources (l3, h) st d3 = (r, m, d'))" for jrc l3 d3
  proof -
    have "session_of d3 = session_of d" by (rule session.join_view [OF _ j]) (simp add: l1_def)
    then have "live_of d3 = live_of d" "current d3 \<noteq> None" using live_kept assms(2) by metis+
    then show ?thesis using r rollback_resources_live [of l3 h st d3] by auto
  qed
  show ?thesis
    using run direct joined by (auto split: if_splits option.splits prod.splits)
qed

section \<open>Properties\<close>

lemma create_logger_result:
  assumes "create_logger env input d = Some (r, d')" "worker_idle env" "current d \<noteq> None"
  shows "case r of
       Inl e \<Rightarrow> live_of d' \<in> {live_of d, live_of d + 1}
     | Inr (l, h) \<Rightarrow> live_of d' = live_of d + 1 \<and> instance_typed l \<and> l_state l = LOGGER_STATE_RUNNING \<and> counters_of l = (0, 0, 0, 0, 0, 0) \<and>
         (async_mode l \<longrightarrow> queue_contents (l_q l) = []) \<and> worker_ready l"
proof (cases "copy_logger_config input")
  case (Inl e)
  then show ?thesis using assms(1) by (auto simp: create_logger_def)
next
  case cfg: (Inr cfg)
  show ?thesis
  proof (cases "validate_logger_config cfg = 0")
    case False
    then show ?thesis using assms(1) cfg by (auto simp: create_logger_def Let_def)
  next
    case valid: True
    obtain arc d1 where c1: "logger_process_object_acquire d = (arc, d1)" by fastforce
    note A = object_acquire_cases [OF c1 assms(3)]
    obtain m d2 where c2: "logger_runtime_calloc 1 (ce_sizeof env) d1 = (m, d2)" by fastforce
    have L2: "live_of d2 = live_of d1" "current d2 \<noteq> None" using live_kept A session.memory_view(1) c2 by (metis snd_conv)+
    note run = assms(1) [unfolded create_logger_def cfg sum.case Let_def c1 prod.case c2]
    show ?thesis
    proof (cases "arc \<noteq> 0 \<or> isl m")
      case True
      obtain x d3 where c3: "logger_process_object_release d2 = (x, d3)" by fastforce
      have "live_of d3 \<in> {live_of d2, live_of d2 - 1}" using object_release_cases [OF c3 L2(2)] by blast
      then show ?thesis using run valid True A L2 c3 by (cases m) (auto split: if_splits)
    next
      case False
      then obtain a where m: "m = Inr a" by (cases m) auto
      let ?h = "\<lparr>h_address = a, h_slots = 0, h_spills = 0\<rparr>"
      obtain e l h st d3 where c3: "ctor_build env cfg (logger_ctor_init_fields cfg d2, ?h) d2 = (e, (l, h), st, d3)" by (metis prod.exhaust)
      note B = ctor_build_stage [OF c3 valid assms(2)]
      have L3: "live_of d3 = live_of d + 1" "current d3 \<noteq> None" using live_kept B L2 A False by metis+
      have built: "Some (r, d') = (if e = 0 then Some (Inr (l, h), d3)
          else map_option (\<lambda>(_, _, d4). (Inl e, d4)) (logger_ctor_rollback (ce_join env) (Some (l, h)) st d3))"
        using run valid False m c3 by simp
      show ?thesis
      proof (cases "e = 0")
        case True
        then show ?thesis using built B L3 by simp
      next
        case e: False
        then obtain rc lp where rb: "logger_ctor_rollback (ce_join env) (Some (l, h)) st d3 = Some (rc, lp, d')" "r = Inl e"
          using built by (cases "logger_ctor_rollback (ce_join env) (Some (l, h)) st d3") auto
        then show ?thesis using rollback_live [OF rb(1) L3(2)] L3 by auto
      qed
    qed
  qed
qed


definition sample_logger_config :: logger_config_t where
  "sample_logger_config = \<lparr>c_struct_size = 144, c_version = 1, c_level = LOGGER_INFO, c_detail = LOGGER_DETAIL_NORMAL,
     c_outputs = LOGGER_OUT_STDERR, c_file_path = None, c_rotation = \<lparr>rot_mode = LOGGER_ROTATE_NONE, max_file_size = 0, retention_days = 0\<rparr>,
     c_file_mode = 0, c_async_mode = 0, c_queue_capacity = 0, c_flush_level = LOGGER_ERROR, c_include_pid = 0, c_include_tid = 0,
     c_include_source = 0, c_ident = None, c_overflow = [0, 0, 0, 0, 1, 1],
     c_syslog = \<lparr>sc_path = None, sc_facility = 8, sc_reconnect_interval_ms = 0, sc_startup = 0\<rparr>\<rparr>"

definition sample_create :: create_env where
  "sample_create = \<lparr>ce_sizeof = 20000, ce_worker = id, ce_async_cancel = False,
     ce_join = \<lparr>we_fuel = 1, we_events = [], we_thread = sample_thread, we_wake = quiet_env\<rparr>\<rparr>"

lemma sample_create_idle: "worker_idle sample_create"
  by (simp add: worker_idle_def sample_create_def ring_eq_def)

lemma sample_config_valid:
  "copy_logger_config (Some (sample_logger_config, [])) = Inr sample_logger_config" "validate_logger_config sample_logger_config = 0"
  by (simp add: copy_logger_config_def logger_uapi_copy_struct_def sample_logger_config_def,
      simp add: validate_logger_config_def sample_logger_config_def as_unsigned_def numeral_eq_Suc)

lemma sample_created:
  "\<exists>l h d'. create_logger sample_create (Some (sample_logger_config, [])) (sample_domain []) = Some (Inr (l, h), d')"
  unfolding create_logger_def sample_config_valid(1) sum.case Let_def sample_config_valid(2)
  by (simp add: sample_create_def logger_process_object_acquire_def logger_runtime_calloc_def logger_fork_resource_enter_def
      sample_domain_def pthread_call_def logger_process_require_def logger_process_is_child_def logger_runtime_current_def waited_def
      os_call_def syscall_def next_call_def effective_def logger_fork_resource_leave_def link_allocation_def update_runtime_def
      sample_runtime_def Let_def ctor_build_def ctor_locks_def ctor_outputs_def logger_ctor_start_worker_def
      logger_ctor_init_fields_def sample_logger_config_def)

lemma sample_current: "current (sample_domain calls) \<noteq> None"
  by (simp add: sample_domain_def)


text \<open>C34. An instance is well typed for life: from its creation and over any sequence of calls and worker rounds,
  its level, detail, outputs, file mode, flush level and overflow policies are values the code can
  index and switch on, and its arrays have six entries.\<close>

theorem instance_stays_typed:
  assumes "create_logger env input d = Some (Inr (l, h), d')" "worker_idle env" "current d \<noteq> None" "instance_steps l l'"
  shows "instance_typed l'"
  using create_logger_result [OF assms(1-3)] instance_steady [OF assms(4)] typed_steady by auto

theorem instance_stays_typed_witness:
  "\<exists>l h d'. create_logger sample_create (Some (sample_logger_config, [])) (sample_domain []) = Some (Inr (l, h), d') \<and> instance_typed l"
proof -
  obtain l h d' where c: "create_logger sample_create (Some (sample_logger_config, [])) (sample_domain []) = Some (Inr (l, h), d')"
    using sample_created by blast
  show ?thesis using c instance_stays_typed [OF c sample_create_idle sample_current instance_steps.still] by blast
qed



end
