(* ===== verification/Logger_Global.thy ===== *)
theory Logger_Global
  imports Logger_Core
begin

text \<open>
  \<^verbatim>\<open>src/logger_global.c\<close>: the default binding. A ticket holds the generation and the phase of the binding in
  one word; read-side calls pin the bound instance, \<^verbatim>\<open>logger_default_set\<close> replaces it.

  Instances are kept in a store and named by their address, as the slot does. \<open>global_env\<close> says what
  the other threads do to the store and the domain at the points where this thread can be overtaken:
  while it waits for the control lock, for the read side and for the write side of the lifetime lock,
  and before each of its two exchanges on the ticket.
\<close>

section \<open>Tickets\<close>

abbreviation G_IDLE :: u64 where "G_IDLE \<equiv> 0"
abbreviation G_RUNNING :: u64 where "G_RUNNING \<equiv> 1"
abbreviation G_STOPPING :: u64 where "G_STOPPING \<equiv> 2"
abbreviation G_BROKEN :: u64 where "G_BROKEN \<equiv> 3"
abbreviation PHASE_BITS :: nat where "PHASE_BITS \<equiv> 3"
abbreviation PHASE_MASK :: u64 where "PHASE_MASK \<equiv> 7"
abbreviation UINT64_MAX :: u64 where "UINT64_MAX \<equiv> - 1"

definition phase_of :: "u64 \<Rightarrow> u64" where
  "phase_of ticket = ticket AND PHASE_MASK"

definition generation_of :: "u64 \<Rightarrow> u64" where
  "generation_of ticket = drop_bit PHASE_BITS ticket"

definition with_phase :: "u64 \<Rightarrow> u64 \<Rightarrow> u64" where
  "with_phase ticket phase = (ticket AND NOT PHASE_MASK) OR phase"

type_synonym store = "nat \<Rightarrow> logger option"
type_synonym world = "store \<times> domain"

definition g_ticket :: "domain \<Rightarrow> u64" where
  "g_ticket d = global_ticket (logger_runtime_current d)"

definition g_logger :: "domain \<Rightarrow> nat option" where
  "g_logger d = Logger_Domain.global_logger (logger_runtime_current d)"

definition g_lock_error :: "domain \<Rightarrow> errno" where
  "g_lock_error d = Logger_Domain.global_lock_error (logger_runtime_current d)"

definition set_ticket :: "u64 \<Rightarrow> domain \<Rightarrow> domain" where
  "set_ticket t = update_runtime (global_ticket_update (\<lambda>_. t))"

definition set_default :: "nat option \<Rightarrow> domain \<Rightarrow> domain" where
  "set_default p = update_runtime (global_logger_update (\<lambda>_. p))"

definition global_lock_poison :: "errno \<Rightarrow> domain \<Rightarrow> domain" where
  "global_lock_poison e d =
     (if e = 0 then d
      else let d1 = update_runtime (global_lock_error_update (\<lambda>old. sticky old e)) d; ticket = g_ticket d1 in
        if phase_of ticket \<noteq> G_BROKEN then set_ticket (with_phase ticket G_BROKEN) d1 else d1)"

definition rollback_ticket :: "u64 \<Rightarrow> u64 \<Rightarrow> domain \<Rightarrow> domain" where
  "rollback_ticket ticket phase d = (if g_ticket d = ticket then set_ticket (with_phase ticket phase) d else d)"

section \<open>The scope of a default call\<close>

record global_scope =
  control_locked :: bool
  lifetime_locked :: bool
  release_borrow :: "nat option"

definition fresh_scope :: global_scope where
  "fresh_scope = \<lparr>control_locked = False, lifetime_locked = False, release_borrow = None\<rparr>"

definition set_borrowed :: "bool \<Rightarrow> nat option \<Rightarrow> store \<Rightarrow> store" where
  "set_borrowed b p s = (case p of None \<Rightarrow> s | Some i \<Rightarrow> s(i := map_option (default_borrowed_update (\<lambda>_. b)) (s i)))"

definition finish_result :: "global_scope \<Rightarrow> int \<Rightarrow> world \<Rightarrow> int \<times> world" where
  "finish_result scope rc w =
     (case w of (s, d) \<Rightarrow>
      case (if lifetime_locked scope then pthread_call d else (0, d)) of (e1, d1) \<Rightarrow>
        if e1 \<noteq> 0 then (- e1, (s, global_lock_poison e1 d1))
        else case (if control_locked scope then pthread_call d1 else (0, d1)) of (e2, d2) \<Rightarrow>
          if e2 \<noteq> 0 then (- e2, (s, global_lock_poison e2 d2))
          else case pthread_call (d2\<lparr>in_global := False\<rparr>) of (e3, d3) \<Rightarrow>
            (if rc \<noteq> 0 then rc else - e3, (set_borrowed False (release_borrow scope) s, d3)))"

definition begin_global :: "domain \<Rightarrow> int \<times> domain" where
  "begin_global d =
     (if logger_process_is_child d then (- ECHILD, d)
      else if in_global d \<or> logger_scope_busy d then (- EDEADLK, d)
      else let rc = logger_process_require d in
        if rc \<noteq> 0 then (rc, d)
        else case pthread_call d of (cancel, d1) \<Rightarrow>
          if cancel \<noteq> 0 then (- cancel, d1)
          else let d2 = d1\<lparr>in_global := True\<rparr>; e = - g_lock_error d2 in
            if e \<noteq> 0 then (case finish_result fresh_scope e (\<lambda>_. None, d2) of (rc2, (_, d3)) \<Rightarrow> (rc2, d3)) else (0, d2))"

record global_env =
  ge_control :: "world \<Rightarrow> world"
  ge_reader :: "world \<Rightarrow> world"
  ge_writer :: "world \<Rightarrow> world"
  ge_update :: "world \<Rightarrow> world"
  ge_publish :: "world \<Rightarrow> world"

definition lock_control :: "global_env \<Rightarrow> global_scope \<Rightarrow> world \<Rightarrow> int \<times> global_scope \<times> world" where
  "lock_control env scope w =
     (case w of (s, d) \<Rightarrow>
      case pthread_call d of (rc, d1) \<Rightarrow>
        if rc \<noteq> 0 then (- rc, scope, (s, d1))
        else case ge_control env (s, d1) of (s2, d2) \<Rightarrow> (- g_lock_error d2, scope\<lparr>control_locked := True\<rparr>, (s2, d2)))"

definition phase_error :: "u64 \<Rightarrow> domain \<Rightarrow> errno" where
  "phase_error ticket d =
     (let phase = phase_of ticket in
      if phase = G_IDLE then ENODEV
      else if phase = G_STOPPING then EAGAIN
      else if phase = G_RUNNING then 0
      else if phase = G_BROKEN then errno_or (g_lock_error d) EIO else ENODEV)"

definition pin :: "global_env \<Rightarrow> global_scope \<Rightarrow> world \<Rightarrow> int \<times> global_scope \<times> world" where
  "pin env scope w =
     (case w of (s, d) \<Rightarrow>
      let ticket = g_ticket d; e = phase_error ticket d in
      if e \<noteq> 0 then (- e, scope, (s, d))
      else case pthread_call d of (rc, d1) \<Rightarrow>
        if rc \<noteq> 0 then (- rc, scope, (s, d1))
        else case ge_reader env (s, d1) of (s2, d2) \<Rightarrow>
          let scope2 = scope\<lparr>lifetime_locked := True\<rparr> in
          if g_lock_error d2 \<noteq> 0 then (- g_lock_error d2, scope2, (s2, d2))
          else if ticket \<noteq> g_ticket d2 then (- ESHUTDOWN, scope2, (s2, d2))
          else if phase_of ticket = G_RUNNING \<and> g_logger d2 = None then (- EIO, scope2, (s2, d2))
          else (0, scope2, (s2, d2)))"

section \<open>Replacing the binding\<close>

text \<open>The checks under the control lock, against the ticket \<open>observed\<close> before it; 1 means: go on.\<close>

definition set_checks :: "u64 \<Rightarrow> nat option \<Rightarrow> nat option \<Rightarrow> world \<Rightarrow> int" where
  "set_checks observed expected replacement w =
     (case w of (s, d) \<Rightarrow>
      if g_ticket d \<noteq> observed \<or> g_logger d \<noteq> expected then - ESTALE
      else if expected = replacement then 0
      else if replacement \<noteq> None \<and> l_state (the (s (the replacement))) \<noteq> LOGGER_STATE_RUNNING then - ESHUTDOWN
      else if replacement \<noteq> None \<and> default_borrowed (the (s (the replacement))) then - EBUSY
      else if generation_of (g_ticket d) = drop_bit PHASE_BITS UINT64_MAX then - EOVERFLOW else 1)"

definition next_ticket :: "u64 \<Rightarrow> nat option \<Rightarrow> u64" where
  "next_ticket ticket replacement =
     push_bit PHASE_BITS (generation_of ticket + 1) OR (if replacement \<noteq> None then G_RUNNING else G_IDLE)"

text \<open>The exchange to the stopping phase, the write lock and the exchange to the next generation.\<close>

definition set_exchange ::
  "global_env \<Rightarrow> global_scope \<Rightarrow> nat option \<Rightarrow> nat option \<Rightarrow> world \<Rightarrow> int \<times> global_scope \<times> world" where
  "set_exchange env scope expected replacement w =
     (let ticket = g_ticket (snd w); updating = with_phase ticket G_STOPPING in
      case ge_update env w of (s3, d3) \<Rightarrow>
        if g_ticket d3 \<noteq> ticket then (- errno_or (g_lock_error d3) EIO, scope, (s3, d3))
        else case pthread_call (set_ticket updating d3) of (rc, d4) \<Rightarrow>
          if rc \<noteq> 0 then (- rc, scope, (s3, rollback_ticket updating (phase_of ticket) d4))
          else case ge_writer env (s3, d4) of (s5, d5) \<Rightarrow>
            let scope2 = scope\<lparr>lifetime_locked := True\<rparr> in
            if g_lock_error d5 \<noteq> 0 then (- g_lock_error d5, scope2, (s5, d5))
            else case ge_publish env (set_borrowed True replacement s5, set_default replacement d5) of (s6, d6) \<Rightarrow>
              if g_ticket d6 \<noteq> updating
              then (- errno_or (g_lock_error d6) EIO, scope2\<lparr>release_borrow := replacement\<rparr>, (s6, set_default expected d6))
              else (0, scope2\<lparr>release_borrow := expected\<rparr>, (s6, set_ticket (next_ticket ticket replacement) d6)))"

definition logger_default_set :: "global_env \<Rightarrow> nat option \<Rightarrow> nat option \<Rightarrow> world \<Rightarrow> int \<times> world" where
  "logger_default_set env expected replacement w =
     (case w of (s, d) \<Rightarrow>
      case begin_global d of (rc, d1) \<Rightarrow>
        if rc \<noteq> 0 then (rc, (s, d1))
        else case
          (let observed = g_ticket d1 in
           if phase_of observed = G_STOPPING then (- EAGAIN, fresh_scope, (s, d1))
           else case lock_control env fresh_scope (s, d1) of (rc2, scope, w2) \<Rightarrow>
             if rc2 \<noteq> 0 then (rc2, scope, w2)
             else let check = set_checks observed expected replacement w2 in
               if check \<noteq> 1 then (check, scope, w2) else set_exchange env scope expected replacement w2)
        of (rc3, scope3, w3) \<Rightarrow> finish_result scope3 rc3 w3)"

section \<open>Calls on the default instance\<close>

text \<open>
  Admission, the pinned call and the release. \<open>refused\<close> is the code of the argument checks made before
  pinning; the value is that of the call, when it was made.
\<close>

definition with_default ::
  "global_env \<Rightarrow> int \<Rightarrow> (logger option \<Rightarrow> domain \<Rightarrow> (int \<times> 'r \<times> logger option \<times> domain) option) \<Rightarrow> world \<Rightarrow> (int \<times> 'r option \<times> world) option" where
  "with_default env refused op w =
     (case w of (s, d) \<Rightarrow>
      case begin_global d of (rc, d1) \<Rightarrow>
        if rc \<noteq> 0 then Some (rc, None, (s, d1))
        else case (if refused \<noteq> 0 then (refused, fresh_scope, (s, d1)) else pin env fresh_scope (s, d1)) of (rc2, scope, (s2, d2)) \<Rightarrow>
          if rc2 \<noteq> 0 then (case finish_result scope rc2 (s2, d2) of (rc3, w3) \<Rightarrow> Some (rc3, None, w3))
          else let i = the (g_logger d2) in
            case op (s2 i) d2 of
              None \<Rightarrow> None
            | Some (rc3, r, l, d3) \<Rightarrow>
              (case finish_result scope rc3 (s2(i := l), d3) of (rc4, w4) \<Rightarrow> Some (rc4, Some r, w4)))"

text \<open>A call without a value.\<close>

definition plain_call ::
  "global_env \<Rightarrow> int \<Rightarrow> (logger option \<Rightarrow> domain \<Rightarrow> (int \<times> logger option \<times> domain) option) \<Rightarrow> world \<Rightarrow> (int \<times> world) option" where
  "plain_call env refused op w = map_option (\<lambda>(rc, _, w1). (rc, w1))
     (with_default env refused (\<lambda>l d. map_option (\<lambda>(rc, l1, d1). (rc, (), l1, d1)) (op l d)) w)"

definition logger_default_flush :: "global_env \<Rightarrow> wait_event list \<Rightarrow> world \<Rightarrow> (int \<times> world) option" where
  "logger_default_flush env events = plain_call env 0 (logger_flush events)"

definition logger_set_level :: "global_env \<Rightarrow> logger_level_t \<Rightarrow> world \<Rightarrow> (int \<times> world) option" where
  "logger_set_level env level = plain_call env (if as_unsigned level \<le> LOGGER_OFF then 0 else - EINVAL)
     (\<lambda>l d. Some (0, map_option (l_level_update (\<lambda>_. level)) l, d))"

definition logger_default_reopen :: "global_env \<Rightarrow> world \<Rightarrow> (int \<times> world) option" where
  "logger_default_reopen env = plain_call env 0 (\<lambda>l d. Some (logger_reopen l d))"

text \<open>
  The queries; \<open>out\<close> says whether the caller gave a place for the value, which is written only when the
  call and the release both succeed.
\<close>

definition default_query ::
  "(logger option \<Rightarrow> domain \<Rightarrow> int \<times> 'r option \<times> logger option \<times> domain) \<Rightarrow> global_env \<Rightarrow> bool \<Rightarrow> world \<Rightarrow> (int \<times> 'r option \<times> world) option" where
  "default_query q env out w = map_option (\<lambda>(rc, r, w1). (rc, if rc = 0 then Option.bind r id else None, w1))
     (with_default env (if out then 0 else - EINVAL) (\<lambda>l d. Some (q l d)) w)"

definition logger_global_dropped :: "global_env \<Rightarrow> bool \<Rightarrow> world \<Rightarrow> (int \<times> u64 option \<times> world) option" where
  "logger_global_dropped = default_query (\<lambda>l d. case logger_dropped d l True of (rc, r) \<Rightarrow> (rc, r, l, d))"

definition logger_get_global_metrics :: "global_env \<Rightarrow> bool \<Rightarrow> world \<Rightarrow> (int \<times> logger_metrics_t option \<times> world) option" where
  "logger_get_global_metrics = default_query (\<lambda>l d. case logger_get_metrics d l True of (rc, r) \<Rightarrow> (rc, r, l, d))"

definition logger_get_global_io_metrics :: "global_env \<Rightarrow> bool \<Rightarrow> world \<Rightarrow> (int \<times> logger_io_metrics_t option \<times> world) option" where
  "logger_get_global_io_metrics = default_query (\<lambda>l d. case logger_get_io_metrics d l True of (rc, r) \<Rightarrow> (rc, r, l, d))"

definition logger_get_global_diagnostics :: "global_env \<Rightarrow> bool \<Rightarrow> world \<Rightarrow> (int \<times> logger_diagnostics_t option \<times> world) option" where
  "logger_get_global_diagnostics = default_query (\<lambda>l d. case logger_get_diagnostics d l True of (rc, r) \<Rightarrow> (rc, r, l, d))"

definition logger_get_global_file_metrics :: "global_env \<Rightarrow> bool \<Rightarrow> world \<Rightarrow> (int \<times> logger_file_metrics_t option \<times> world) option" where
  "logger_get_global_file_metrics = default_query (\<lambda>l d. logger_file_metrics_snapshot l True d)"

definition logger_global_write ::
  "global_env \<Rightarrow> log_env \<Rightarrow> logger_level_t \<Rightarrow> logger_source_t \<Rightarrow> string option \<Rightarrow> thread_state \<Rightarrow> world \<Rightarrow> (int \<times> thread_state \<times> world) option" where
  "logger_global_write env lenv level src fmt t w =
     map_option (\<lambda>(rc, r, w1). (rc, case r of None \<Rightarrow> t | Some t1 \<Rightarrow> t1, w1))
       (with_default env (if fmt = None \<or> LOGGER_OFF \<le> as_unsigned level then - EINVAL else 0)
          (\<lambda>l d. map_option (\<lambda>(rc, (l1, t1), d1). (rc, t1, l1, d1)) (logger_vlog_internal lenv level src fmt (l, t) d)) w)"

definition logger_global_scope_busy :: "domain \<Rightarrow> bool" where
  "logger_global_scope_busy d = in_global d"

end
