(* ===== verification/Logger_Global_Props.thy ===== *)
theory Logger_Global_Props
  imports Logger_Global Logger_Session
begin

text \<open>
  The default binding: tickets, replacing the binding, and calls on the bound instance.
\<close>

section \<open>Tickets\<close>

lemma drop_mask: "drop_bit n (t AND NOT (mask n)) = drop_bit n (t :: u64)"
  by (rule bit_eqI) (auto simp: bit_simps dest: bit_imp_le_length)

lemma phase_mask: "PHASE_MASK = mask PHASE_BITS"
  by (simp add: mask_eq_exp_minus_1)

lemma drop_small: "p \<le> (7 :: u64) \<Longrightarrow> drop_bit PHASE_BITS p = 0"
  by (rule unat_eq_zero [THEN iffD1]) (simp add: word_le_nat_alt unat_drop_bit_eq drop_bit_nat_def)

lemma with_phase_generation: "p \<le> 7 \<Longrightarrow> generation_of (with_phase t p) = generation_of t"
  using drop_mask [of PHASE_BITS t] drop_small [of p]
  by (simp add: generation_of_def with_phase_def flip: phase_mask)

lemma generation_below: "generation_of t \<noteq> drop_bit PHASE_BITS UINT64_MAX \<Longrightarrow> unat (generation_of t) + 1 < 2 ^ 61"
proof -
  have le: "unat t div 8 < 2 ^ 61" using unsigned_less [of t, where 'a = nat] by simp
  have u: "unat (generation_of t) = unat t div 8"
    by (simp add: generation_of_def unat_drop_bit_eq drop_bit_nat_def)
  have m: "unat (drop_bit PHASE_BITS UINT64_MAX) = 2 ^ 61 - 1"
    by (simp add: unat_drop_bit_eq drop_bit_nat_def mask_eq_exp_minus_1)
  assume "generation_of t \<noteq> drop_bit PHASE_BITS UINT64_MAX"
  then have "unat t div 8 \<noteq> 2 ^ 61 - 1" using u m by (metis word_unat_eq_iff)
  then show ?thesis using le u by simp
qed

lemma pushed_generation: "unat g < 2 ^ 61 \<Longrightarrow> p \<le> (7 :: u64) \<Longrightarrow> generation_of (push_bit PHASE_BITS g OR p) = g"
proof -
  assume "unat g < 2 ^ 61"
  then have "take_bit 61 g = g" by (simp add: word_eq_iff_unsigned [where 'a = nat] unsigned_take_bit_eq take_bit_nat_eq_self)
  moreover assume "p \<le> (7 :: u64)"
  moreover have "drop_bit 3 (push_bit 3 g) = take_bit 61 g" by (rule bit_eqI) (auto simp: bit_simps)
  ultimately show ?thesis by (simp add: generation_of_def drop_small)
qed

lemma next_generation:
  assumes "generation_of t \<noteq> drop_bit PHASE_BITS UINT64_MAX"
  shows "generation_of (next_ticket t r) = generation_of t + 1" (is ?g)
    and "unat (generation_of t + 1) = unat (generation_of t) + 1" (is ?u)
proof -
  note b = generation_below [OF assms]
  show u: ?u using b by (simp add: unat_word_ariths)
  show ?g using b u unfolding next_ticket_def by (intro pushed_generation) auto
qed

lemma next_phase: "phase_of (next_ticket t r) = (if r = None then G_IDLE else G_RUNNING)"
proof -
  have "push_bit 3 (g :: u64) AND 7 = 0" for g
    by (rule bit_eqI) (auto simp: bit_simps phase_mask)
  then show ?thesis by (auto simp: phase_of_def next_ticket_def bit.conj_disj_distrib2)
qed

section \<open>Admission and release\<close>

lemma pthread_current [simp]: "current (snd (pthread_call d)) = current d"
  by (simp add: pthread_call_def split: list.splits)

lemma pthread_step: "pthread_call d = (e, d1) \<Longrightarrow> current d1 = current d"
  by (metis pthread_current snd_conv)

lemma binding_current:
  assumes "current d' = current d"
  shows "g_ticket d' = g_ticket d" "g_logger d' = g_logger d" "g_lock_error d' = g_lock_error d"
  using assms by (simp_all add: g_ticket_def g_logger_def g_lock_error_def logger_runtime_current_def)

lemma binding_set [simp]:
  assumes "current d \<noteq> None"
  shows "g_ticket (set_ticket t d) = t" "g_logger (set_ticket t d) = g_logger d"
    "g_logger (set_default p d) = p" "g_ticket (set_default p d) = g_ticket d"
  using assms by (auto simp: g_ticket_def g_logger_def logger_runtime_current_def set_ticket_def set_default_def update_runtime_def)

lemma set_current [simp]:
  "current (set_ticket t d) = None \<longleftrightarrow> current d = None" "current (set_default p d) = None \<longleftrightarrow> current d = None"
  by (simp_all add: set_ticket_def set_default_def update_runtime_def)

lemma poison_binding:
  assumes "current d \<noteq> None"
  shows "g_logger (global_lock_poison e d) = g_logger d"
    "generation_of (g_ticket (global_lock_poison e d)) = generation_of (g_ticket d)"
  using assms by (auto simp: global_lock_poison_def Let_def g_logger_def g_ticket_def logger_runtime_current_def
      set_ticket_def update_runtime_def with_phase_generation)

lemma finish_success:
  assumes "finish_result scope rc (s, d) = (0, (s', d'))"
  shows "rc = 0 \<and> current d' = current d \<and> s' = set_borrowed False (release_borrow scope) s"
  using assms by (auto simp: finish_result_def pthread_call_def split: if_splits prod.splits list.splits)

lemma finish_binding:
  assumes "finish_result scope rc (s, d) = (rc', (s', d'))" "rc \<noteq> 0" "current d \<noteq> None"
  shows "rc' \<noteq> 0 \<and> g_logger d' = g_logger d \<and> generation_of (g_ticket d') = generation_of (g_ticket d)
    \<and> (release_borrow scope = None \<longrightarrow> s' = s)"
proof -
  obtain e1 d1 where c1: "(if lifetime_locked scope then pthread_call d else (0, d)) = (e1, d1)" by fastforce
  obtain e2 d2 where c2: "(if control_locked scope then pthread_call d1 else (0, d1)) = (e2, d2)" by fastforce
  obtain e3 d3 where c3: "pthread_call (d2\<lparr>in_global := False\<rparr>) = (e3, d3)" by fastforce
  have k1: "current d1 = current d" using c1 by (auto split: if_splits dest: pthread_step)
  have k2: "current d2 = current d" using c2 k1 by (auto split: if_splits dest: pthread_step)
  have k3: "current d3 = current d" using pthread_step [OF c3] k2 by simp
  note run = assms(1) [unfolded finish_result_def prod.case c1 c2 c3]
  consider (life) "e1 \<noteq> 0" | (control) "e1 = 0" "e2 \<noteq> 0" | (released) "e1 = 0" "e2 = 0" by blast
  then show ?thesis
  proof cases
    case life
    then show ?thesis using run assms(3) poison_binding [of d1] binding_current [OF k1] k1 by auto
  next
    case control
    then show ?thesis using run assms(3) poison_binding [of d2] binding_current [OF k2] k2 by auto
  next
    case released
    then show ?thesis using run assms(2) binding_current [OF k3] by (auto simp: set_borrowed_def)
  qed
qed

lemma begin_admits:
  assumes "begin_global d = (0, d1)"
  shows "current d1 = current d \<and> g_lock_error d = 0 \<and> \<not> in_global d \<and> \<not> logger_process_is_child d"
proof -
  obtain e1 d2 where c1: "pthread_call d = (e1, d2)" by fastforce
  have k: "current (d2\<lparr>in_global := True\<rparr>) = current d" using pthread_step [OF c1] by simp
  obtain rc3 w3 where c3: "finish_result fresh_scope (- g_lock_error (d2\<lparr>in_global := True\<rparr>)) (\<lambda>_. None, d2\<lparr>in_global := True\<rparr>) = (rc3, w3)"
    by (metis surj_pair)
  have nz: "g_lock_error d \<noteq> 0 \<Longrightarrow> rc3 \<noteq> 0"
    using finish_success [of fresh_scope _ _ _ "fst w3" "snd w3"] c3 binding_current(3) [OF k] by fastforce
  show ?thesis
    using assms nz k binding_current(3) [OF k] unfolding begin_global_def c1 prod.case Let_def c3
    by (auto split: if_splits prod.splits)
qed

section \<open>Replacing the binding\<close>

text \<open>
  What the other threads may do while this one waits: they never unpublish the runtime object, and under
  the write side of the lifetime lock, which this thread holds, none of them touches the store or the slot.
\<close>

definition env_sound :: "global_env \<Rightarrow> bool" where
  "env_sound env \<longleftrightarrow>
     (\<forall>w. current (snd w) \<noteq> None \<longrightarrow>
        current (snd (ge_control env w)) \<noteq> None \<and> current (snd (ge_reader env w)) \<noteq> None \<and>
        current (snd (ge_writer env w)) \<noteq> None \<and> current (snd (ge_update env w)) \<noteq> None \<and>
        current (snd (ge_publish env w)) \<noteq> None) \<and>
     (\<forall>w. fst (ge_publish env w) = fst w \<and> g_logger (snd (ge_publish env w)) = g_logger (snd w))"

lemma lock_control_success:
  assumes "lock_control env scope (s, d) = (0, scope', (s', d'))"
  obtains d1 where "pthread_call d = (0, d1)" "ge_control env (s, d1) = (s', d')"
    "scope' = scope\<lparr>control_locked := True\<rparr>" "g_lock_error d' = 0"
  using assms by (auto simp: lock_control_def split: if_splits prod.splits)

lemma set_exchange_success:
  assumes run: "set_exchange env scope expected replacement (s, d) = (0, scope', (s', d'))"
    and env: "env_sound env" and cur: "current d \<noteq> None"
  shows "g_logger d' = replacement \<and> g_ticket d' = next_ticket (g_ticket d) replacement \<and> release_borrow scope' = expected
    \<and> (\<exists>s5. s' = set_borrowed True replacement s5)"
proof -
  let ?t = "g_ticket d" and ?u = "with_phase (g_ticket d) G_STOPPING"
  obtain s3 d3 where c3: "ge_update env (s, d) = (s3, d3)" by fastforce
  obtain e4 d4 where c4: "pthread_call (set_ticket ?u d3) = (e4, d4)" by fastforce
  obtain s5 d5 where c5: "ge_writer env (s3, d4) = (s5, d5)" by fastforce
  obtain s6 d6 where c6: "ge_publish env (set_borrowed True replacement s5, set_default replacement d5) = (s6, d6)" by fastforce
  have k3: "current d3 \<noteq> None" using env cur c3 unfolding env_sound_def by (metis snd_conv)
  have k4: "current d4 \<noteq> None" using pthread_step [OF c4] k3 by simp
  have k5: "current d5 \<noteq> None" using env k4 c5 unfolding env_sound_def by (metis snd_conv)
  have k6: "current d6 \<noteq> None" using env k5 c6 set_current(2) [of replacement d5] unfolding env_sound_def by (metis snd_conv)
  have p: "s6 = set_borrowed True replacement s5" "g_logger d6 = replacement"
    using env c6 binding_set(3) [OF k5] unfolding env_sound_def by (metis fst_conv, metis snd_conv)
  have io: "errno_or e EIO \<noteq> 0" for e by (simp add: errno_or_def)
  show ?thesis
    using run unfolding set_exchange_def snd_conv c3 c4 c5 c6 prod.case Let_def
    using k6 p io by (auto split: if_splits)
qed

lemma set_success:
  assumes run: "logger_default_set env expected replacement (s, d) = (0, (s', d'))"
    and env: "env_sound env" and cur: "current d \<noteq> None" and ne: "expected \<noteq> replacement"
  shows "\<exists>d1 d2 s3 d3 s5. begin_global d = (0, d1) \<and> pthread_call d1 = (0, d2) \<and> ge_control env (s, d2) = (s3, d3) \<and>
     set_checks (g_ticket d) expected replacement (s3, d3) = 1 \<and> phase_of (g_ticket d) \<noteq> G_STOPPING \<and>
     g_logger d' = replacement \<and> g_ticket d' = next_ticket (g_ticket d) replacement \<and>
     s' = set_borrowed False expected (set_borrowed True replacement s5)"
proof -
  obtain rc1 d1 where c1: "begin_global d = (rc1, d1)" by fastforce
  obtain rc2 scope2 s3 d3 where c2: "lock_control env fresh_scope (s, d1) = (rc2, scope2, (s3, d3))" by (metis surj_pair)
  obtain rc4 scope4 s4 d4 where c4: "set_exchange env scope2 expected replacement (s3, d3) = (rc4, scope4, (s4, d4))" by (metis surj_pair)
  let ?check = "set_checks (g_ticket d1) expected replacement (s3, d3)"
  have z1: "rc1 = 0" using run by (auto simp: logger_default_set_def c1 split: if_splits)
  have k1: "current d1 = current d" using begin_admits c1 z1 by blast
  note stage = run [unfolded logger_default_set_def prod.case c1 c2 c4 Let_def]
  have check: "?check = 1" and z2: "rc2 = 0" and fin: "finish_result scope4 rc4 (s4, d4) = (0, (s', d'))"
    and ph: "phase_of (g_ticket d1) \<noteq> G_STOPPING"
    using stage z1 ne finish_success
    by (auto simp: set_checks_def split: if_splits dest!: finish_success)
  obtain d2 where l2: "pthread_call d1 = (0, d2)" "ge_control env (s, d2) = (s3, d3)" "scope2 = fresh_scope\<lparr>control_locked := True\<rparr>"
    using lock_control_success [OF c2 [unfolded z2]] by metis
  have k3: "current d3 \<noteq> None"
    using env pthread_step [OF l2(1)] k1 cur l2(2) unfolding env_sound_def by (metis snd_conv)
  have f: "rc4 = 0" "current d' = current d4" "s' = set_borrowed False (release_borrow scope4) s4"
    using finish_success [OF fin] by auto
  note e = set_exchange_success [OF c4 [unfolded f(1)] env k3]
  have same: "g_ticket d3 = g_ticket d1" using check by (auto simp: set_checks_def split: if_splits)
  show ?thesis
    using c1 z1 l2 check ph e f(3) same binding_current [OF f(2)] binding_current(1) [OF k1] by auto
qed

lemma set_stale:
  assumes run: "logger_default_set env expected replacement (s, d) = (rc, (s', d'))"
    and env: "env_sound env" and cur: "current d \<noteq> None" and c1: "begin_global d = (0, d1)"
    and ph: "phase_of (g_ticket d) \<noteq> G_STOPPING" and c2: "pthread_call d1 = (0, d2)" and c3: "ge_control env (s, d2) = (s3, d3)"
    and ok: "g_lock_error d3 = 0" and stale: "g_ticket d3 \<noteq> g_ticket d \<or> g_logger d3 \<noteq> expected"
  shows "rc \<noteq> 0 \<and> s' = s3 \<and> g_logger d' = g_logger d3 \<and> generation_of (g_ticket d') = generation_of (g_ticket d3)"
proof -
  have k1: "current d1 = current d" using begin_admits [OF c1] by simp
  have k3: "current d3 \<noteq> None" using env pthread_step [OF c2] k1 cur c3 unfolding env_sound_def by (metis snd_conv)
  have l: "lock_control env fresh_scope (s, d1) = (0, fresh_scope\<lparr>control_locked := True\<rparr>, (s3, d3))"
    by (simp add: lock_control_def c2 c3 ok)
  have ch: "set_checks (g_ticket d) expected replacement (s3, d3) = - ESTALE"
    using stale by (auto simp: set_checks_def)
  have "finish_result (fresh_scope\<lparr>control_locked := True\<rparr>) (- ESTALE) (s3, d3) = (rc, (s', d'))"
    using run ph binding_current(1) [OF k1] by (simp add: logger_default_set_def c1 l ch)
  from finish_binding [OF this _ k3] show ?thesis by (simp add: fresh_scope_def)
qed

text \<open>C36.
  Replacing the default binding. When \<^verbatim>\<open>logger_default_set\<close> returns 0 the slot holds the replacement, the
  ticket is in the running phase exactly when there is one, its generation is the successor of the
  generation the call started from (without wrapping around), the replacement is marked as borrowed and
  the instance it replaced no longer is. When the ticket or the slot found under the control lock is not
  the one the call started from, so that another thread replaced the binding in between, even if it
  put the same instance back, the call is refused and leaves every instance, the slot and the
  generation as they were found.
\<close>

theorem default_set_correct:
  assumes run: "logger_default_set env expected replacement (s, d) = (rc, (s', d'))"
    and env: "env_sound env" and cur: "current d \<noteq> None" and ne: "expected \<noteq> replacement"
  shows "(rc = 0 \<longrightarrow> g_logger d' = replacement \<and>
      phase_of (g_ticket d') = (if replacement = None then G_IDLE else G_RUNNING) \<and>
      unat (generation_of (g_ticket d')) = unat (generation_of (g_ticket d)) + 1 \<and>
      (\<forall>i l. replacement = Some i \<and> s' i = Some l \<longrightarrow> default_borrowed l) \<and>
      (\<forall>i l. expected = Some i \<and> s' i = Some l \<longrightarrow> \<not> default_borrowed l)) \<and>
    (\<forall>d1 d2 s3 d3. begin_global d = (0, d1) \<and> phase_of (g_ticket d) \<noteq> G_STOPPING \<and> pthread_call d1 = (0, d2) \<and>
      ge_control env (s, d2) = (s3, d3) \<and> g_lock_error d3 = 0 \<and> (g_ticket d3 \<noteq> g_ticket d \<or> g_logger d3 \<noteq> expected) \<longrightarrow>
      rc \<noteq> 0 \<and> s' = s3 \<and> g_logger d' = g_logger d3 \<and> generation_of (g_ticket d') = generation_of (g_ticket d3))"
proof (intro conjI impI)
  assume z: "rc = 0"
  obtain s3 d3 s5 where ok: "set_checks (g_ticket d) expected replacement (s3, d3) = 1" "g_logger d' = replacement"
      "g_ticket d' = next_ticket (g_ticket d) replacement" "s' = set_borrowed False expected (set_borrowed True replacement s5)"
    using set_success [OF run [unfolded z] env cur ne] by blast
  then show "g_logger d' = replacement" "phase_of (g_ticket d') = (if replacement = None then G_IDLE else G_RUNNING)"
    by (simp_all add: next_phase)
  have "generation_of (g_ticket d) \<noteq> drop_bit PHASE_BITS UINT64_MAX" using ok(1) by (auto simp: set_checks_def split: if_splits)
  from next_generation [OF this]
  show "unat (generation_of (g_ticket d')) = unat (generation_of (g_ticket d)) + 1" using ok(3) by simp
  show "\<forall>i l. replacement = Some i \<and> s' i = Some l \<longrightarrow> default_borrowed l" "\<forall>i l. expected = Some i \<and> s' i = Some l \<longrightarrow> \<not> default_borrowed l"
    using ok(4) ne by (auto simp: set_borrowed_def split: option.splits)
next
  show "\<forall>d1 d2 s3 d3. begin_global d = (0, d1) \<and> phase_of (g_ticket d) \<noteq> G_STOPPING \<and> pthread_call d1 = (0, d2) \<and>
      ge_control env (s, d2) = (s3, d3) \<and> g_lock_error d3 = 0 \<and> (g_ticket d3 \<noteq> g_ticket d \<or> g_logger d3 \<noteq> expected) \<longrightarrow>
      rc \<noteq> 0 \<and> s' = s3 \<and> g_logger d' = g_logger d3 \<and> generation_of (g_ticket d') = generation_of (g_ticket d3)"
    using set_stale [OF run env cur] by blast
qed

text \<open>A process in which no other thread intervenes, with one instance that is not bound yet.\<close>

definition alone_env :: global_env where
  "alone_env = \<lparr>ge_control = id, ge_reader = id, ge_writer = id, ge_update = id, ge_publish = id\<rparr>"

lemma alone_sound: "env_sound alone_env"
  by (simp add: env_sound_def alone_env_def)

definition sample_world :: world where
  "sample_world = ([0 \<mapsto> sample_logger 1 zero_queue], sample_domain [])"

lemma sample_binding:
  "current (sample_domain []) \<noteq> None" "g_ticket (sample_domain []) = 0" "g_logger (sample_domain []) = None"
  "g_lock_error (sample_domain []) = 0"
  by (simp_all add: sample_domain_def sample_runtime_def g_ticket_def g_logger_def g_lock_error_def logger_runtime_current_def)

lemma no_lock_failures: "k_locks d = [] \<Longrightarrow> pthread_call d = (0, d)"
  by (simp add: pthread_call_def)

lemma finish_quiet:
  "k_locks d = [] \<Longrightarrow> finish_result scope rc (s, d) = (rc, (set_borrowed False (release_borrow scope) s, d\<lparr>in_global := False\<rparr>))"
  by (simp add: finish_result_def no_lock_failures)

lemma sample_admitted: "begin_global (sample_domain []) = (0, (sample_domain [])\<lparr>in_global := True\<rparr>)"
  by (simp add: begin_global_def logger_process_is_child_def logger_scope_busy_def logger_fork_fd_preparing_def
      sample_domain_def sample_runtime_def logger_process_require_def pthread_call_def g_lock_error_def logger_runtime_current_def)

lemma binding_frame [simp]:
  "g_ticket (d\<lparr>in_global := b\<rparr>) = g_ticket d" "g_logger (d\<lparr>in_global := b\<rparr>) = g_logger d"
  "g_lock_error (d\<lparr>in_global := b\<rparr>) = g_lock_error d" "k_locks (set_ticket t d) = k_locks d" "k_locks (set_default p d) = k_locks d"
  by (simp_all add: g_ticket_def g_logger_def g_lock_error_def logger_runtime_current_def set_ticket_def set_default_def update_runtime_def)

lemma lock_error_set [simp]:
  "current d \<noteq> None \<Longrightarrow> g_lock_error (set_ticket t d) = g_lock_error d"
  by (auto simp: g_lock_error_def logger_runtime_current_def set_ticket_def update_runtime_def)

theorem default_set_correct_witness:
  "case logger_default_set alone_env None (Some 0) sample_world of (rc, (s', d')) \<Rightarrow>
     rc = 0 \<and> g_logger d' = Some 0 \<and> phase_of (g_ticket d') = G_RUNNING \<and>
     unat (generation_of (g_ticket d')) = unat (generation_of (g_ticket (snd sample_world))) + 1"
proof -
  let ?d = "(sample_domain [])\<lparr>in_global := True\<rparr>"
  obtain rc s' d' where c: "logger_default_set alone_env None (Some 0) (fst sample_world, snd sample_world) = (rc, (s', d'))"
    by (metis surj_pair)
  have locks: "k_locks ?d = []" by (simp add: sample_domain_def)
  have cur: "current ?d \<noteq> None" using sample_binding(1) by simp
  have "rc = 0" using c sample_binding cur
    by (simp add: logger_default_set_def sample_world_def sample_admitted lock_control_def alone_env_def set_checks_def
        set_exchange_def no_lock_failures [OF locks] no_lock_failures locks finish_quiet fresh_scope_def phase_of_def generation_of_def
        sample_logger_def Let_def)
  then show ?thesis using default_set_correct [OF c alone_sound] c
    by (simp add: sample_world_def sample_binding)
qed

section \<open>Calls on the default instance\<close>

lemma pin_success:
  assumes "pin env scope (s, d) = (0, scope', (s', d'))"
  obtains d1 where "pthread_call d = (0, d1)" "ge_reader env (s, d1) = (s', d')" "phase_of (g_ticket d) = G_RUNNING"
    "g_ticket d' = g_ticket d" "g_logger d' \<noteq> None" "g_lock_error d' = 0" "scope' = scope\<lparr>lifetime_locked := True\<rparr>"
proof -
  obtain e d1 where c1: "pthread_call d = (e, d1)" by fastforce
  have ph: "phase_error (g_ticket d) d = 0 \<Longrightarrow> phase_of (g_ticket d) = G_RUNNING"
    by (auto simp: phase_error_def errno_or_def Let_def split: if_splits)
  show thesis
    using assms c1 ph by (intro that [of d1]) (auto simp: pin_def Let_def split: if_splits prod.splits)
qed

lemma default_call_total: "\<exists>rc r s' d'. with_default env refused (\<lambda>l d. Some (f l d)) w = Some (rc, r, (s', d'))"
  by (simp add: with_default_def Let_def case_prod_beta)

text \<open>C37.
  A call on the default instance. When the call was made on an instance, the process had been admitted,
  the binding was in the running phase before the read side of the lifetime lock was taken and the
  ticket was still the same, with no failed lock, once it was held; the call was made exactly on the
  instance of the slot. When the call returns 0, the instance's own operation returned 0 and the store holds
  its result at that place and is otherwise as the call found it. When no call was made the
  return value is an error, and the store is the one the other threads left.
\<close>

theorem default_call_pinned:
  assumes run: "with_default env refused op (s, d) = Some (rc, r, (s', d'))"
  shows "case r of
      Some v \<Rightarrow> refused = 0 \<and> phase_of (g_ticket d) = G_RUNNING \<and>
        (\<exists>d1 d2 s2 d3 i rc4 l4 d4. begin_global d = (0, d1) \<and> pthread_call d1 = (0, d2) \<and> ge_reader env (s, d2) = (s2, d3) \<and>
          g_ticket d3 = g_ticket d \<and> g_lock_error d3 = 0 \<and> g_logger d3 = Some i \<and> op (s2 i) d3 = Some (rc4, v, l4, d4) \<and>
          (rc = 0 \<longrightarrow> rc4 = 0 \<and> s' = s2(i := l4) \<and> current d' = current d4))
    | None \<Rightarrow> rc \<noteq> 0"
proof -
  obtain rc1 d1 where c1: "begin_global d = (rc1, d1)" by fastforce
  obtain rc2 scope s2 d3 where c2: "(if refused \<noteq> 0 then (refused, fresh_scope, (s, d1)) else pin env fresh_scope (s, d1)) = (rc2, scope, (s2, d3))"
    by (metis surj_pair)
  note stage = run [unfolded with_default_def prod.case c1 c2 Let_def]
  consider (out) "rc1 \<noteq> 0" | (unpinned) "rc1 = 0" "rc2 \<noteq> 0" | (called) "rc1 = 0" "rc2 = 0" by blast
  then show ?thesis
  proof cases
    case out
    then show ?thesis using stage by auto
  next
    case unpinned
    then have "r = None" "\<exists>w. finish_result scope rc2 (s2, d3) = (rc, w)" using stage by (auto split: prod.splits)
    then show ?thesis using unpinned finish_success by fastforce
  next
    case called
    have ref: "refused = 0" and p: "pin env fresh_scope (s, d1) = (0, scope, (s2, d3))" using c2 called by (auto split: if_splits)
    have k1: "g_ticket d1 = g_ticket d" using begin_admits c1 called binding_current(1) by blast
    obtain d2 where l: "pthread_call d1 = (0, d2)" "ge_reader env (s, d2) = (s2, d3)" "phase_of (g_ticket d1) = G_RUNNING"
        "g_ticket d3 = g_ticket d1" "g_logger d3 \<noteq> None" "g_lock_error d3 = 0" "scope = fresh_scope\<lparr>lifetime_locked := True\<rparr>"
      using pin_success [OF p] by metis
    obtain i where i: "g_logger d3 = Some i" using l(5) by blast
    obtain rc4 v l4 d4 where o4: "op (s2 i) d3 = Some (rc4, v, l4, d4)" using stage called i by (auto split: option.splits)
    have fin: "finish_result scope rc4 (s2(i := l4), d4) = (rc, (s', d'))" "r = Some v"
      using stage called i o4 by (auto split: prod.splits)
    have "rc = 0 \<longrightarrow> rc4 = 0 \<and> s' = s2(i := l4) \<and> current d' = current d4"
      using finish_success [of scope rc4 "s2(i := l4)" d4 s' d'] fin l(7) by (auto simp: fresh_scope_def set_borrowed_def)
    then show ?thesis using ref l i o4 fin(2) c1 called k1 by auto
  qed
qed

text \<open>The same process after the instance has been bound: generation 1, running. The default query of its level is served.\<close>

definition bound_world :: world where
  "bound_world = (fst sample_world, set_default (Some 0) (set_ticket 9 (sample_domain [])))"

theorem default_call_pinned_witness:
  "\<exists>w. with_default alone_env 0 (\<lambda>l d. Some (0, l_level (the l), l, d)) bound_world
     = Some (0, Some (l_level (sample_logger 1 zero_queue)), w) \<and> phase_of (g_ticket (snd bound_world)) = G_RUNNING"
proof -
  obtain rc r s' d' where c: "with_default alone_env 0 (\<lambda>l d. Some (0, l_level (the l), l, d)) (fst bound_world, snd bound_world)
      = Some (rc, r, (s', d'))"
    using default_call_total [of alone_env 0 "\<lambda>l d. (0, l_level (the l), l, d)" "(fst bound_world, snd bound_world)"] by blast
  have "rc = 0 \<and> r = Some (l_level (sample_logger 1 zero_queue))" using c
    by (simp add: with_default_def bound_world_def sample_world_def pin_def phase_error_def phase_of_def Let_def
        fresh_scope_def set_borrowed_def sample_domain_def sample_runtime_def finish_result_def pthread_call_def
        begin_global_def logger_process_is_child_def logger_scope_busy_def logger_fork_fd_preparing_def logger_process_require_def
        g_ticket_def g_logger_def g_lock_error_def logger_runtime_current_def set_ticket_def set_default_def update_runtime_def
        alone_env_def sample_logger_def)
  then show ?thesis using default_call_pinned [OF c] c by (auto simp: bound_world_def)
qed

end
