(* ===== verification/Logger_Console.thy ===== *)
theory Logger_Console
  imports Logger_Emit Logger_Process
begin

text \<open>
  \<^verbatim>\<open>src/console.c\<close>: the terminal channel. Its settings, the verbosity and the colour mode, are two fields of
  one word of the runtime object; its two streams belong to the process.

  A stream holds the text it has accepted and not yet passed on and the text that has reached the
  descriptor. A stdio call can accept a part of its text and fail. \<open>fs_tty\<close> is the answer of \<^verbatim>\<open>isatty\<close>:
  the value 1, or 0 with an error number. A format is given by the text it expands to, \<open>None\<close>
  for a null pointer.
\<close>

section \<open>The streams\<close>

record file_stream =
  fs_buffer :: string
  fs_text :: string
  fs_tty :: "errno + unit"

record console_streams =
  c_stdout :: file_stream
  c_stderr :: file_stream

text \<open>A stdio call: the error number, or \<open>None\<close> when it succeeds.\<close>

definition stream_put :: "string \<Rightarrow> file_stream \<Rightarrow> domain \<Rightarrow> errno option \<times> file_stream \<times> domain" where
  "stream_put p f d =
     (case next_call d of
        (Fail e, d1) \<Rightarrow> (Some e, f, if e = EPIPE then raise_sigpipe d1 else d1)
      | (Short n, d1) \<Rightarrow> (if n < length p then Some EIO else None, f\<lparr>fs_buffer := fs_buffer f @ take n p\<rparr>, d1)
      | (Done, d1) \<Rightarrow> (None, f\<lparr>fs_buffer := fs_buffer f @ p\<rparr>, d1))"

definition stream_pass :: "nat \<Rightarrow> file_stream \<Rightarrow> file_stream" where
  "stream_pass n f = f\<lparr>fs_text := fs_text f @ take n (fs_buffer f), fs_buffer := drop n (fs_buffer f)\<rparr>"

definition stream_flush :: "file_stream \<Rightarrow> domain \<Rightarrow> errno option \<times> file_stream \<times> domain" where
  "stream_flush f d =
     (case next_call d of
        (Fail e, d1) \<Rightarrow> (Some e, f, if e = EPIPE then raise_sigpipe d1 else d1)
      | (Short n, d1) \<Rightarrow> (if n < length (fs_buffer f) then Some EIO else None, stream_pass n f, d1)
      | (Done, d1) \<Rightarrow> (None, stream_pass (length (fs_buffer f)) f, d1))"

text \<open>The same calls through the gate of \<^verbatim>\<open>src/logger_libc.c\<close>: 0 or the error number.\<close>

definition stdio_call ::
  "(file_stream \<Rightarrow> domain \<Rightarrow> errno option \<times> file_stream \<times> domain) \<Rightarrow> file_stream \<Rightarrow> domain \<Rightarrow> errno \<times> file_stream \<times> domain" where
  "stdio_call op f d =
     (case libc_begin d of (e, d1) \<Rightarrow>
        if e \<noteq> 0 then (e, f, d1)
        else case op f d1 of (r, f1, d2) \<Rightarrow>
          case libc_end (case r of Some e1 \<Rightarrow> errno_or e1 EIO | None \<Rightarrow> 0) d2 of (e2, d3) \<Rightarrow> (e2, f1, d3))"

definition logger_libc_vfprintf :: "string \<Rightarrow> file_stream \<Rightarrow> domain \<Rightarrow> errno \<times> file_stream \<times> domain" where
  "logger_libc_vfprintf expansion = stdio_call (stream_put expansion)"

definition logger_libc_fprintf :: "string \<Rightarrow> file_stream \<Rightarrow> domain \<Rightarrow> errno \<times> file_stream \<times> domain" where
  "logger_libc_fprintf expansion = logger_libc_vfprintf expansion"

definition logger_libc_fputc :: "char \<Rightarrow> file_stream \<Rightarrow> domain \<Rightarrow> errno \<times> file_stream \<times> domain" where
  "logger_libc_fputc c = stdio_call (stream_put [c])"

definition logger_libc_fflush :: "file_stream \<Rightarrow> domain \<Rightarrow> errno \<times> file_stream \<times> domain" where
  "logger_libc_fflush = stdio_call stream_flush"

definition c_isatty :: "file_stream \<Rightarrow> domain \<Rightarrow> (errno + unit) \<times> domain" where
  "c_isatty f = syscall (\<lambda>k. (fs_tty f, k))"

section \<open>The settings\<close>

abbreviation COLOR_BITS :: nat where "COLOR_BITS \<equiv> 2"
abbreviation COLOR_MASK :: u32 where "COLOR_MASK \<equiv> 3"
abbreviation CONSOLE_COLOR_AUTO :: u32 where "CONSOLE_COLOR_AUTO \<equiv> 0"
abbreviation CONSOLE_COLOR_ALWAYS :: u32 where "CONSOLE_COLOR_ALWAYS \<equiv> 1"
abbreviation CONSOLE_COLOR_NEVER :: u32 where "CONSOLE_COLOR_NEVER \<equiv> 2"
abbreviation CONSOLE_QUIET :: u32 where "CONSOLE_QUIET \<equiv> 0"
abbreviation CONSOLE_NORMAL :: u32 where "CONSOLE_NORMAL \<equiv> 1"
abbreviation CONSOLE_VERBOSE :: u32 where "CONSOLE_VERBOSE \<equiv> 2"
abbreviation CONSOLE_DEBUG :: u32 where "CONSOLE_DEBUG \<equiv> 3"
abbreviation CONSOLE_CONFIG_VERSION :: u32 where "CONSOLE_CONFIG_VERSION \<equiv> 1"
abbreviation CONSOLE_CONFIG_SIZE :: nat where "CONSOLE_CONFIG_SIZE \<equiv> 16"

record console_config_t =
  cc_struct_size :: u32
  cc_version :: u32
  cc_verbosity :: u32
  cc_color :: u32

definition g_config :: "domain \<Rightarrow> u32" where
  "g_config d = console_config (logger_runtime_current d)"

definition store_config :: "u32 \<Rightarrow> domain \<Rightarrow> domain" where
  "store_config v = update_runtime (console_config_update (\<lambda>_. v))"

definition g_console_lock_error :: "domain \<Rightarrow> errno" where
  "g_console_lock_error d = console_lock_error (logger_runtime_current d)"

text \<open>The argument is the pointed-to structure with the bytes after it.\<close>

definition console_init :: "(console_config_t \<times> u8 list) option \<Rightarrow> domain \<Rightarrow> int \<times> domain" where
  "console_init c d = (case in_scope (\<lambda>_ d1.
     case c of
       None \<Rightarrow> (- EINVAL, (), d1)
     | Some (known, _) \<Rightarrow>
       (case logger_uapi_copy_struct CONSOLE_CONFIG_SIZE c (cc_struct_size known) (cc_version known) CONSOLE_CONFIG_VERSION of (rc, out) \<Rightarrow>
          if rc \<noteq> 0 then (rc, (), d1)
          else let config = the out in
            if CONSOLE_DEBUG < cc_verbosity config \<or> CONSOLE_COLOR_NEVER < cc_color config then (- EINVAL, (), d1)
            else (0, (), store_config (push_bit COLOR_BITS (cc_verbosity config) OR cc_color config) d1))) () d
     of (rc, _, d2) \<Rightarrow> (rc, d2))"

definition replace_config :: "u32 \<Rightarrow> bool \<Rightarrow> u32 \<Rightarrow> u32" where
  "replace_config value color old =
     (if color then (old AND NOT COLOR_MASK) OR value else (old AND COLOR_MASK) OR push_bit COLOR_BITS value)"

text \<open>
  The compare-and-exchange loop. \<open>rivals\<close> lists the values it finds when an exchange fails, as another
  thread stored them; when the list is used up the exchange succeeds.
\<close>

fun exchange_config :: "u32 list \<Rightarrow> u32 \<Rightarrow> bool \<Rightarrow> domain \<Rightarrow> domain" where
  "exchange_config [] value color d = store_config (replace_config value color (g_config d)) d"
| "exchange_config (r # rs) value color d = exchange_config rs value color (store_config r d)"

definition set_config :: "u32 list \<Rightarrow> u32 \<Rightarrow> bool \<Rightarrow> domain \<Rightarrow> int \<times> domain" where
  "set_config rivals value color d = (case in_scope (\<lambda>_ d1.
     if (if color then CONSOLE_COLOR_NEVER else CONSOLE_DEBUG) < value then (- EINVAL, (), d1)
     else (0, (), exchange_config rivals value color d1)) () d
     of (rc, _, d2) \<Rightarrow> (rc, d2))"

definition console_set_verbosity :: "u32 list \<Rightarrow> u32 \<Rightarrow> domain \<Rightarrow> int \<times> domain" where
  "console_set_verbosity rivals value = set_config rivals value False"

definition console_set_color :: "u32 list \<Rightarrow> u32 \<Rightarrow> domain \<Rightarrow> int \<times> domain" where
  "console_set_color rivals value = set_config rivals value True"

text \<open>The terminal queries; \<open>out\<close> says whether the pointer is set, the value is what is written there.\<close>

definition tty :: "file_stream \<Rightarrow> bool \<Rightarrow> domain \<Rightarrow> int \<times> bool option \<times> domain" where
  "tty f out d = (case in_scope (\<lambda>_ d1.
     if \<not> out then (- EINVAL, None, d1)
     else case c_isatty f d1 of
       (Inr _, d2) \<Rightarrow> (0, Some True, d2)
     | (Inl e, d2) \<Rightarrow> (if e = ENOTTY then 0 else - errno_or e EIO, Some False, d2)) None d
     of (rc, yes, d2) \<Rightarrow> (rc, if rc = 0 then yes else None, d2))"

definition console_stdout_is_tty :: "console_streams \<Rightarrow> bool \<Rightarrow> domain \<Rightarrow> int \<times> bool option \<times> domain" where
  "console_stdout_is_tty s = tty (c_stdout s)"

definition console_stderr_is_tty :: "console_streams \<Rightarrow> bool \<Rightarrow> domain \<Rightarrow> int \<times> bool option \<times> domain" where
  "console_stderr_is_tty s = tty (c_stderr s)"

section \<open>Output\<close>

definition color_enabled :: "u32 \<Rightarrow> file_stream \<Rightarrow> domain \<Rightarrow> bool \<times> domain" where
  "color_enabled config f d =
     (let color = config AND COLOR_MASK in
      if color \<noteq> CONSOLE_COLOR_AUTO then (color = CONSOLE_COLOR_ALWAYS, d)
      else case c_isatty f d of (r, d1) \<Rightarrow> (\<not> isl r, d1))"

text \<open>The first error and whether any call failed with a broken pipe, after a call with the code \<open>e\<close>.\<close>

definition stdio_error :: "errno \<Rightarrow> int \<times> bool \<Rightarrow> int \<times> bool" where
  "stdio_error e st = (case st of (rc, saw) \<Rightarrow>
     if e = 0 then (rc, saw) else (if rc = 0 then - e else rc, saw \<or> e = EPIPE))"

type_synonym output_state = "(int \<times> bool) \<times> file_stream \<times> domain"

definition stdio_step :: "bool \<Rightarrow> (file_stream \<Rightarrow> domain \<Rightarrow> errno \<times> file_stream \<times> domain) \<Rightarrow> output_state \<Rightarrow> output_state" where
  "stdio_step guard op st = (case st of (e, f, d) \<Rightarrow>
     if \<not> guard then st else case op f d of (e1, f1, d1) \<Rightarrow> (stdio_error e1 e, f1, d1))"

text \<open>The label with its colour sequence; the reset sequence follows the colon.\<close>

definition label_text :: "string \<Rightarrow> string option \<Rightarrow> bool \<Rightarrow> string" where
  "label_text label ansi color =
     (case ansi of
        Some seq \<Rightarrow> if color then seq @ label @ '':'' @ [CHR 0x1B] @ ''[0m '' else label @ '': ''
      | None \<Rightarrow> label @ '': '')"

definition write_parts :: "(string \<times> string option) option \<Rightarrow> u32 \<Rightarrow> string \<Rightarrow> file_stream \<Rightarrow> domain \<Rightarrow> output_state" where
  "write_parts label config p f d =
     (let st1 = (case label of
            None \<Rightarrow> ((0, False), f, d)
          | Some (name, ansi) \<Rightarrow> (case color_enabled config f d of (on, d1) \<Rightarrow>
              stdio_step True (logger_libc_fprintf (label_text name ansi on)) ((0, False), f, d1)));
          st2 = stdio_step (fst (fst st1) = 0) (logger_libc_vfprintf p) st1;
          st3 = stdio_step (fst (fst st2) = 0 \<and> label \<noteq> None) (logger_libc_fputc (CHR 10)) st2
      in stdio_step True logger_libc_fflush st3)"

text \<open>The console's mutex and the signal guard around the stdio calls; the lock error stays once it is set.\<close>

definition console_locked :: "(file_stream \<Rightarrow> domain \<Rightarrow> output_state) \<Rightarrow> file_stream \<Rightarrow> domain \<Rightarrow> int \<times> file_stream \<times> domain" where
  "console_locked body f d =
     (let lock_error = g_console_lock_error d in
      if lock_error \<noteq> 0 then (- lock_error, f, d)
      else case pthread_call d of (locked, d1) \<Rightarrow>
        if locked \<noteq> 0 then (- locked, f, d1)
        else case logger_sigpipe_begin d1 of (rc, guard, d2) \<Rightarrow>
          case (if rc = 0 then body f d2 else ((rc, False), f, d2)) of ((rc2, saw_epipe), f3, d3) \<Rightarrow>
            case pthread_call d3 of (unlocked, d4) \<Rightarrow>
              let d5 = (if unlocked \<noteq> 0 then update_runtime (console_lock_error_update (\<lambda>_. unlocked)) d4 else d4);
                  rc3 = (if rc2 = 0 then - unlocked else rc2)
              in if rc = 0 then (case logger_sigpipe_end guard rc3 saw_epipe d5 of (rc4, d6) \<Rightarrow> (rc4, f3, d6))
                 else (rc3, f3, d5))"

definition write_v ::
  "(string \<times> string option) option \<Rightarrow> u32 \<Rightarrow> string option \<Rightarrow> file_stream \<Rightarrow> domain \<Rightarrow> int \<times> file_stream \<times> domain" where
  "write_v label config fmt f d =
     (case fmt of None \<Rightarrow> (- EINVAL, f, d) | Some p \<Rightarrow> console_locked (write_parts label config p) f d)"

definition console_print :: "string option \<Rightarrow> console_streams \<Rightarrow> domain \<Rightarrow> int \<times> console_streams \<times> domain" where
  "console_print fmt = in_scope (\<lambda>s d.
     case write_v None (g_config d) fmt (c_stdout s) d of (rc, f, d1) \<Rightarrow> (rc, s\<lparr>c_stdout := f\<rparr>, d1))"

definition diagnostic :: "u32 \<Rightarrow> string \<Rightarrow> string \<Rightarrow> string option \<Rightarrow> console_streams \<Rightarrow> domain \<Rightarrow> int \<times> console_streams \<times> domain" where
  "diagnostic minimum label color fmt = in_scope (\<lambda>s d.
     let config = g_config d in
     if fmt = None then (- EINVAL, s, d)
     else if sint minimum \<le> sint (drop_bit COLOR_BITS config)
     then (case write_v (Some (label, Some color)) config fmt (c_stderr s) d of (rc, f, d1) \<Rightarrow> (rc, s\<lparr>c_stderr := f\<rparr>, d1))
     else (0, s, d))"

definition console_info :: "string option \<Rightarrow> console_streams \<Rightarrow> domain \<Rightarrow> int \<times> console_streams \<times> domain" where
  "console_info = diagnostic CONSOLE_NORMAL ''INFO'' (CHR 0x1B # ''[36m'')"

definition console_warn :: "string option \<Rightarrow> console_streams \<Rightarrow> domain \<Rightarrow> int \<times> console_streams \<times> domain" where
  "console_warn = diagnostic CONSOLE_QUIET ''WARN'' (CHR 0x1B # ''[33m'')"

definition console_error :: "string option \<Rightarrow> console_streams \<Rightarrow> domain \<Rightarrow> int \<times> console_streams \<times> domain" where
  "console_error = diagnostic CONSOLE_QUIET ''ERROR'' (CHR 0x1B # ''[31m'')"

definition console_verbose :: "string option \<Rightarrow> console_streams \<Rightarrow> domain \<Rightarrow> int \<times> console_streams \<times> domain" where
  "console_verbose = diagnostic CONSOLE_VERBOSE ''INFO'' (CHR 0x1B # ''[36m'')"

definition console_debug :: "string option \<Rightarrow> console_streams \<Rightarrow> domain \<Rightarrow> int \<times> console_streams \<times> domain" where
  "console_debug = diagnostic CONSOLE_DEBUG ''DEBUG'' (CHR 0x1B # ''[90m'')"

text \<open>The merged text of a debug message with its source, or the error.\<close>

definition source_message :: "string option \<Rightarrow> int \<Rightarrow> string option \<Rightarrow> string \<Rightarrow> domain \<Rightarrow> (errno + string) \<times> domain" where
  "source_message file line func expansion d =
     (let base = (case file of Some p \<Rightarrow> (case after_last CHR ''/'' p of Some q \<Rightarrow> q | None \<Rightarrow> p) | None \<Rightarrow> ''?'') in
      case logger_libc_vsnprintf expansion d of
        (Inl e, d1) \<Rightarrow> (Inl (errno_or e EILSEQ), d1)
      | (Inr message, d1) \<Rightarrow>
        if 3072 \<le> length message then (Inl EOVERFLOW, d1)
        else case logger_libc_snprintf (base @ '':'' @ dec_int line @ '' '' @ (case func of Some g \<Rightarrow> g | None \<Rightarrow> ''?'') @ ''() '' @ message) d1 of
          (Inl e, d2) \<Rightarrow> (Inl (errno_or e EILSEQ), d2)
        | (Inr merged, d2) \<Rightarrow> (if 4096 \<le> length merged then Inl EOVERFLOW else Inr merged, d2))"

definition console_debug_source ::
  "string option \<Rightarrow> int \<Rightarrow> string option \<Rightarrow> string option \<Rightarrow> console_streams \<Rightarrow> domain \<Rightarrow> int \<times> console_streams \<times> domain" where
  "console_debug_source file line func fmt = in_scope (\<lambda>s d.
     let config = g_config d in
     case fmt of
       None \<Rightarrow> (- EINVAL, s, d)
     | Some expansion \<Rightarrow>
       if drop_bit COLOR_BITS config < CONSOLE_DEBUG then (0, s, d)
       else case source_message file line func expansion d of
         (Inl e, d1) \<Rightarrow> (- e, s, d1)
       | (Inr merged, d1) \<Rightarrow>
         (case console_locked (\<lambda>f d2.
             stdio_step True logger_libc_fflush (stdio_step True (logger_libc_fprintf (''DEBUG: '' @ merged @ [CHR 10])) ((0, False), f, d2)))
             (c_stderr s) d1 of (rc, f, d3) \<Rightarrow> (rc, s\<lparr>c_stderr := f\<rparr>, d3)))"

end
