(* ===== verification/Logger_Console_Props.thy ===== *)
theory Logger_Console_Props
  imports Logger_Console Logger_Worker_Props
begin

text \<open>
  The terminal channel: what reaches the streams, the containment of the signal of a broken pipe, and the
  settings.
\<close>

section \<open>Streams\<close>

text \<open>Everything a stream has accepted, passed on or not.\<close>

definition accepted :: "file_stream \<Rightarrow> string" where
  "accepted f = fs_text f @ fs_buffer f"

lemma put_facts:
  assumes "stream_put p f d = (r, f', d')"
  shows "\<exists>m\<le>length p. accepted f' = accepted f @ take m p \<and> (r = None \<longrightarrow> m = length p)"
    and "fs_tty f' = fs_tty f"
proof -
  have "\<exists>m\<le>length p. fs_buffer f' = fs_buffer f @ take m p \<and> (r = None \<longrightarrow> m = length p)" "fs_text f' = fs_text f"
    using assms
    by (auto simp: stream_put_def split: prod.splits outcome.splits if_splits
        intro: exI [of _ 0] exI [of _ "length p"] exI [of _ n for n])
      (metis min.cobounded2 min.commute order_le_less take_all take_take linorder_not_le)+
  then show "\<exists>m\<le>length p. accepted f' = accepted f @ take m p \<and> (r = None \<longrightarrow> m = length p)"
    by (auto simp: accepted_def)
  show "fs_tty f' = fs_tty f" using assms by (auto simp: stream_put_def split: prod.splits outcome.splits)
qed

lemma flush_facts:
  assumes "stream_flush f d = (r, f', d')"
  shows "accepted f' = accepted f" "fs_tty f' = fs_tty f" "r = None \<Longrightarrow> fs_buffer f' = []"
  using assms by (auto simp: stream_flush_def stream_pass_def accepted_def split: prod.splits outcome.splits if_splits)

section \<open>Signals\<close>

interpretation signals: domain_view signals_of
  by unfold_locales (auto simp: signals_of_def update_runtime_def)

lemma held_back_view:
  assumes "signals_of d2 = signals_of d1" "k_locks d2 = []" "held_back d saw d1"
  shows "held_back d saw d2"
  using assms by (simp add: held_back_def signals_of_def)

lemma locks_kept:
  "k_locks d = [] \<Longrightarrow> k_locks (snd (libc_begin d)) = []" "k_locks d = [] \<Longrightarrow> k_locks (snd (libc_end e d)) = []"
  by (auto simp: libc_begin_def libc_end_def Let_def case_prod_beta pthread_call_empty waited_def logger_fork_resource_poison_def
      update_runtime_def split: list.splits)

definition raises_only :: "(file_stream \<Rightarrow> domain \<Rightarrow> errno option \<times> file_stream \<times> domain) \<Rightarrow> bool" where
  "raises_only op \<longleftrightarrow> (\<forall>f d r f' d' d0 saw. op f d = (r, f', d') \<and> held_back d0 saw d \<longrightarrow> held_back d0 (saw \<or> r = Some EPIPE) d')"

lemma stream_raises: "raises_only (stream_put p)" "raises_only stream_flush"
  unfolding raises_only_def
  by (auto simp: stream_put_def stream_flush_def held_back_def raise_sigpipe_def next_call_def split: prod.splits outcome.splits if_splits list.splits)

lemma stdio_call_held:
  assumes run: "stdio_call op f d = (e, f', d')" and op: "raises_only op" and held: "held_back d0 saw d"
  shows "held_back d0 (saw \<or> e = EPIPE) d'"
proof -
  obtain e1 d1 where c1: "libc_begin d = (e1, d1)" by fastforce
  obtain r f1 d2 where c2: "op f d1 = (r, f1, d2)" by (metis surj_pair)
  obtain e3 d3 where c3: "libc_end (case r of Some e1 \<Rightarrow> errno_or e1 EIO | None \<Rightarrow> 0) d2 = (e3, d3)" by fastforce
  have l: "k_locks d = []" using held by (simp add: held_back_def)
  have h1: "held_back d0 saw d1"
    using held_back_view [OF _ _ held, of d1] signals.libc_view(1) [of d] locks_kept(1) [OF l] c1 by simp
  have h2: "held_back d0 (saw \<or> r = Some EPIPE) d2" using op c2 h1 unfolding raises_only_def by blast
  then have l2: "k_locks d2 = []" by (simp add: held_back_def)
  have h3: "held_back d0 (saw \<or> r = Some EPIPE) d3"
    using held_back_view [OF _ _ h2, of d3] signals.libc_view(2) [of _ d2] locks_kept(2) [OF l2] c3 by (metis snd_conv)
  have e3: "r = Some EPIPE \<Longrightarrow> e3 = EPIPE" using c3 by (auto simp: libc_end_def errno_or_def Let_def split: prod.splits)
  show ?thesis
    using run h1 h3 e3 unfolding stdio_call_def c1 c2 c3 prod.case by (auto simp: held_back_def split: if_splits)
qed

section \<open>Writing\<close>

text \<open>
  The state after the stdio calls for \<open>p\<close> on the stream \<open>f\<close>: a beginning of \<open>p\<close> was accepted, all of it
  when no call failed.
\<close>

definition put_so_far :: "file_stream \<Rightarrow> string \<Rightarrow> output_state \<Rightarrow> bool" where
  "put_so_far f p st \<longleftrightarrow> (case st of ((rc, saw), f', d') \<Rightarrow>
     (\<exists>m\<le>length p. accepted f' = accepted f @ take m p \<and> (rc = 0 \<longrightarrow> m = length p)) \<and> fs_tty f' = fs_tty f)"

lemma stdio_put:
  assumes "stdio_call (stream_put p) f d = (e, f', d')"
  shows "(\<exists>m\<le>length p. accepted f' = accepted f @ take m p \<and> (e = 0 \<longrightarrow> m = length p)) \<and> fs_tty f' = fs_tty f"
proof -
  obtain e1 d1 where c1: "libc_begin d = (e1, d1)" by fastforce
  obtain r f1 d2 where c2: "stream_put p f d1 = (r, f1, d2)" by (metis surj_pair)
  obtain e3 d3 where c3: "libc_end (case r of Some e1 \<Rightarrow> errno_or e1 EIO | None \<Rightarrow> 0) d2 = (e3, d3)" by fastforce
  have nz: "e3 = 0 \<Longrightarrow> r = None" using c3 by (auto simp: libc_end_def errno_or_def Let_def split: prod.splits if_splits option.splits)
  show ?thesis
  proof (cases "e1 = 0")
    case True
    then show ?thesis using assms nz put_facts [OF c2] unfolding stdio_call_def c1 c2 c3 prod.case by auto
  next
    case False
    then show ?thesis using assms unfolding stdio_call_def c1 prod.case by (auto intro: exI [of _ 0])
  qed
qed

lemma stdio_flush:
  assumes "stdio_call stream_flush f d = (e, f', d')"
  shows "accepted f' = accepted f \<and> fs_tty f' = fs_tty f \<and> (e = 0 \<longrightarrow> fs_buffer f' = [])"
proof -
  obtain e1 d1 where c1: "libc_begin d = (e1, d1)" by fastforce
  obtain r f1 d2 where c2: "stream_flush f d1 = (r, f1, d2)" by (metis surj_pair)
  obtain e3 d3 where c3: "libc_end (case r of Some e1 \<Rightarrow> errno_or e1 EIO | None \<Rightarrow> 0) d2 = (e3, d3)" by fastforce
  have nz: "e3 = 0 \<Longrightarrow> r = None" using c3 by (auto simp: libc_end_def errno_or_def Let_def split: prod.splits if_splits option.splits)
  show ?thesis
    using assms nz flush_facts [OF c2] unfolding stdio_call_def c1 c2 c3 prod.case by (auto split: if_splits)
qed

lemma put_step:
  assumes "put_so_far f p st" "g \<longleftrightarrow> fst (fst st) = 0"
  shows "put_so_far f (p @ q) (stdio_step g (stdio_call (stream_put q)) st)"
proof -
  obtain rc saw f1 d1 where st: "st = ((rc, saw), f1, d1)" by (metis surj_pair)
  obtain m where m: "m \<le> length p" "accepted f1 = accepted f @ take m p" "rc = 0 \<longrightarrow> m = length p" and tty: "fs_tty f1 = fs_tty f"
    using assms(1) by (auto simp: put_so_far_def st)
  obtain e f2 d2 where c: "stdio_call (stream_put q) f1 d1 = (e, f2, d2)" by (metis surj_pair)
  obtain k where k: "k \<le> length q" "accepted f2 = accepted f1 @ take k q" "e = 0 \<longrightarrow> k = length q" "fs_tty f2 = fs_tty f1"
    using stdio_put [OF c] by auto
  show ?thesis
  proof (cases "rc = 0")
    case True
    then show ?thesis using m k tty assms(2)
      by (auto simp: put_so_far_def st stdio_step_def c stdio_error_def intro!: exI [of _ "length p + k"])
  next
    case False
    then show ?thesis using m tty assms(2) by (auto simp: put_so_far_def st stdio_step_def intro!: exI [of _ m])
  qed
qed

lemma flush_step:
  assumes "put_so_far f p st" "stdio_step True logger_libc_fflush st = ((rc, saw), f', d')"
  shows "(\<exists>m\<le>length p. accepted f' = accepted f @ take m p \<and> (rc = 0 \<longrightarrow> m = length p)) \<and> (rc = 0 \<longrightarrow> fs_buffer f' = [])"
proof -
  obtain rc1 saw1 f1 d1 where st: "st = ((rc1, saw1), f1, d1)" by (metis surj_pair)
  obtain e f2 d2 where c: "stdio_call stream_flush f1 d1 = (e, f2, d2)" by (metis surj_pair)
  show ?thesis
    using assms stdio_flush [OF c] by (auto simp: put_so_far_def st stdio_step_def logger_libc_fflush_def c stdio_error_def split: if_splits)
qed

lemma step_held:
  assumes "raises_only op" "case st of ((rc, saw), f, d) \<Rightarrow> held_back d0 saw d"
  shows "case stdio_step g (stdio_call op) st of ((rc, saw), f, d) \<Rightarrow> held_back d0 saw d"
proof -
  obtain rc1 saw1 f1 d1 where st: "st = ((rc1, saw1), f1, d1)" by (metis surj_pair)
  obtain e f2 d2 where c: "stdio_call op f1 d1 = (e, f2, d2)" by (metis surj_pair)
  have "held_back d0 (saw1 \<or> e = EPIPE) d2" using stdio_call_held [OF c assms(1)] assms(2) by (simp add: st)
  then show ?thesis using assms(2) by (auto simp: st stdio_step_def c stdio_error_def held_back_def)
qed

text \<open>The line a label and a text make, with or without colour, and when colour may be used.\<close>

definition console_line :: "(string \<times> string option) option \<Rightarrow> bool \<Rightarrow> string \<Rightarrow> string" where
  "console_line label on p = (case label of None \<Rightarrow> p | Some (name, ansi) \<Rightarrow> label_text name ansi on @ p @ [CHR 10])"

definition color_allowed :: "u32 \<Rightarrow> file_stream \<Rightarrow> bool \<Rightarrow> bool" where
  "color_allowed config f on \<longleftrightarrow>
     (if config AND COLOR_MASK = CONSOLE_COLOR_AUTO then on \<longrightarrow> fs_tty f = Inr () else on = (config AND COLOR_MASK = CONSOLE_COLOR_ALWAYS))"

lemma color_facts:
  assumes "color_enabled config f d = (on, d1)"
  shows "color_allowed config f on" "signals_of d1 = signals_of d" "k_locks d1 = k_locks d"
  using assms
  by (auto simp: color_enabled_def color_allowed_def c_isatty_def syscall_def next_call_def signals_of_def Let_def
      split: if_splits prod.splits outcome.splits list.splits)
    (cases "fs_tty f"; auto)+

lemma write_parts_facts:
  assumes run: "write_parts label config p f d = ((rc, saw), f', d')"
  shows "\<exists>on. color_allowed config f on \<and>
      (\<exists>m\<le>length (console_line label on p). accepted f' = accepted f @ take m (console_line label on p) \<and>
         (rc = 0 \<longrightarrow> m = length (console_line label on p))) \<and> (rc = 0 \<longrightarrow> fs_buffer f' = [])"
    and "held_back d0 False d \<Longrightarrow> held_back d0 saw d'"
proof -
  obtain on d1 where c1: "color_enabled config f d = (on, d1)" by fastforce
  define st1 where "st1 = (case label of None \<Rightarrow> ((0, False), f, d)
     | Some (name, ansi) \<Rightarrow> stdio_step True (stdio_call (stream_put (label_text name ansi on))) ((0, False), f, d1))"
  define st2 where "st2 = stdio_step (fst (fst st1) = 0) (stdio_call (stream_put p)) st1"
  define st3 where "st3 = stdio_step (fst (fst st2) = 0 \<and> label \<noteq> None) (stdio_call (stream_put [CHR 10])) st2"
  have fin: "stdio_step True logger_libc_fflush st3 = ((rc, saw), f', d')"
    using run unfolding write_parts_def Let_def st3_def st2_def st1_def
    by (cases label) (auto simp: c1 logger_libc_fprintf_def logger_libc_vfprintf_def logger_libc_fputc_def)
  have s1: "put_so_far f (case label of None \<Rightarrow> [] | Some (name, ansi) \<Rightarrow> label_text name ansi on) st1"
    using put_step [of f "[]" "((0, False), f, d1)" True]
    by (auto simp: st1_def put_so_far_def split: option.splits prod.splits)
  note s2 = put_step [OF s1 refl, of p, folded st2_def]
  have "put_so_far f (console_line label on p) st3"
  proof (cases label)
    case None
    then show ?thesis using s2 by (auto simp: st3_def stdio_step_def console_line_def split: prod.splits)
  next
    case (Some l)
    then show ?thesis using put_step [OF s2 refl, of "[CHR 10]"] by (auto simp: st3_def console_line_def split: prod.splits)
  qed
  from flush_step [OF this fin] color_facts(1) [OF c1]
  show "\<exists>on. color_allowed config f on \<and>
      (\<exists>m\<le>length (console_line label on p). accepted f' = accepted f @ take m (console_line label on p) \<and>
         (rc = 0 \<longrightarrow> m = length (console_line label on p))) \<and> (rc = 0 \<longrightarrow> fs_buffer f' = [])" by blast
  assume held: "held_back d0 False d"
  then have "k_locks d1 = []" using color_facts(3) [OF c1] by (simp add: held_back_def)
  from held_back_view [OF color_facts(2) [OF c1] this held] have "case st1 of ((rc, saw), f, d) \<Rightarrow> held_back d0 saw d"
    using held step_held [OF stream_raises(1), where st = "((0, False), f, d1)" and ?d0.0 = d0]
    by (auto simp: st1_def split: option.splits)
  then have "case st3 of ((rc, saw), f, d) \<Rightarrow> held_back d0 saw d"
    unfolding st3_def st2_def by (intro step_held stream_raises)
  from step_held [OF stream_raises(2) this, of True] show "held_back d0 saw d'"
    using fin by (simp add: logger_libc_fflush_def)
qed

lemma console_locked_output:
  assumes run: "console_locked body f d = (rc, f', d')"
  shows "f' = f \<and> rc \<noteq> 0 \<or> (\<exists>d2 rc2 saw d3. body f d2 = ((rc2, saw), f', d3) \<and> (rc = 0 \<longrightarrow> rc2 = 0))"
proof -
  obtain locked d1 where c1: "pthread_call d = (locked, d1)" by fastforce
  obtain rc1 guard d2 where c2: "logger_sigpipe_begin d1 = (rc1, guard, d2)" by (metis surj_pair)
  obtain rc2 saw f3 d3 where c3: "(if rc1 = 0 then body f d2 else ((rc1, False), f, d2)) = ((rc2, saw), f3, d3)" by (metis surj_pair)
  obtain unlocked d4 where c4: "pthread_call d3 = (unlocked, d4)" by fastforce
  note stage = run [unfolded console_locked_def Let_def c1 c2 c3 c4 prod.case]
  have fin: "logger_sigpipe_end guard r saw d5 = (0, d6) \<Longrightarrow> r = 0" for r d5 d6
    by (auto simp: logger_sigpipe_end_def Let_def split: prod.splits if_splits)
  show ?thesis
  proof (cases "g_console_lock_error d = 0 \<and> locked = 0 \<and> rc1 = 0")
    case True
    then have b: "body f d2 = ((rc2, saw), f3, d3)" using c3 by simp
    have "f' = f3" "rc = 0 \<longrightarrow> rc2 = 0" using stage True by (auto split: prod.splits if_splits dest!: fin)
    then show ?thesis using b by auto
  next
    case False
    then show ?thesis using stage c3 by (auto split: if_splits)
  qed
qed

lemma console_locked_signals:
  assumes run: "console_locked body f d = (rc, f', d')" and ok: "signals_ok d"
    and body: "\<And>d2 rc2 saw f3 d3. body f d2 = ((rc2, saw), f3, d3) \<Longrightarrow> held_back d False d2 \<Longrightarrow> held_back d saw d3"
  shows "signals_of d' = signals_of d \<and> k_locks d' = []"
proof -
  have l: "k_locks d = []" using ok by (simp add: signals_ok_def)
  obtain guard d2 where c2: "logger_sigpipe_begin d = (0, guard, d2)" and h2: "held_back d False d2" using guard_started [OF ok] by blast
  obtain rc2 saw f3 d3 where c3: "body f d2 = ((rc2, saw), f3, d3)" by (metis surj_pair)
  have h3: "held_back d saw d3" by (rule body [OF c3 h2])
  have c4: "pthread_call d3 = (0, d3)" using h3 by (simp add: held_back_def pthread_call_empty)
  obtain rc4 d6 where c6: "logger_sigpipe_end guard rc2 saw d3 = (rc4, d6)" by fastforce
  note stage = run [unfolded console_locked_def Let_def pthread_call_empty [OF l] c2 c3 c4 prod.case if_True simp_thms]
  show ?thesis
    using stage guard_contains [OF ok c2 h3 c6] c6 c3 c4 l by (auto split: if_splits)
qed

lemma scope_facts:
  "logger_scope_begin d = (rc, d1) \<Longrightarrow> current d1 = current d \<and> signals_of d1 = signals_of d \<and> (k_locks d = [] \<longrightarrow> k_locks d1 = [])"
  "logger_scope_end e rc d = (rc', e', d1) \<Longrightarrow> signals_of d1 = signals_of d \<and> (rc' = 0 \<longrightarrow> rc = 0)"
  by (auto simp: logger_scope_begin_def logger_scope_end_def pthread_call_def signals_of_def Let_def
      split: if_splits prod.splits list.splits)

lemma in_scope_stages:
  assumes "in_scope body s d = (rc, s', d')"
  obtains (refused) "s' = s" "rc \<noteq> 0" "signals_of d' = signals_of d"
  | (entered) d1 rc2 d2 where "current d1 = current d" "signals_of d1 = signals_of d" "k_locks d = [] \<longrightarrow> k_locks d1 = []"
      "body s d1 = (rc2, s', d2)" "rc = 0 \<longrightarrow> rc2 = 0" "signals_of d' = signals_of d2"
proof -
  obtain rc1 d1 where c1: "logger_scope_begin d = (rc1, d1)" by fastforce
  obtain rc2 s2 d2 where c2: "body s d1 = (rc2, s2, d2)" by (metis surj_pair)
  obtain rc3 e3 d3 where c3: "logger_scope_end 0 rc2 d2 = (rc3, e3, d3)" by (metis surj_pair)
  note stage = assms [unfolded in_scope_def c1 c2 c3 prod.case]
  show thesis
  proof (cases "rc1 = 0")
    case True
    then show thesis using stage scope_facts(1) [OF c1] scope_facts(2) [OF c3] c2 by (intro entered [of d1 rc2 d2]) auto
  next
    case False
    then show thesis using stage scope_facts(1) [OF c1] by (intro refused) auto
  qed
qed

lemma allowed_exists: "\<exists>on. color_allowed config f on"
  by (intro exI [of _ "config AND COLOR_MASK = CONSOLE_COLOR_ALWAYS"]) (simp add: color_allowed_def)

text \<open>What a diagnostic is to write: nothing below the verbosity or for a null format.\<close>

definition diagnostic_line :: "u32 \<Rightarrow> string \<Rightarrow> string \<Rightarrow> u32 \<Rightarrow> bool \<Rightarrow> string option \<Rightarrow> string" where
  "diagnostic_line minimum name color config on fmt =
     (case fmt of
        None \<Rightarrow> []
      | Some p \<Rightarrow> if sint minimum \<le> sint (drop_bit COLOR_BITS config) then console_line (Some (name, Some color)) on p else [])"

text \<open>C40. The console's diagnostics, whatever locks, stdio calls or signal calls fail: \<^verbatim>\<open>stdout\<close> is not
  touched; \<^verbatim>\<open>stderr\<close> accepts a beginning of the line made of the label, the text and a newline, or nothing
  when the verbosity is below the diagnostic's; code 0 means that all of it was accepted and flushed. The
  label is coloured when the mode asks for it, and in the automatic mode only on a terminal. When no signal call fails, a
  broken pipe leaves the thread's mask, its pending signals and the signals it received as they were.\<close>

theorem console_diagnostic_correct:
  assumes run: "diagnostic minimum name color fmt s d = (rc, s', d')"
  shows "c_stdout s' = c_stdout s \<and>
    (\<exists>on. color_allowed (g_config d) (c_stderr s) on \<and>
      (\<exists>m. accepted (c_stderr s') = accepted (c_stderr s) @ take m (diagnostic_line minimum name color (g_config d) on fmt) \<and>
        (rc = 0 \<longrightarrow> fmt \<noteq> None \<and> length (diagnostic_line minimum name color (g_config d) on fmt) \<le> m \<and>
          (diagnostic_line minimum name color (g_config d) on fmt \<noteq> [] \<longrightarrow> fs_buffer (c_stderr s') = [])))) \<and>
    (signals_ok d \<longrightarrow> signals_of d' = signals_of d)"
  using run unfolding diagnostic_def
proof (cases rule: in_scope_stages)
  case refused
  then show ?thesis using allowed_exists by (auto intro!: exI [of _ 0])
next
  case (entered d1 rc2 d2)
  have cfg: "g_config d1 = g_config d" using entered(1) by (simp add: g_config_def logger_runtime_current_def)
  note b = entered(4) [unfolded Let_def cfg]
  show ?thesis
  proof (cases "\<exists>p. fmt = Some p \<and> sint minimum \<le> sint (drop_bit COLOR_BITS (g_config d))")
    case True
    then obtain p where p: "fmt = Some p" "sint minimum \<le> sint (drop_bit COLOR_BITS (g_config d))" by blast
    let ?body = "write_parts (Some (name, Some color)) (g_config d) p"
    obtain f' where c: "console_locked ?body (c_stderr s) d1 = (rc2, f', d2)" "s' = s\<lparr>c_stderr := f'\<rparr>"
      using b p by (auto simp: write_v_def split: prod.splits)
    have sig: "signals_ok d \<longrightarrow> signals_of d' = signals_of d"
      using console_locked_signals [OF c(1)] write_parts_facts(2) entered(2,3,6) by (auto simp: signals_ok_def signals_of_def)
    have line: "diagnostic_line minimum name color (g_config d) on fmt = console_line (Some (name, Some color)) on p" for on
      using p by (simp add: diagnostic_line_def)
    have out: "\<exists>on. color_allowed (g_config d) (c_stderr s) on \<and>
        (\<exists>m. accepted f' = accepted (c_stderr s) @ take m (console_line (Some (name, Some color)) on p) \<and>
          (rc2 = 0 \<longrightarrow> length (console_line (Some (name, Some color)) on p) \<le> m \<and> fs_buffer f' = []))"
      using console_locked_output [OF c(1)]
    proof
      assume "f' = c_stderr s \<and> rc2 \<noteq> 0"
      then show ?thesis using allowed_exists by (auto intro!: exI [of _ 0])
    next
      assume "\<exists>d2 rca saw d3. ?body (c_stderr s) d2 = ((rca, saw), f', d3) \<and> (rc2 = 0 \<longrightarrow> rca = 0)"
      then show ?thesis using write_parts_facts(1) by (metis order_refl)
    qed
    then show ?thesis using sig c(2) p(1) entered(5) unfolding line by auto
  next
    case False
    then have "s' = s" "d2 = d1" "rc2 = 0 \<longrightarrow> fmt \<noteq> None" using b by (auto split: if_splits)
    then show ?thesis using False entered(2,5,6) allowed_exists [of "g_config d" "c_stderr s"]
      by (auto simp: diagnostic_line_def split: option.splits)
  qed
qed

definition terminal :: file_stream where
  "terminal = \<lparr>fs_buffer = [], fs_text = [], fs_tty = Inr ()\<rparr>"

theorem console_diagnostic_correct_witness:
  "\<exists>s' d' on m. console_warn (Some ''disk'') \<lparr>c_stdout = terminal, c_stderr = terminal\<rparr> (sample_domain [Done, Short 2]) = (- EIO, s', d') \<and>
     c_stdout s' = terminal \<and>
     accepted (c_stderr s') = take m (diagnostic_line CONSOLE_QUIET ''WARN'' (CHR 0x1B # ''[33m'') 0 on (Some ''disk'')) \<and>
     signals_of d' = signals_of (sample_domain [Done, Short 2])"
proof -
  let ?d = "sample_domain [Done, Short 2]" and ?s = "\<lparr>c_stdout = terminal, c_stderr = terminal\<rparr>"
  obtain rc s' d' where c: "console_warn (Some ''disk'') ?s ?d = (rc, s', d')" by (metis surj_pair)
  have "rc = - EIO" using c
    by (simp add: console_warn_def diagnostic_def in_scope_def logger_scope_begin_def logger_scope_end_def logger_scope_busy_def
        logger_process_is_child_def logger_process_require_def logger_fork_fd_preparing_def sample_domain_def sample_runtime_def
        pthread_call_def g_config_def g_console_lock_error_def logger_runtime_current_def write_v_def console_locked_def
        logger_sigpipe_begin_def sys_block_sigpipe_def sys_sigpending_def write_parts_def color_enabled_def c_isatty_def
        syscall_def next_call_def effective_def terminal_def stdio_step_def stdio_error_def logger_libc_fprintf_def
        logger_libc_vfprintf_def logger_libc_fputc_def logger_libc_fflush_def stdio_call_def libc_begin_def libc_end_def
        waited_def stream_put_def label_text_def stream_flush_def stream_pass_def logger_sigpipe_end_def
        sys_restore_sigmask_def set_sigmask_def Let_def errno_or_def)
  moreover have "g_config ?d = 0" by code_simp
  moreover have "signals_ok ?d" by (simp add: signals_ok_def sample_domain_def)
  ultimately have facts: "rc = - EIO" "g_config ?d = 0" "signals_ok ?d" by blast+
  note ok = console_diagnostic_correct [OF c [unfolded console_warn_def], unfolded facts(2)]
  obtain on m where m: "accepted (c_stderr s') = accepted (c_stderr ?s) @
      take m (diagnostic_line CONSOLE_QUIET ''WARN'' (CHR 0x1B # ''[33m'') 0 on (Some ''disk''))"
    using ok by blast
  have "c_stdout s' = terminal" "signals_of d' = signals_of ?d" using ok facts(3) by auto
  moreover have "accepted (c_stderr ?s) = []" by (simp add: accepted_def terminal_def)
  ultimately show ?thesis using c facts(1) m by (intro exI [of _ s'] exI [of _ d'] exI [of _ on] exI [of _ m]) simp
qed

end
