(* ===== verification/Logger_Fork_Props.thy ===== *)
theory Logger_Fork_Props
  imports Logger_Global Logger_Worker_Props
begin

text \<open>
  The two sides of a fork: what the child closes, what it can no longer reach, and how it starts a
  domain of its own.
\<close>

section \<open>Initialisation and the calling thread\<close>

text \<open>
  \<^verbatim>\<open>logger_process_init\<close> with the state of the thread that calls it: a child that got its new domain also drops the
  log context and the formatter's cache it inherited.
\<close>

definition init_thread :: "int option \<Rightarrow> thread_state \<Rightarrow> domain \<Rightarrow> int \<times> thread_state \<times> domain" where
  "init_thread rival t d =
     (case logger_process_init rival d of (rc, d1) \<Rightarrow>
        (rc, if logger_process_is_child d \<and> \<not> forked_child d1
             then (logger_context_reset_child t)\<lparr>th_cache := logger_format_reset_child (th_cache t)\<rparr> else t, d1))"

section \<open>Clearing the lowest bit\<close>

lemma lowest_cleared:
  fixes b :: "'a::len word"
  assumes "bit b c" "\<And>i. i < c \<Longrightarrow> \<not> bit b i"
  shows "bit (b AND (b - 1)) n \<longleftrightarrow> bit b n \<and> n \<noteq> c"
proof -
  define u where "u = unset_bit c b"
  have c: "c < LENGTH('a)" using assms(1) by (rule bit_imp_le_length)
  have "u AND 2 ^ c = 0" by (rule bit_eqI) (auto simp: u_def bit_simps)
  then have "u + 2 ^ c = u OR 2 ^ c" by (rule disjunctive_add_eq_or)
  also have "\<dots> = b" using assms(1) c by (intro bit_eqI) (auto simp: u_def bit_simps)
  finally have "b - 1 = u + mask c" by (simp add: mask_eq_exp_minus_1)
  also have "u AND mask c = 0" using assms(2) by (intro bit_eqI) (auto simp: u_def bit_simps)
  then have "u + mask c = u OR mask c" by (rule disjunctive_add_eq_or)
  finally have "b - 1 = u OR mask c" .
  then show ?thesis using assms(2) bit_imp_le_length [of b n] by (auto simp: u_def bit_simps)
qed

lemma below_ctz: "i < ctz (w :: 'a::len word) \<Longrightarrow> \<not> bit w i"
  using ctz_le [of w] nth_mem [of i "takeWhile (\<lambda>i. \<not> bit w i) [0..<LENGTH('a)]"] set_takeWhileD
  by (fastforce simp: ctz_def takeWhile_nth)

lemmas next_bits = lowest_cleared [OF bit_ctz(2) below_ctz]

section \<open>Closing the inherited descriptors\<close>

lemma released_obj: "0 \<le> fd \<Longrightarrow> fd_obj (release_fd fd k) x = (if x = fd then None else fd_obj k x)"
  by (auto simp: release_fd_def fd_obj_def nth_list_update)

lemma sys_close_obj:
  assumes "0 \<le> fd"
  shows "fd_obj (snd (sys_close fd k)) x = (if x = fd then None else fd_obj k x)"
proof -
  have same: "fd_obj (snd (next_call k)) y = fd_obj k y" for y by (cases "k_calls k") (simp_all add: next_call_def fd_obj_def)
  show ?thesis using released_obj [OF assms, of "snd (next_call k)"] same by (simp add: sys_close_def case_prod_beta)
qed

text \<open>The part of the state a close does not reach.\<close>

definition fork_frame :: "domain \<Rightarrow> _" where
  "fork_frame d = (files_of d, k_locks d, k_pid d, current d, process_ticket d, initializing d, handlers_registered d,
     retained_bootstrap d, child_valid d, snapshot_fds d, forked_child d)"

lemma fork_frame_updates [simp]:
  "fork_frame (d\<lparr>child_error := e\<rparr>) = fork_frame d" "fork_frame (snd (sys_close fd d)) = fork_frame d"
  by (simp_all add: fork_frame_def files_of_def sys_close_def next_call_def release_fd_def case_prod_beta split: list.splits)

definition close_noted :: "int \<Rightarrow> domain \<Rightarrow> domain" where
  "close_noted fd d = (case sys_close fd d of (r, d1) \<Rightarrow>
     (case r of Inl e \<Rightarrow> (if child_error d1 = 0 then d1\<lparr>child_error := e\<rparr> else d1) | Inr _ \<Rightarrow> d1))"

lemma close_noted_facts:
  assumes "0 \<le> fd"
  shows "fd_obj (close_noted fd d) x = (if x = fd then None else fd_obj d x)" "fork_frame (close_noted fd d) = fork_frame d"
    "k_calls d = [] \<Longrightarrow> k_calls (close_noted fd d) = []"
    "k_calls d = [] \<Longrightarrow> fd_obj d fd \<noteq> None \<Longrightarrow> child_error (close_noted fd d) = child_error d"
proof -
  obtain r d1 where c: "sys_close fd d = (r, d1)" by fastforce
  have "fd_obj d1 x = (if x = fd then None else fd_obj d x)" "fork_frame d1 = fork_frame d"
    using sys_close_obj [OF assms, of d x] fork_frame_updates(2) [of fd d] c by auto
  then show "fd_obj (close_noted fd d) x = (if x = fd then None else fd_obj d x)" "fork_frame (close_noted fd d) = fork_frame d"
    by (auto simp: close_noted_def c fd_obj_def split: sum.splits)
  have quiet: "k_calls d = [] \<Longrightarrow> k_calls d1 = [] \<and> child_error d1 = child_error d \<and> (fd_obj d fd \<noteq> None \<longrightarrow> r = Inr ())"
    using c by (auto simp: sys_close_def next_call_def release_fd_def split: if_splits)
  then show "k_calls d = [] \<Longrightarrow> k_calls (close_noted fd d) = []"
    "k_calls d = [] \<Longrightarrow> fd_obj d fd \<noteq> None \<Longrightarrow> child_error (close_noted fd d) = child_error d"
    by (auto simp: close_noted_def c split: sum.splits)
qed

text \<open>The descriptors a bitmap from word number \<open>w\<close> on names.\<close>

fun named :: "nat \<Rightarrow> u64 list \<Rightarrow> int set" where
  "named w [] = {}"
| "named w (b # ws) = {int (w * 64 + n) |n. bit b n} \<union> named (Suc w) ws"

lemma word_named: "x \<in> {int (w * 64 + n) |n. bit (b :: u64) n} \<longleftrightarrow> 0 \<le> x \<and> nat x div 64 = w \<and> bit b (nat x mod 64)"
proof
  assume "x \<in> {int (w * 64 + n) |n. bit b n}"
  then obtain n where n: "x = int (w * 64 + n)" "bit b n" by blast
  then have "n < 64" using bit_imp_le_length [of b n] by simp
  moreover have "nat x = w * 64 + n" using n(1) by simp
  ultimately show "0 \<le> x \<and> nat x div 64 = w \<and> bit b (nat x mod 64)" using n by simp
next
  assume x: "0 \<le> x \<and> nat x div 64 = w \<and> bit b (nat x mod 64)"
  then have "nat x = w * 64 + nat x mod 64" by (metis div_mult_mod_eq)
  then have "x = int (w * 64 + nat x mod 64)" using x by linarith
  then show "x \<in> {int (w * 64 + n) |n. bit b n}" using x by blast
qed

lemma named_iff:
  "x \<in> named w ws \<longleftrightarrow> 0 \<le> x \<and> w \<le> nat x div 64 \<and> nat x div 64 - w < length ws \<and> bit (ws ! (nat x div 64 - w)) (nat x mod 64)"
proof (induction ws arbitrary: w)
  case (Cons b ws)
  consider "nat x div 64 < w" | "nat x div 64 = w" | k where "nat x div 64 = w + Suc k"
    by (metis less_iff_Suc_add linorder_neqE_nat add_Suc_right)
  then show ?case unfolding named.simps Un_iff word_named Cons.IH by cases auto
qed simp

lemma owned_named: "is_owned d fd \<longleftrightarrow> fd \<in> named 0 (owned_words d)"
  by (auto simp: named_iff is_owned_def fd_word_def fd_bit_def and_exp_eq_0_iff_not_bit)

text \<open>What closing a set of descriptors does.\<close>

definition closes :: "int set \<Rightarrow> domain \<Rightarrow> domain \<Rightarrow> bool" where
  "closes A d d' \<longleftrightarrow> (\<forall>x. fd_obj d' x = (if x \<in> A then None else fd_obj d x)) \<and> fork_frame d' = fork_frame d \<and>
     (k_calls d = [] \<longrightarrow> k_calls d' = []) \<and>
     (k_calls d = [] \<and> (\<forall>x\<in>A. fd_obj d x \<noteq> None) \<longrightarrow> child_error d' = child_error d)"

lemma closes_none: "closes {} d d"
  by (simp add: closes_def)

lemma closes_append: "closes A d d1 \<Longrightarrow> closes B d1 d2 \<Longrightarrow> A \<inter> B = {} \<Longrightarrow> closes (A \<union> B) d d2"
  unfolding closes_def by (auto split: if_splits)

lemma closes_one: "0 \<le> fd \<Longrightarrow> closes {fd} d (close_noted fd d)"
  using close_noted_facts [of fd d] by (auto simp: closes_def)

lemma close_bits_closes: "closes {int (w * 64 + n) |n. bit bits n} d (close_bits w bits d)"
proof (induction w bits d rule: close_bits.induct)
  case (1 w bits d)
  show ?case
  proof (cases "bits = 0")
    case True
    then show ?thesis by (simp add: close_bits.simps closes_none)
  next
    case False
    let ?fd = "int (w * 64 + ctz bits)" and ?rest = "bits AND (bits - 1)"
    have step: "close_bits w bits d = close_bits w ?rest (close_noted ?fd d)"
      using False by (subst close_bits.simps) (simp add: close_noted_def case_prod_beta)
    have ih: "closes {int (w * 64 + n) |n. bit ?rest n} (close_noted ?fd d) (close_bits w ?rest (close_noted ?fd d))"
      using 1 [OF False] by (cases "sys_close ?fd d") (simp add: close_noted_def)
    have split: "{?fd} \<union> {int (w * 64 + n) |n. bit ?rest n} = {int (w * 64 + n) |n. bit bits n}"
      and disj: "{?fd} \<inter> {int (w * 64 + n) |n. bit ?rest n} = {}"
      using next_bits [OF False] bit_ctz(2) [OF False] by auto
    from closes_append [OF closes_one ih disj] show ?thesis unfolding split step by simp
  qed
qed

lemma close_words_closes: "closes (named w ws) d (close_words w ws d)"
proof (induction ws arbitrary: w d)
  case Nil
  then show ?case by (simp add: closes_none)
next
  case (Cons b ws)
  have "{int (w * 64 + n) |n. bit b n} \<inter> named (Suc w) ws = {}"
    unfolding disjoint_iff word_named named_iff by simp
  from closes_append [OF close_bits_closes Cons.IH this] show ?case by simp
qed

section \<open>The child\<close>

lemma libc_begin_owned:
  "current d \<noteq> None \<Longrightarrow> current (snd (libc_begin d)) \<noteq> None \<and> owned_words (snd (libc_begin d)) = owned_words d"
  by (auto simp: libc_begin_def Let_def case_prod_beta waited_def logger_fork_resource_poison_def update_runtime_def
      logger_runtime_current_def pthread_call_def split: list.splits)

definition child_frame :: "domain \<Rightarrow> _" where
  "child_frame d = (k_table d, files_of d, k_calls d, k_pid d, owner_pid d, forked_child d, process_ticket d, initializing d,
     handlers_registered d, retained_bootstrap d)"

lemma child_frame_updates [simp]:
  "child_frame (d\<lparr>k_locks := a\<rparr>) = child_frame d" "child_frame (d\<lparr>poisons := b\<rparr>) = child_frame d"
  "child_frame (d\<lparr>current := c\<rparr>) = child_frame d" "child_frame (d\<lparr>entered := e\<rparr>) = child_frame d"
  "child_frame (d\<lparr>prepared := p\<rparr>) = child_frame d" "child_frame (d\<lparr>prepare_error := q\<rparr>) = child_frame d"
  "child_frame (d\<lparr>in_gate := g\<rparr>) = child_frame d" "child_frame (d\<lparr>snapshot_fds := w\<rparr>) = child_frame d"
  "child_frame (d\<lparr>fork_depth := n\<rparr>) = child_frame d" "child_frame (d\<lparr>libc_prepared := l\<rparr>) = child_frame d"
  by (simp_all add: child_frame_def files_of_def)

lemma child_frame_calls [simp]:
  "child_frame (snd (pthread_call d)) = child_frame d" "child_frame (logger_fork_resource_poison e d) = child_frame d"
  "child_frame (waited d) = child_frame d"
  by (simp_all add: pthread_call_def logger_fork_resource_poison_def update_runtime_def waited_def Let_def split: list.splits)

lemma child_frame_libc [simp]: "child_frame (snd (libc_begin d)) = child_frame d"
  by (simp add: libc_begin_def Let_def case_prod_beta)

lemma prepared_kept [simp]:
  "prepared (snd (pthread_call d)) = prepared d" "prepared (snd (libc_begin d)) = prepared d"
  "prepared (snd (logger_libc_fork_prepare d)) = prepared d"
  by (auto simp: pthread_call_def libc_begin_def logger_libc_fork_prepare_def waited_def logger_fork_resource_poison_def
      update_runtime_def Let_def case_prod_beta split: list.splits)

lemma prepare_facts:
  assumes ok: "prepared (logger_fork_fd_prepare d)" "fork_depth (logger_fork_fd_prepare d) = 1" and cur: "current d \<noteq> None"
  shows "snapshot_fds (logger_fork_fd_prepare d) = owned_words d" "child_frame (logger_fork_fd_prepare d) = child_frame d"
    "logger_process_ready d" "\<not> logger_process_is_child d"
proof -
  define d2 where "d2 = d\<lparr>fork_depth := fork_depth d + 1, prepared := False, prepare_error := 0, snapshot_fds := []\<rparr>"
  obtain e d3 where c3: "logger_libc_fork_prepare d2 = (e, d3)" by fastforce
  obtain e1 d4 where c4: "pthread_call d3 = (e1, d4)" by fastforce
  define d5 where "d5 = (waited d4)\<lparr>prepared := True, in_gate := True\<rparr>"
  have z: "fork_depth d = 0" using ok(2) by (auto simp: logger_fork_fd_prepare_def Let_def split: if_splits)
  note stage = logger_fork_fd_prepare_def [of d, unfolded Let_def, folded d2_def, unfolded c3 c4 prod.case]
  have p3: "\<not> prepared d3" using prepared_kept(3) [of d2, unfolded c3 snd_conv] by (simp add: d2_def)
  then have p4: "\<not> prepared d4" using prepared_kept(1) [of d3, unfolded c4 snd_conv] by simp
  have run: "logger_fork_fd_prepare d = d5\<lparr>prepare_error := gate_error d5, snapshot_fds := owned_words d5\<rparr>"
    and rdy: "logger_process_ready d2" "\<not> logger_process_is_child d2" and ok3: "e = 0"
    using ok(1) z p3 p4 unfolding stage d5_def by (auto simp: d2_def split: if_splits)
  have k2: "current (d2\<lparr>libc_prepared := False\<rparr>) \<noteq> None" using cur by (simp add: d2_def)
  have d3: "d3 = (snd (libc_begin (d2\<lparr>libc_prepared := False\<rparr>)))\<lparr>libc_prepared := True\<rparr>"
    using c3 ok3 by (auto simp: logger_libc_fork_prepare_def split: prod.splits if_splits)
  have w3: "owned_words d3 = owned_words d" "current d3 \<noteq> None"
    using libc_begin_owned [OF k2] unfolding d3 by (simp_all add: d2_def logger_runtime_current_def)
  have w4: "owned_words d4 = owned_words d" "current d4 \<noteq> None"
    using w3 c4 by (auto simp: pthread_call_def logger_runtime_current_def split: list.splits)
  have "owned_words d5 = owned_words d"
    using w4 by (auto simp: d5_def waited_def logger_fork_resource_poison_def update_runtime_def logger_runtime_current_def Let_def split: list.splits)
  then show "snapshot_fds (logger_fork_fd_prepare d) = owned_words d" by (simp add: run)
  have "child_frame d3 = child_frame d" by (simp add: d3) (simp add: d2_def)
  moreover have "child_frame d4 = child_frame d3" using child_frame_calls(1) [of d3, unfolded c4 snd_conv] .
  ultimately show "child_frame (logger_fork_fd_prepare d) = child_frame d" by (simp add: run d5_def)
  show "logger_process_ready d" "\<not> logger_process_is_child d"
    using rdy by (auto simp: d2_def logger_process_ready_def logger_process_is_child_def)
qed

lemma prepare_locks: "k_locks d = [] \<Longrightarrow> k_locks (logger_fork_fd_prepare d) = []"
proof -
  assume l: "k_locks d = []"
  have b: "k_locks x = [] \<Longrightarrow> k_locks (snd (libc_begin x)) = []" for x
    by (auto simp: libc_begin_def Let_def case_prod_beta pthread_call_def waited_def logger_fork_resource_poison_def
        update_runtime_def split: list.splits)
  have w: "k_locks (waited x) = k_locks x" for x
    by (auto simp: waited_def logger_fork_resource_poison_def update_runtime_def Let_def split: list.splits)
  have lp: "k_locks x = [] \<Longrightarrow> k_locks (snd (logger_libc_fork_prepare x)) = []" for x
    using b [of "x\<lparr>libc_prepared := False\<rparr>"] by (simp add: logger_libc_fork_prepare_def case_prod_beta)
  have pc: "k_locks x = [] \<Longrightarrow> k_locks (snd (pthread_call x)) = []" for x :: domain by (simp add: pthread_call_def)
  show ?thesis using l by (simp add: logger_fork_fd_prepare_def Let_def case_prod_beta w lp pc)
qed

lemma parent_facts:
  "child_frame (logger_fork_fd_parent d) = child_frame d" "fork_depth d = 1 \<Longrightarrow> fork_depth (logger_fork_fd_parent d) = 0"
  "fork_depth d = 1 \<Longrightarrow> prepared d \<Longrightarrow> \<not> in_gate (logger_fork_fd_parent d)"
  by (auto simp: logger_fork_fd_parent_def logger_libc_fork_parent_def libc_end_def Let_def case_prod_beta pthread_call_def
      logger_fork_resource_poison_def update_runtime_def split: list.splits)

text \<open>The child of a process with the number \<open>pid\<close>, after a fork prepared in the state \<open>d\<close>.\<close>

definition forked :: "int \<Rightarrow> domain \<Rightarrow> domain" where
  "forked pid d = logger_process_invalidate_child ((logger_fork_fd_prepare d)\<lparr>k_pid := pid\<rparr>)"

definition fork_prepared :: "domain \<Rightarrow> bool" where
  "fork_prepared d \<longleftrightarrow> (let d1 = logger_fork_fd_prepare d in prepared d1 \<and> prepare_error d1 = 0 \<and> fork_depth d1 = 1)"

lemma forked_facts:
  assumes ok: "fork_prepared d" and cur: "current d \<noteq> None"
  shows "\<And>fd. fd_obj (forked pid d) fd = (if is_owned d fd then None else fd_obj d fd)"
    "files_of (forked pid d) = files_of d" "current (forked pid d) = None" "forked_child (forked pid d)"
    "logger_fork_fd_child_valid (forked pid d)" "k_calls d = [] \<Longrightarrow> k_calls (forked pid d) = []"
    "k_calls d = [] \<Longrightarrow> (\<And>fd. is_owned d fd \<Longrightarrow> fd_obj d fd \<noteq> None) \<Longrightarrow> child_error (forked pid d) = 0"
    "k_pid (forked pid d) = pid" "process_ticket (forked pid d) = process_ticket d" "initializing (forked pid d) = initializing d"
    "handlers_registered (forked pid d) = handlers_registered d" "retained_bootstrap (forked pid d) = retained_bootstrap d"
    "k_locks d = [] \<Longrightarrow> k_locks (forked pid d) = []"
proof -
  define d1 where "d1 = logger_fork_fd_prepare d"
  define c where "c = d1\<lparr>k_pid := pid, forked_child := True, child_valid := True, child_error := 0\<rparr>"
  have v: "prepared d1" "prepare_error d1 = 0" "fork_depth d1 = 1" using ok by (simp_all add: fork_prepared_def d1_def Let_def)
  note p = prepare_facts [OF v(1) [unfolded d1_def] v(3) [unfolded d1_def] cur, folded d1_def]
  define e where "e = close_words 0 (snapshot_fds c) c"
  have cl: "closes (named 0 (owned_words d)) c e" using close_words_closes [of 0 "snapshot_fds c" c] p(1) by (simp add: e_def c_def)
  have run: "forked pid d = e\<lparr>child_bitmap := replicate (length (snapshot_fds c)) 0, snapshot_fds := replicate (length (snapshot_fds c)) 0,
      prepared := False, fork_depth := 0, in_gate := False, directory_lease := None, libc_prepared := False, entered := False, current := None\<rparr>"
    using v unfolding forked_def d1_def [symmetric]
    by (simp add: logger_process_invalidate_child_def logger_fork_fd_child_def logger_runtime_invalidate_child_def logger_libc_fork_child_def
        e_def c_def Let_def)
  have tab: "fd_obj c fd = fd_obj d fd" for fd using p(2) by (auto simp: c_def child_frame_def fd_obj_def)
  have fr: "fork_frame e = fork_frame c" using cl by (simp add: closes_def)
  show "fd_obj (forked pid d) fd = (if is_owned d fd then None else fd_obj d fd)" for fd
  proof -
    have "fd_obj (forked pid d) fd = fd_obj e fd" by (simp add: run fd_obj_def)
    then show ?thesis using cl tab by (simp add: closes_def owned_named)
  qed
  show "files_of (forked pid d) = files_of d" "k_pid (forked pid d) = pid" "process_ticket (forked pid d) = process_ticket d"
    "initializing (forked pid d) = initializing d" "handlers_registered (forked pid d) = handlers_registered d"
    "retained_bootstrap (forked pid d) = retained_bootstrap d" "logger_fork_fd_child_valid (forked pid d)" "forked_child (forked pid d)"
    using fr p(2) by (auto simp: run fork_frame_def child_frame_def c_def files_of_def logger_fork_fd_child_valid_def)
  show "current (forked pid d) = None" by (simp add: run)
  show "k_locks d = [] \<Longrightarrow> k_locks (forked pid d) = []"
    using fr prepare_locks [of d] by (simp add: run fork_frame_def c_def d1_def)
  show "k_calls d = [] \<Longrightarrow> k_calls (forked pid d) = []" 
    using cl p(2) by (simp add: run closes_def c_def child_frame_def)
  show "child_error (forked pid d) = 0" if "k_calls d = []" "\<And>fd. is_owned d fd \<Longrightarrow> fd_obj d fd \<noteq> None"
    using cl p(2) that tab by (auto simp: run closes_def c_def child_frame_def owned_named)
qed

text \<open>C38. After a fork that the library could prepare, the child holds no descriptor of the library: every registered
  descriptor is closed, even when a close reports an error, and no other descriptor and no file content is touched. Until it
  initialises a domain of its own, it has no runtime object and every entry point refuses with
  \<^verbatim>\<open>ECHILD\<close> without taking a lock. In the parent the descriptors and files stay as they were and the gate is open again.\<close>

theorem fork_child_isolated:
  assumes "fork_prepared d" "current d \<noteq> None"
  shows "(\<forall>fd. fd_obj (forked pid d) fd = (if is_owned d fd then None else fd_obj d fd)) \<and>
    files_of (forked pid d) = files_of d \<and> current (forked pid d) = None \<and>
    logger_scope_begin (forked pid d) = (- ECHILD, forked pid d) \<and> begin_global (forked pid d) = (- ECHILD, forked pid d) \<and>
    logger_fork_resource_enter (forked pid d) = (ECHILD, forked pid d) \<and>
    (let p = logger_fork_fd_parent (logger_fork_fd_prepare d) in
       k_table p = k_table d \<and> files_of p = files_of d \<and> \<not> in_gate p \<and> fork_depth p = 0)"
proof -
  note f = forked_facts [OF assms, of pid]
  have child: "logger_process_is_child (forked pid d)" using f(4) by (simp add: logger_process_is_child_def)
  have v: "prepared (logger_fork_fd_prepare d)" "fork_depth (logger_fork_fd_prepare d) = 1"
    using assms(1) by (simp_all add: fork_prepared_def Let_def)
  have "child_frame (logger_fork_fd_parent (logger_fork_fd_prepare d)) = child_frame d"
    using prepare_facts(2) [OF v assms(2)] parent_facts(1) by simp
  then show ?thesis
    using f(1-3) child parent_facts(2,3) [OF v(2)] v(1)
    by (simp add: logger_scope_begin_def begin_global_def logger_fork_resource_enter_def logger_process_require_def child_frame_def Let_def)
qed

lemma sample_prepared: "fork_prepared (sample_domain calls)"
  by (simp add: fork_prepared_def logger_fork_fd_prepare_def logger_scope_busy_def logger_fork_fd_preparing_def logger_libc_busy_def
      logger_process_is_child_def logger_process_ready_def logger_libc_fork_prepare_def libc_begin_def logger_process_require_def
      pthread_call_def waited_def logger_runtime_current_def sample_domain_def sample_runtime_def Let_def)

text \<open>The sample process owns the descriptors 3, 4 and 5; its child keeps 0, 1 and 2 only, although the second close fails.\<close>

theorem fork_child_isolated_witness:
  "fd_obj (forked 8 (sample_domain [Done, Fail EIO])) 2 = Some (Node 3) \<and>
   fd_obj (forked 8 (sample_domain [Done, Fail EIO])) 4 = None \<and>
   logger_scope_begin (forked 8 (sample_domain [Done, Fail EIO])) = (- ECHILD, forked 8 (sample_domain [Done, Fail EIO]))"
proof -
  let ?d = "sample_domain [Done, Fail EIO]"
  have "current ?d \<noteq> None" "\<not> is_owned ?d 2" "is_owned ?d 4" "fd_obj ?d 2 = Some (Node 3)"
    by (simp_all add: sample_domain_def sample_runtime_def is_owned_def fd_word_def fd_bit_def logger_runtime_current_def fd_obj_def)
  then show ?thesis using fork_child_isolated [OF sample_prepared, of "[Done, Fail EIO]" 8] by simp
qed

lemma child_starts:
  assumes "fork_prepared d" "current d \<noteq> None" "k_calls d = []" "k_locks d = []" "retained_bootstrap d = None" "\<not> initializing d"
    "\<forall>fd. is_owned d fd \<longrightarrow> fd_obj d fd \<noteq> None" "pid \<noteq> 0"
  shows "\<exists>d' r. logger_process_init None (forked pid d) = (0, d') \<and> logger_process_require d' = 0 \<and> current d' = Some r \<and>
    owned_fds r = [] \<and> owned_count r = 0 \<and> allocations r = [] \<and> live_objects r = 0 \<and> global_logger r = None \<and> global_ticket r = 0 \<and>
    resource_error r = 0 \<and> console_config r = CONSOLE_DEFAULT \<and> k_table d' = k_table (forked pid d) \<and> files_of d' = files_of d \<and>
    \<not> forked_child d'"
proof -
  note f = forked_facts [OF assms(1,2), of pid]
  let ?c = "forked pid d"
  have "logger_process_ready d" using prepare_facts(3) assms(1,2) by (simp add: fork_prepared_def Let_def)
  then have ready: "process_ticket d = PROCESS_READY" by (simp add: logger_process_ready_def)
  have c: "k_calls ?c = []" "k_locks ?c = []" "retained_bootstrap ?c = None" "\<not> initializing ?c" "process_ticket ?c = PROCESS_READY"
    "child_error ?c = 0" "child_valid ?c" "forked_child ?c" "k_pid ?c = pid"
    using f assms(3-7) ready by (auto simp: logger_fork_fd_child_valid_def)
  have child: "logger_process_is_child ?c" using c(8) by (simp add: logger_process_is_child_def)
  have os: "os_call x = (0, x)" if "k_calls x = []" for x using that by (simp add: os_call_def syscall_def next_call_def)
  have pt: "pthread_call x = (0, x)" if "k_locks x = []" for x :: domain using that by (simp add: pthread_call_def)
  have locks: "init_locks n r x = (0, r\<lparr>initialized := initialized r + n\<rparr>, x)" if "k_locks x = []" for n r x
    using that by (induction n arbitrary: r) (simp_all add: pt)
  show ?thesis
    using c child f(2) assms(8)
    by (simp add: logger_process_init_def initialize_process_def logger_fork_fd_child_valid_def build_domain_def
        logger_fork_fd_child_reinit_def logger_runtime_create_def os pt locks syscall_def next_call_def
        logger_global_reset_child_def logger_scope_reset_child_def logger_runtime_publish_def fresh_runtime_def
        logger_process_require_def logger_process_is_child_def files_of_def Let_def)
qed

text \<open>C39. When every registered descriptor is open and no call fails, a child can start afresh: \<^verbatim>\<open>logger_process_init\<close>
  returns 0, the process is then admitted again, and its new domain has no descriptor, no allocation, no live
  instance, no default binding and the default console settings. The calling thread has lost the log context, the destroy
  receipt and the cached timestamp of the parent. Initialising changes no descriptor and no file.\<close>

theorem fork_child_restarts:
  assumes "fork_prepared d" "current d \<noteq> None" "k_calls d = []" "k_locks d = []" "retained_bootstrap d = None" "\<not> initializing d"
    "\<forall>fd. is_owned d fd \<longrightarrow> fd_obj d fd \<noteq> None" "pid \<noteq> 0"
    "g_request_id t \<noteq> []" "g_session_id t \<noteq> []" "g_trace_id t \<noteq> []"
  shows "\<exists>t' d' r. init_thread None t (forked pid d) = (0, t', d') \<and> logger_process_require d' = 0 \<and> current d' = Some r \<and>
    owned_fds r = [] \<and> owned_count r = 0 \<and> allocations r = [] \<and> live_objects r = 0 \<and> global_logger r = None \<and> global_ticket r = 0 \<and>
    resource_error r = 0 \<and> console_config r = CONSOLE_DEFAULT \<and> k_table d' = k_table (forked pid d) \<and> files_of d' = files_of d \<and>
    g_ctx t' = \<lparr>ctx_request_id = None, ctx_session_id = None, ctx_trace_id = None\<rparr> \<and> \<not> destroy_receipt t' \<and> \<not> tc_valid (th_cache t')"
proof -
  obtain d' r where run: "logger_process_init None (forked pid d) = (0, d')" "\<not> forked_child d'" and
    facts: "logger_process_require d' = 0" "current d' = Some r" "owned_fds r = []" "owned_count r = 0" "allocations r = []" "live_objects r = 0"
      "global_logger r = None" "global_ticket r = 0" "resource_error r = 0" "console_config r = CONSOLE_DEFAULT"
      "k_table d' = k_table (forked pid d)" "files_of d' = files_of d"
    using child_starts [OF assms(1-8)] by blast
  let ?t = "(logger_context_reset_child t)\<lparr>th_cache := logger_format_reset_child (th_cache t)\<rparr>"
  have "logger_process_is_child (forked pid d)" using forked_facts(4) [OF assms(1,2)] by (simp add: logger_process_is_child_def)
  then have "init_thread None t (forked pid d) = (0, ?t, d')" using run by (simp add: init_thread_def)
  moreover have "g_ctx ?t = \<lparr>ctx_request_id = None, ctx_session_id = None, ctx_trace_id = None\<rparr>" "\<not> destroy_receipt ?t" "\<not> tc_valid (th_cache ?t)"
    using assms(9-11) by (auto simp: g_ctx_def ctx_pointer_def logger_context_reset_child_def logger_destroy_receipt_reset_def logger_format_reset_child_def)
  ultimately show ?thesis using facts by blast
qed

theorem fork_child_restarts_witness:
  "\<exists>t' d' r. init_thread None sample_thread (forked 8 (sample_domain [])) = (0, t', d') \<and> logger_process_require d' = 0 \<and>
     current d' = Some r \<and> live_objects r = 0 \<and> \<not> tc_valid (th_cache t')"
proof -
  let ?d = "sample_domain []"
  have "bit (take_bit 6 (56 :: u64)) n \<Longrightarrow> n < 6" for n by (simp only: bit_take_bit_iff)
  then have "bit (56 :: u64) n \<Longrightarrow> n < 6" for n by simp
  then have low: "0 \<le> fd \<and> nat fd < 6" if "is_owned ?d fd" for fd
    using that unfolding owned_named named_iff
    by (auto simp: sample_domain_def sample_runtime_def logger_runtime_current_def div_eq_0_iff)
  have tab: "length (k_table ?d) = 6" "\<forall>x\<in>set (k_table ?d). x \<noteq> None" by (simp_all add: sample_domain_def)
  have "\<forall>fd. is_owned ?d fd \<longrightarrow> fd_obj ?d fd \<noteq> None"
    using low tab nth_mem [of _ "k_table ?d"] by (auto simp: fd_obj_def)
  moreover have "current ?d \<noteq> None" "k_calls ?d = []" "k_locks ?d = []" "retained_bootstrap ?d = None" "\<not> initializing ?d"
    by (simp_all add: sample_domain_def)
  moreover have "g_request_id sample_thread \<noteq> []" "g_session_id sample_thread \<noteq> []" "g_trace_id sample_thread \<noteq> []"
    by (simp_all add: sample_thread_def)
  ultimately show ?thesis using fork_child_restarts [OF sample_prepared, of "[]" 8 sample_thread] by fastforce
qed

end
