(* ===== verification/Spec2Isabelle.thy ===== *)
theory Spec2Isabelle
  imports Logger_Queue_Props Logger_Mpsc Logger_Wakeup Logger_Redact Logger_Guard
    Logger_Format_Props Logger_Timestamp Logger_File_Main Logger_Process Logger_Emit_Props
    Logger_Core_Props Logger_Create_Props Logger_Global_Props Logger_Console_Props Logger_Fork_Props
begin

text \<open>
  Verification of the c-logger library: an asynchronous logging library in C11 for Linux, with several
  independent instances per process, a default instance, and outputs to \<^verbatim>\<open>stderr\<close>, files and the local
  log socket.

  \<^bold>\<open>The program.\<close> A caller logs through \<^verbatim>\<open>src/logger.c\<close> (or, on the default instance, \<^verbatim>\<open>src/logger_global.c\<close>):
  the call is admitted by \<^verbatim>\<open>src/logger_scope.c\<close> and \<^verbatim>\<open>src/logger_process.c\<close>, the record of
  \<^verbatim>\<open>src/logger_record.h\<close> is built with the thread's context, and either written at once or pushed to the ring
  of \<^verbatim>\<open>src/logger_queue.c\<close>. The worker of \<^verbatim>\<open>src/logger_worker.c\<close> takes records in batches, formats
  them with \<^verbatim>\<open>src/logger_format.c\<close> and hands the lines to \<^verbatim>\<open>stderr\<close>, \<^verbatim>\<open>src/logger_file.c\<close> and
  \<^verbatim>\<open>src/logger_syslog.c\<close>. Descriptors and memory belong to the process domain of
  \<^verbatim>\<open>src/logger_runtime.c\<close> and \<^verbatim>\<open>src/logger_fork_fd.c\<close>, so that a forked child can drop them. Calls into libc
  pass the gate of \<^verbatim>\<open>src/logger_libc.c\<close>. \<^verbatim>\<open>src/console.c\<close> is a separate terminal channel,
  \<^verbatim>\<open>src/logger_redact.c\<close> masks secrets and \<^verbatim>\<open>src/logger_lockdep.c\<close> checks the lock order.

  \<^bold>\<open>Modelling.\<close> Machine integers are words of their width; enumerations the code range-checks are integers, so that
  invalid values exist. Structures are records with the C field names, prefixed where two structures share a
  name. A null pointer is \<^const>\<open>None\<close>. A function takes and returns the state it changes; its code is the C
  return value (0 or a negative \<^verbatim>\<open>errno\<close>, sometimes a positive one where the code has it so). The caller's
  own \<^verbatim>\<open>errno\<close>, which the public functions restore, is left out.

  The system is a state too (\<open>Logger_Os\<close>, \<open>Logger_Domain\<close>). \<open>k_calls\<close> schedules the outcome of the coming
  system calls (completion, a short transfer, any error) and \<open>k_locks\<close> that of the pthread calls, so a
  theorem about all states covers every pattern of failures. After the schedule all calls complete; loops that
  repeat interrupted calls therefore end, with the length of the schedule in their measures. What \<^verbatim>\<open>localtime_r\<close>,
  \<^verbatim>\<open>gmtime_r\<close> and the clocks return is part of the state. A format with its arguments is given by the text it expands to.

  Other threads appear in three ways: as steps of an interleaving (\<open>Logger_Mpsc\<close>, \<open>Logger_Wakeup\<close>,
  \<open>Logger_Lockdep\<close>); as functions that act at the points where a thread waits or can be overtaken (wait
  events, \<open>global_env\<close>, \<open>create_env\<close>); and as lists of values that make a compare-and-exchange fail
  (\<open>queue_env\<close>, the console's settings). A wait that is never signalled has no result: the functions that wait return
  an option, and the theorems on termination state that a result exists.

  \<^bold>\<open>Theories and what they show.\<close>

  \<^item> \<open>Logger_Prelude\<close>, \<open>Logger_Record\<close>: integer types, error numbers, C strings and copies; the log record.

  \<^item> \<open>Logger_Queue\<close>: the ring with its spill pool, as one definition per function. \<open>Logger_Queue_Size\<close>,
    \<open>_Record\<close>, \<open>_Fifo\<close> and \<open>_Spec\<close> hold the arithmetic of capacities, the meaning of a packed record, the
    invariant and the contract of a bounded queue (locale \<open>bounded_fifo\<close>, interpreted on the ring).
    \<open>Logger_Queue_Props\<close>: the ring refines a bounded list; push, pop, drain and construction on every branch.

  \<^item> \<open>Logger_Mpsc\<close>: the atomic steps of any number of producers and the consumer; records are delivered in order,
    none lost, repeated or torn, and a slot has one user at a time. \<open>Logger_Wakeup\<close>: no wake-up is lost.

  \<^item> \<open>Logger_Format\<close>, \<open>_Format_Props\<close>, \<open>Logger_Timestamp\<close>: the two formatters produce the line or its marked
    beginning, or the line or an error; the strict time check is equivalent to a calendar specification.

  \<^item> \<open>Logger_Redact\<close>, \<open>Logger_Lockdep\<close>, \<open>Logger_Guard\<close>: masking with overlapping buffers; threads that pass the
    order checks do not deadlock; the checked lock guards of \<^verbatim>\<open>src/logger_cleanup.h\<close> keep the checker's stack
    in step with the locks on every path.

  \<^item> \<open>Logger_Os\<close>, \<open>Logger_Domain\<close>, \<open>Logger_Fork_Fd\<close>, \<open>Logger_Process\<close>: the system, the process domain, the registry
    of descriptors and the fork handlers, initialisation and the allocator. \<open>Logger_Fork_Props\<close>: what a child
    closes, refuses and can start again.

  \<^item> \<open>Logger_File\<close>, \<open>Logger_Rotate\<close>: the file output. \<open>Logger_Frame\<close>, \<open>_File_Inv\<close>, \<open>_Rotate_Props\<close>,
    \<open>_Rotate_Main\<close>, \<open>_Fd_Props\<close> and \<open>_File_Props\<close> build up to \<open>Logger_File_Main\<close>: what a write appends under any
    failures, that rotation loses nothing, the size limit, and the archive names.

  \<^item> \<open>Logger_Syslog\<close> and \<open>Logger_Emit\<close>: the socket output, the signal guard, the output path and the worker, with
    their properties in \<open>Logger_Syslog_Props\<close>, \<open>Logger_Emit_Props\<close> and \<open>Logger_Worker_Props\<close>: each record counted once,
    one whole datagram per success, the reconnect interval, delivery to every selected output, and a stopped
    worker that ends with an empty queue.

  \<^item> \<open>Logger_View\<close>, \<open>Logger_Streams\<close>, \<open>Logger_Session\<close>: the locales \<open>domain_view\<close> and \<open>session_view\<close> state once which
    parts of the process the operations leave alone; their interpretations carry the frame conditions of the proofs.

  \<^item> \<open>Logger_Instance\<close>, \<open>Logger_Core\<close>, \<open>Logger_Lifecycle\<close>: the instance with every operation of
    \<^verbatim>\<open>src/logger.c\<close>. \<open>Logger_Core_Inv\<close> and \<open>_Core_Props\<close>: counters that add up, errors that stay, the fate of
    a record, what a flush promises, contexts. \<open>Logger_Lifecycle_Props\<close> and \<open>_Create_Props\<close>: construction with
    rollback, the ranges of the fields, and teardown only after the worker has drained the queue.

  \<^item> \<open>Logger_Global\<close>, \<open>Logger_Global_Props\<close>: tickets, replacement of the default binding and calls on it.

  \<^item> \<open>Logger_Console\<close>, \<open>Logger_Console_Props\<close>: the terminal channel.

  \<^bold>\<open>Bounds and fuel.\<close> The worker's loop has a fuel, one unit per round; the shutdown theorem shows that one
  round per queued record and one more are enough. Capacities, offsets and generations are words; where the code
  guards against overflow the theorems use exactly its guard (\<open>2 ^ 53\<close> slots, 61 bits of generation). A count of
  the \<open>live_objects\<close> or of a metric may wrap around, as in C.

  \<^bold>\<open>Not modelled.\<close> Memory orderings weaker than the interleaving of atomic steps; the generic scope macros of
  \<^verbatim>\<open>src/logger_cleanup.h\<close> and the macros of \<^verbatim>\<open>include/logger.h\<close> (the calls they expand to appear where the code makes
  them); thread cancellation beyond the codes of the calls that control it; the text a lock-order violation
  prints before it aborts; the fault injection hooks; examples, tests and benchmarks.
\<close>

end
